(* ===== verification/KC_Prelude.thy ===== *)
theory KC_Prelude
  imports Main "HOL-Library.Word" "HOL-Library.Monad_Syntax"
begin

text \<open>
  The prelude of the Kernel Cache development: the machine integers of the C++ sources as
  words, the conversion between the characters of a \<^verbatim>\<open>std::string\<close> and bytes, the
  big-endian byte order shared by the key encoding, the identifiers, SHA-256 and the wire
  protocol, and the collections of simplification rules that the component proofs use.
\<close>

unbundle bit_operations_syntax

type_synonym u8 = "8 word"
type_synonym u16 = "16 word"
type_synonym u32 = "32 word"
type_synonym u64 = "64 word"
type_synonym i64 = "64 word" \<comment> \<open>two's complement, read with \<^const>\<open>sint\<close>\<close>
type_synonym bytes = "u8 list"

named_theorems enc_simps \<open>unfolding rules of the encoders into byte lists\<close>
named_theorems dec_simps \<open>what a reader returns on the bytes its encoder wrote\<close>
named_theorems rec_frame \<open>fields that an operation on a record leaves alone\<close>

subsection \<open>Characters and bytes\<close>

definition byte_of_char :: "char \<Rightarrow> u8" where
  "byte_of_char c = word_of_nat (of_char c)"

definition char_of_byte :: "u8 \<Rightarrow> char" where
  "char_of_byte b = char_of (unat b)"

definition bytes_of_string :: "string \<Rightarrow> bytes" where
  "bytes_of_string = map byte_of_char"

definition string_of_bytes :: "bytes \<Rightarrow> string" where
  "string_of_bytes = map char_of_byte"

lemma char_of_byte_of_char [simp]: "char_of_byte (byte_of_char c) = c"
proof -
  have "(of_char c :: nat) < 256" by simp
  then show ?thesis
    by (simp add: byte_of_char_def char_of_byte_def unat_of_nat)
qed

lemma byte_of_char_of_byte [simp]: "byte_of_char (char_of_byte b) = b"
proof -
  have "unat b < 2 ^ LENGTH(8)" by (rule unsigned_less)
  then show ?thesis
    by (simp add: byte_of_char_def char_of_byte_def)
qed

lemma string_of_bytes_of_string [simp]: "string_of_bytes (bytes_of_string s) = s"
  by (simp add: string_of_bytes_def bytes_of_string_def comp_def)

lemma bytes_of_string_of_bytes [simp]: "bytes_of_string (string_of_bytes b) = b"
  by (simp add: string_of_bytes_def bytes_of_string_def comp_def)

lemma length_bytes_of_string [simp]: "length (bytes_of_string s) = length s"
  by (simp add: bytes_of_string_def)

lemma length_string_of_bytes [simp]: "length (string_of_bytes s) = length s"
  by (simp add: string_of_bytes_def)

lemma inj_byte_of_char: "inj byte_of_char"
  by (metis char_of_byte_of_char injI)

lemma bytes_of_string_inject [simp]: "bytes_of_string s = bytes_of_string t \<longleftrightarrow> s = t"
  by (metis string_of_bytes_of_string)

lemma bytes_of_string_eq_Nil [simp]: "bytes_of_string s = [] \<longleftrightarrow> s = []"
  by (simp add: bytes_of_string_def)

subsection \<open>Positional digits of a word\<close>

text \<open>
  Every reader of the sources runs the accumulator loop \<^verbatim>\<open>v = (v << k) | d\<close>, with
  \<^verbatim>\<open>k = 8\<close> on bytes and \<^verbatim>\<open>k = 4\<close> on hexadecimal digits; every writer emits the digits
  from the most significant one down. The two are inverse for any digit width.
\<close>

definition digits_acc :: "nat \<Rightarrow> 'a::len word \<Rightarrow> 'a word list \<Rightarrow> 'a word" where
  "digits_acc k v ds = fold (\<lambda>d v. push_bit k v OR d) ds v"

definition digits_of :: "nat \<Rightarrow> nat \<Rightarrow> 'a::len word \<Rightarrow> 'a word list" where
  "digits_of k n w = map (\<lambda>i. take_bit k (drop_bit (k * i) w)) (rev [0..<n])"

lemma digits_acc_Nil [simp]: "digits_acc k v [] = v"
  by (simp add: digits_acc_def)

lemma digits_acc_Cons: "digits_acc k v (d # ds) = digits_acc k (push_bit k v OR d) ds"
  by (simp add: digits_acc_def)

lemma digits_acc_append: "digits_acc k v (ds @ es) = digits_acc k (digits_acc k v ds) es"
  by (simp add: digits_acc_def)

lemma length_digits_of [simp]: "length (digits_of k n w) = n"
  by (simp add: digits_of_def)

lemma digits_of_Suc: "digits_of k (Suc n) w = take_bit k (drop_bit (k * n) w) # digits_of k n w"
  by (simp add: digits_of_def)

lemma push_drop_or_take:
  fixes x :: "'a::len word"
  shows "push_bit k (drop_bit k x) OR take_bit k x = x"
  by (rule bit_word_eqI) (auto simp: bit_simps)

lemma digits_acc_step:
  fixes w :: "'a::len word"
  shows "push_bit k (drop_bit (k * Suc n) w) OR take_bit k (drop_bit (k * n) w) = drop_bit (k * n) w"
  using push_drop_or_take [of k "drop_bit (k * n) w"] by (simp add: add.commute)

lemma digits_acc_digits_of_from:
  "digits_acc k (drop_bit (k * n) w) (digits_of k n w) = w"
proof (induction n)
  case 0
  then show ?case by (simp add: digits_of_def)
next
  case (Suc n)
  then show ?case
    by (simp only: digits_of_Suc digits_acc_Cons digits_acc_step)
qed

lemma digits_acc_digits_of:
  fixes w :: "'a::len word"
  assumes "LENGTH('a) \<le> k * n"
  shows "digits_acc k 0 (digits_of k n w) = w"
proof -
  have "drop_bit (k * n) w = 0"
    using assms by (intro bit_word_eqI) (simp add: bit_simps)
  then show ?thesis
    using digits_acc_digits_of_from [of k n w] by simp
qed

lemma bit_digits_acc:
  fixes v :: "'a::len word"
  assumes "0 < k" and "\<forall>d \<in> set ds. take_bit k d = d"
  shows "bit (digits_acc k v ds) i \<longleftrightarrow> i < LENGTH('a) \<and>
    (if i < k * length ds then bit (ds ! (length ds - 1 - i div k)) (i mod k)
     else bit v (i - k * length ds))"
  using assms(2)
proof (induction ds arbitrary: v i)
  case Nil
  then show ?case by (auto dest: bit_imp_le_length)
next
  case (Cons d ds)
  have IH: "bit (digits_acc k w ds) i \<longleftrightarrow> i < LENGTH('a) \<and>
    (if i < k * length ds then bit (ds ! (length ds - 1 - i div k)) (i mod k)
     else bit w (i - k * length ds))" for w :: "'a word"
    using Cons by simp
  have d: "bit d j \<Longrightarrow> j < k" for j
    using Cons.prems by (metis bit_take_bit_iff list.set_intros(1))
  consider "i < k * length ds" | "k * length ds \<le> i" "i < k * length (d # ds)"
    | "k * length (d # ds) \<le> i" by linarith
  then show ?case
  proof cases
    case 1
    then have "i div k < length ds"
      using assms(1) by (simp add: less_mult_imp_div_less mult.commute)
    then have "length ds - i div k = Suc (length ds - 1 - i div k)" by simp
    with 1 show ?thesis by (simp add: digits_acc_Cons IH)
  next
    case 2
    define j where "j = i - k * length ds"
    from 2 have j: "i = j + k * length ds" "j < k" by (auto simp: j_def)
    then have "i div k = length ds" "i mod k = j" "i - k * length ds = j" by auto
    with 2 j(2) show ?thesis
      by (auto simp: digits_acc_Cons IH bit_simps simp del: mult_Suc_right)
  next
    case 3
    then have le: "k \<le> i - k * length ds" "i - k * length ds - k = i - k * length (d # ds)" by auto
    then have "\<not> bit d (i - k * length ds)"
      using d by (meson not_less)
    with 3 le show ?thesis
      by (auto simp: digits_acc_Cons IH bit_simps dest: bit_imp_le_length)
  qed
qed

lemma digits_of_digits_acc:
  fixes ds :: "'a::len word list"
  assumes k: "0 < k" and ds: "\<forall>d \<in> set ds. take_bit k d = d"
    and len: "length ds = n" "k * n \<le> LENGTH('a)"
  shows "digits_of k n (digits_acc k 0 ds) = ds"
proof (rule nth_equalityI)
  show "length (digits_of k n (digits_acc k 0 ds)) = length ds"
    using len by simp
next
  fix m
  assume "m < length (digits_of k n (digits_acc k 0 ds))"
  then have m: "m < n" by simp
  define j where "j = n - Suc m"
  have nth: "digits_of k n (digits_acc k 0 ds) ! m = take_bit k (drop_bit (k * j) (digits_acc k 0 ds))"
    using m by (simp add: digits_of_def rev_nth j_def)
  have "bit (take_bit k (drop_bit (k * j) (digits_acc k 0 ds))) i \<longleftrightarrow> bit (ds ! m) i" for i
  proof (cases "i < k")
    case True
    have "j < n" using m by (simp add: j_def)
    then have "k * Suc j \<le> k * n" by (intro mult_le_mono) simp_all
    with True have lt: "i + k * j < k * n" by simp
    have "n - 1 - (i + k * j) div k = m" "(i + k * j) mod k = i"
      using True m by (auto simp: j_def)
    with True lt len show ?thesis
      by (simp add: bit_simps bit_digits_acc [OF k ds] add.commute)
  next
    case False
    with ds m len show ?thesis
      by (metis bit_take_bit_iff nth_mem)
  qed
  then show "digits_of k n (digits_acc k 0 ds) ! m = ds ! m"
    unfolding nth by (intro bit_word_eqI) simp
qed

subsection \<open>Big-endian byte order\<close>

definition be_bytes :: "nat \<Rightarrow> 'a::len word \<Rightarrow> bytes" where
  "be_bytes n w = map (\<lambda>i. ucast (drop_bit (8 * i) w AND 0xff)) (rev [0..<n])"

definition be_word_from :: "'a::len word \<Rightarrow> bytes \<Rightarrow> 'a word" where
  "be_word_from v bs = fold (\<lambda>b v. push_bit 8 v OR ucast b) bs v"

abbreviation be_word :: "bytes \<Rightarrow> 'a::len word" where
  "be_word bs \<equiv> be_word_from 0 bs"

lemma length_be_bytes [simp]: "length (be_bytes n w) = n"
  by (simp add: be_bytes_def)

lemma be_bytes_0 [simp]: "be_bytes 0 w = []"
  by (simp add: be_bytes_def)

lemma be_bytes_Suc: "be_bytes (Suc n) w = ucast (drop_bit (8 * n) w AND 0xff) # be_bytes n w"
  by (simp add: be_bytes_def)

lemma be_word_from_Nil [simp]: "be_word_from v [] = v"
  by (simp add: be_word_from_def)

lemma be_word_from_Cons: "be_word_from v (b # bs) = be_word_from (push_bit 8 v OR ucast b) bs"
  by (simp add: be_word_from_def)

lemma and_ff_take_bit: "w AND (0xff :: 'a::len word) = take_bit 8 w"
  by (simp add: take_bit_eq_mask mask_eq_exp_minus_1)

lemma and_f_take_bit: "w AND (0xf :: 'a::len word) = take_bit 4 w"
  by (simp add: take_bit_eq_mask mask_eq_exp_minus_1)

lemma be_word_from_digits: "be_word_from v bs = digits_acc 8 v (map ucast bs)"
  by (simp add: be_word_from_def digits_acc_def fold_map comp_def)

lemma map_ucast_be_bytes:
  fixes w :: "'a::len word"
  shows "map ucast (be_bytes n w) = digits_of 8 n w"
proof -
  have "ucast (ucast (take_bit 8 x) :: u8) = take_bit 8 x" for x :: "'a word"
    by (rule bit_word_eqI) (simp add: bit_simps)
  then show ?thesis
    by (simp add: be_bytes_def digits_of_def and_ff_take_bit comp_def)
qed

lemma be_word_be_bytes:
  fixes w :: "'a::len word"
  assumes "LENGTH('a) \<le> 8 * n"
  shows "be_word (be_bytes n w) = w"
  using assms by (simp add: be_word_from_digits map_ucast_be_bytes digits_acc_digits_of)

lemma be_word_be_bytes_widths [simp]:
  "be_word (be_bytes 2 (a :: u16)) = a"
  "be_word (be_bytes 4 (b :: u32)) = b"
  "be_word (be_bytes 8 (c :: u64)) = c"
  by (simp_all add: be_word_be_bytes)

lemma inj_on_map_ucast_byte:
  assumes "8 \<le> LENGTH('a)" and "map (ucast :: u8 \<Rightarrow> 'a::len word) xs = map ucast ys"
  shows "xs = ys"
proof -
  have "inj (ucast :: u8 \<Rightarrow> 'a word)"
  proof (rule injI, rule bit_word_eqI)
    fix x y :: u8 and n
    assume "(ucast x :: 'a word) = ucast y" and "n < LENGTH(8)"
    then have "bit (ucast x :: 'a word) n = bit (ucast y :: 'a word) n" and "n < LENGTH('a)"
      using assms(1) by simp_all
    then show "bit x n = bit y n" by (simp add: bit_simps)
  qed
  with assms(2) show ?thesis by (metis inj_map_eq_map)
qed

lemma bit_byte_less: "bit (d :: u8) n \<Longrightarrow> n < 8"
  using bit_imp_le_length [of d n] by simp

lemma be_bytes_be_word:
  assumes "length bs = n" "8 * n \<le> LENGTH('a)" "8 \<le> LENGTH('a)"
  shows "be_bytes n (be_word bs :: 'a::len word) = bs"
proof (rule inj_on_map_ucast_byte [where ?'a = 'a])
  have "\<forall>d \<in> set (map ucast bs :: 'a word list). take_bit 8 d = d"
    by (auto intro!: bit_word_eqI simp: bit_simps dest: bit_byte_less)
  then show "map ucast (be_bytes n (be_word bs :: 'a word)) = (map ucast bs :: 'a word list)"
    using assms by (simp add: be_word_from_digits map_ucast_be_bytes digits_of_digits_acc)
qed (use assms in simp)

subsection \<open>Decimal text\<close>

text \<open>What \<^verbatim>\<open>operator<<\<close> and \<^verbatim>\<open>std::to_string\<close> print for an integer.\<close>

definition digit_char :: "nat \<Rightarrow> char" where
  "digit_char n = char_of (48 + n)"

fun show_nat :: "nat \<Rightarrow> string" where
  "show_nat n = (if n < 10 then [digit_char n] else show_nat (n div 10) @ [digit_char (n mod 10)])"

declare show_nat.simps [simp del]

definition show_word :: "'a::len word \<Rightarrow> string" where
  "show_word w = show_nat (unat w)"

definition show_int :: "int \<Rightarrow> string" where
  "show_int i = (if i < 0 then CHR ''-'' # show_nat (nat (- i)) else show_nat (nat i))"

definition show_i64 :: "i64 \<Rightarrow> string" where
  "show_i64 w = show_int (sint w)"

text \<open>\<^verbatim>\<open>c_str()\<close> as a C function reads it: up to the first null character.\<close>

definition c_str :: "string \<Rightarrow> string" where
  "c_str s = takeWhile (\<lambda>c. c \<noteq> CHR 0x00) s"

subsection \<open>Association lists as unordered maps\<close>

text \<open>
  A \<^verbatim>\<open>std::unordered_map\<close> is an association list with distinct keys. Its order is one of
  the iteration orders the C++ container may have.
\<close>

lemma map_of_filter_neq:
  "map_of (filter (\<lambda>(k, _). k \<noteq> a) xs) b = (if b = a then None else map_of xs b)"
  by (induction xs) auto

lemma map_of_map_snd:
  "map_of (map (\<lambda>(k, v). (k, f k v)) xs) a = map_option (f a) (map_of xs a)"
  by (induction xs) auto

lemma fst_map_snd [simp]: "map fst (map (\<lambda>(k, v). (k, f k v)) xs) = map fst xs"
  by (induction xs) auto

end
