(* ===== verification/KC_Result.thy ===== *)
theory KC_Result
  imports KC_Prelude
begin

text \<open>
  The error model: \<^verbatim>\<open>ErrorCode\<close>, \<^verbatim>\<open>KcError\<close> and \<^verbatim>\<open>Result<T>\<close> of
  \<^verbatim>\<open>include/kernelcache/result.hpp\<close> with the names of \<^verbatim>\<open>src/names.cpp\<close>.
  A \<^verbatim>\<open>Result<T>\<close> is a sum whose left summand carries the error.
\<close>

datatype ErrorCode =
    EC_None | EC_IncompatibleArchitecture | EC_IncompatibleRuntime |
    EC_IncompatibleCompilerABI | EC_IncompatibleKernelABI | EC_IncompatibleDatatype |
    EC_IncompatibleLayout | EC_IncompatibleShape | EC_IncompatibleAlignment |
    EC_IncompatibleSpecialization | EC_IncompatibleQuantization | EC_InvalidArtifact |
    EC_StaleArtifact | EC_CorruptArtifact | EC_PolicyRejected | EC_BadStateTransition |
    EC_InvalidArgument | EC_NotFound | EC_AlreadyExists | EC_NotSupported | EC_BuildFailed |
    EC_ValidationFailed | EC_LoadFailed | EC_UnloadFailed | EC_StaleGeneration |
    EC_ObsoleteBuildAttempt | EC_ObsoleteArtifact | EC_EpochMismatch | EC_WorkerBootMismatch |
    EC_DuplicateBuildCompletion | EC_EvictionForbidden | EC_ResidencyExceeded | EC_NotResident
    | EC_IoError | EC_ChecksumMismatch | EC_TruncatedData | EC_UnknownMetadataVersion |
    EC_PartialWrite | EC_OrphanTemp | EC_ProtocolError | EC_FrameTooLarge | EC_MalformedFrame
    | EC_UnknownMessageType | EC_ProtocolVersionMismatch | EC_OutOfMemory | EC_ThreadError |
    EC_Cancelled | EC_Timeout | EC_ConcurrencyConflict | EC_InternalError

primrec error_code_value :: "ErrorCode \<Rightarrow> u32" where
  "error_code_value EC_None = 0"
| "error_code_value EC_IncompatibleArchitecture = 1"
| "error_code_value EC_IncompatibleRuntime = 2"
| "error_code_value EC_IncompatibleCompilerABI = 3"
| "error_code_value EC_IncompatibleKernelABI = 4"
| "error_code_value EC_IncompatibleDatatype = 5"
| "error_code_value EC_IncompatibleLayout = 6"
| "error_code_value EC_IncompatibleShape = 7"
| "error_code_value EC_IncompatibleAlignment = 8"
| "error_code_value EC_IncompatibleSpecialization = 9"
| "error_code_value EC_IncompatibleQuantization = 10"
| "error_code_value EC_InvalidArtifact = 11"
| "error_code_value EC_StaleArtifact = 12"
| "error_code_value EC_CorruptArtifact = 13"
| "error_code_value EC_PolicyRejected = 14"
| "error_code_value EC_BadStateTransition = 20"
| "error_code_value EC_InvalidArgument = 21"
| "error_code_value EC_NotFound = 22"
| "error_code_value EC_AlreadyExists = 23"
| "error_code_value EC_NotSupported = 24"
| "error_code_value EC_BuildFailed = 25"
| "error_code_value EC_ValidationFailed = 26"
| "error_code_value EC_LoadFailed = 27"
| "error_code_value EC_UnloadFailed = 28"
| "error_code_value EC_StaleGeneration = 30"
| "error_code_value EC_ObsoleteBuildAttempt = 31"
| "error_code_value EC_ObsoleteArtifact = 32"
| "error_code_value EC_EpochMismatch = 33"
| "error_code_value EC_WorkerBootMismatch = 34"
| "error_code_value EC_DuplicateBuildCompletion = 35"
| "error_code_value EC_EvictionForbidden = 40"
| "error_code_value EC_ResidencyExceeded = 41"
| "error_code_value EC_NotResident = 42"
| "error_code_value EC_IoError = 50"
| "error_code_value EC_ChecksumMismatch = 51"
| "error_code_value EC_TruncatedData = 52"
| "error_code_value EC_UnknownMetadataVersion = 53"
| "error_code_value EC_PartialWrite = 54"
| "error_code_value EC_OrphanTemp = 55"
| "error_code_value EC_ProtocolError = 60"
| "error_code_value EC_FrameTooLarge = 61"
| "error_code_value EC_MalformedFrame = 62"
| "error_code_value EC_UnknownMessageType = 63"
| "error_code_value EC_ProtocolVersionMismatch = 64"
| "error_code_value EC_OutOfMemory = 70"
| "error_code_value EC_ThreadError = 71"
| "error_code_value EC_Cancelled = 72"
| "error_code_value EC_Timeout = 73"
| "error_code_value EC_ConcurrencyConflict = 74"
| "error_code_value EC_InternalError = 75"

primrec error_code_name :: "ErrorCode \<Rightarrow> string" where
  "error_code_name EC_None = ''none''"
| "error_code_name EC_IncompatibleArchitecture = ''incompatible-architecture''"
| "error_code_name EC_IncompatibleRuntime = ''incompatible-runtime''"
| "error_code_name EC_IncompatibleCompilerABI = ''incompatible-compiler-abi''"
| "error_code_name EC_IncompatibleKernelABI = ''incompatible-kernel-abi''"
| "error_code_name EC_IncompatibleDatatype = ''incompatible-datatype''"
| "error_code_name EC_IncompatibleLayout = ''incompatible-layout''"
| "error_code_name EC_IncompatibleShape = ''incompatible-shape''"
| "error_code_name EC_IncompatibleAlignment = ''incompatible-alignment''"
| "error_code_name EC_IncompatibleSpecialization = ''incompatible-specialization''"
| "error_code_name EC_IncompatibleQuantization = ''incompatible-quantization''"
| "error_code_name EC_InvalidArtifact = ''invalid-artifact''"
| "error_code_name EC_StaleArtifact = ''stale-artifact''"
| "error_code_name EC_CorruptArtifact = ''corrupt-artifact''"
| "error_code_name EC_PolicyRejected = ''policy-rejected''"
| "error_code_name EC_BadStateTransition = ''bad-state-transition''"
| "error_code_name EC_InvalidArgument = ''invalid-argument''"
| "error_code_name EC_NotFound = ''not-found''"
| "error_code_name EC_AlreadyExists = ''already-exists''"
| "error_code_name EC_NotSupported = ''not-supported''"
| "error_code_name EC_BuildFailed = ''build-failed''"
| "error_code_name EC_ValidationFailed = ''validation-failed''"
| "error_code_name EC_LoadFailed = ''load-failed''"
| "error_code_name EC_UnloadFailed = ''unload-failed''"
| "error_code_name EC_StaleGeneration = ''stale-generation''"
| "error_code_name EC_ObsoleteBuildAttempt = ''obsolete-build-attempt''"
| "error_code_name EC_ObsoleteArtifact = ''obsolete-artifact''"
| "error_code_name EC_EpochMismatch = ''epoch-mismatch''"
| "error_code_name EC_WorkerBootMismatch = ''worker-boot-mismatch''"
| "error_code_name EC_DuplicateBuildCompletion = ''duplicate-build-completion''"
| "error_code_name EC_EvictionForbidden = ''eviction-forbidden''"
| "error_code_name EC_ResidencyExceeded = ''residency-exceeded''"
| "error_code_name EC_NotResident = ''not-resident''"
| "error_code_name EC_IoError = ''io-error''"
| "error_code_name EC_ChecksumMismatch = ''checksum-mismatch''"
| "error_code_name EC_TruncatedData = ''truncated-data''"
| "error_code_name EC_UnknownMetadataVersion = ''unknown-metadata-version''"
| "error_code_name EC_PartialWrite = ''partial-write''"
| "error_code_name EC_OrphanTemp = ''orphan-temp''"
| "error_code_name EC_ProtocolError = ''protocol-error''"
| "error_code_name EC_FrameTooLarge = ''frame-too-large''"
| "error_code_name EC_MalformedFrame = ''malformed-frame''"
| "error_code_name EC_UnknownMessageType = ''unknown-message-type''"
| "error_code_name EC_ProtocolVersionMismatch = ''protocol-version-mismatch''"
| "error_code_name EC_OutOfMemory = ''out-of-memory''"
| "error_code_name EC_ThreadError = ''thread-error''"
| "error_code_name EC_Cancelled = ''cancelled''"
| "error_code_name EC_Timeout = ''timeout''"
| "error_code_name EC_ConcurrencyConflict = ''concurrency-conflict''"
| "error_code_name EC_InternalError = ''internal-error''"

record KcError =
  code :: ErrorCode
  message :: string

type_synonym 'a result = "KcError + 'a"

abbreviation fail :: "ErrorCode \<Rightarrow> string \<Rightarrow> 'a result" where
  "fail c m \<equiv> Inl \<lparr>code = c, message = m\<rparr>"

abbreviation ok :: "unit result" where
  "ok \<equiv> Inr ()"

definition KcError_to_string :: "KcError \<Rightarrow> string" where
  "KcError_to_string e =
     (let s = error_code_name (code e)
      in if message e \<noteq> [] then s @ '': '' @ message e else s)"

definition value_or :: "'a result \<Rightarrow> 'a \<Rightarrow> 'a" where
  "value_or r fallback = (case r of Inl _ \<Rightarrow> fallback | Inr v \<Rightarrow> v)"

lemma error_code_value_less: "unat (error_code_value c) < 256"
  by (cases c) simp_all

lemma error_code_value_zero: "error_code_value c = 0 \<longleftrightarrow> c = EC_None"
  by (cases c) simp_all

end
