(* ===== verification/KC_Identifiers.thy ===== *)
theory KC_Identifiers
  imports KC_Result
begin

text \<open>
  Identities and generations (\<^verbatim>\<open>include/kernelcache/identifiers.hpp\<close>,
  \<^verbatim>\<open>src/identifiers.cpp\<close>). Every identity type of the sources derives from
  \<^verbatim>\<open>StrongId128\<close> and adds no field, so all of them share one record here. The textual
  and the binary form both round-trip.
\<close>

record StrongId128 =
  id_hi :: u64
  id_lo :: u64

type_synonym KernelId = StrongId128
type_synonym ArtifactId = StrongId128
type_synonym BuildAttemptId = StrongId128
type_synonym RequestId = StrongId128
type_synonym DeviceId = StrongId128
type_synonym WorkerBootId = StrongId128

type_synonym CacheGeneration = u64
type_synonym ArtifactGeneration = u64
type_synonym LoadGeneration = u64
type_synonym ResidencyGeneration = u64
type_synonym CoordinatorEpoch = u64
type_synonym WorkerId = u64

definition mk_id :: "u64 \<Rightarrow> u64 \<Rightarrow> StrongId128" where
  "mk_id h l = \<lparr>id_hi = h, id_lo = l\<rparr>"

definition default_id :: StrongId128 where
  "default_id = mk_id 0 0"

definition id_bool :: "StrongId128 \<Rightarrow> bool" where
  "id_bool i \<longleftrightarrow> (id_hi i OR id_lo i) \<noteq> 0"

lemma mk_id_sel [simp]: "id_hi (mk_id h l) = h" "id_lo (mk_id h l) = l"
  by (simp_all add: mk_id_def)

lemma mk_id_collapse [simp]: "mk_id (id_hi i) (id_lo i) = i"
  by (simp add: mk_id_def)

lemma mk_id_inject [simp]: "mk_id h l = mk_id h' l' \<longleftrightarrow> h = h' \<and> l = l'"
  by (simp add: mk_id_def)

lemma id_bool_iff: "id_bool i \<longleftrightarrow> i \<noteq> default_id"
  by (cases i) (auto simp: id_bool_def default_id_def mk_id_def or_eq_0_iff)

subsection \<open>Hexadecimal text\<close>

text \<open>The digit table \<^verbatim>\<open>h\<close> of \<^verbatim>\<open>StrongId128::str\<close>, also used by \<^verbatim>\<open>to_hex\<close>.\<close>

definition hex_digits :: string where
  "hex_digits = ''0123456789abcdef''"

definition hex_char :: "nat \<Rightarrow> char" where
  "hex_char n = hex_digits ! n"

text \<open>One iteration of the digit loop of \<^verbatim>\<open>parse\<close>: the value of a character, if it is a digit.\<close>

definition hex_value :: "char \<Rightarrow> u64 option" where
  "hex_value c =
     (let n = (of_char c :: nat)
      in if 48 \<le> n \<and> n \<le> 57 then Some (word_of_nat (n - 48))
         else if 97 \<le> n \<and> n \<le> 102 then Some (word_of_nat (n - 97 + 10))
         else if 65 \<le> n \<and> n \<le> 70 then Some (word_of_nat (n - 65 + 10))
         else None)"

fun parse_loop :: "nat \<Rightarrow> string \<Rightarrow> u64 \<Rightarrow> u64 \<Rightarrow> StrongId128 result" where
  "parse_loop i [] hi lo = Inr (mk_id hi lo)"
| "parse_loop i (c # cs) hi lo =
     (case hex_value c of
        None \<Rightarrow> fail EC_MalformedFrame ''invalid hex digit in id''
      | Some v \<Rightarrow>
          if i < 16 then parse_loop (Suc i) cs (push_bit 4 hi OR v) lo
          else parse_loop (Suc i) cs hi (push_bit 4 lo OR v))"

definition parse :: "string \<Rightarrow> StrongId128 result" where
  "parse s =
     (if length s \<noteq> 32 then fail EC_MalformedFrame ''id must be 32 hex digits''
      else parse_loop 0 s 0 0)"

definition hex_word :: "u64 \<Rightarrow> string" where
  "hex_word w = map (\<lambda>i. hex_char (unat (drop_bit (4 * i) w AND 0xf))) (rev [0..<16])"

definition str :: "StrongId128 \<Rightarrow> string" where
  "str i = hex_word (id_hi i) @ hex_word (id_lo i)"

definition to_bytes :: "StrongId128 \<Rightarrow> bytes" where
  "to_bytes i =
     map (\<lambda>k. ucast (drop_bit ((7 - k) * 8) (id_hi i) AND 0xff)) [0..<8] @
     map (\<lambda>k. ucast (drop_bit ((7 - k) * 8) (id_lo i) AND 0xff)) [0..<8]"

definition from_bytes :: "bytes \<Rightarrow> StrongId128" where
  "from_bytes b = mk_id (be_word (take 8 b)) (be_word (take 8 (drop 8 b)))"

definition hash_id :: "StrongId128 \<Rightarrow> u64" where
  "hash_id i = id_hi i XOR (id_lo i * 0x9E3779B97F4A7C15)"

subsection \<open>The binary form\<close>

lemma to_bytes_eq: "to_bytes i = be_bytes 8 (id_hi i) @ be_bytes 8 (id_lo i)"
proof -
  have "map (\<lambda>k. ucast (drop_bit ((7 - k) * 8) w AND 0xff) :: u8) [0..<8] = be_bytes 8 w" for w :: u64
    by (simp add: be_bytes_def upt_rec)
  then show ?thesis by (simp add: to_bytes_def)
qed

lemma length_to_bytes [simp]: "length (to_bytes i) = 16"
  by (simp add: to_bytes_eq)

lemma from_bytes_to_bytes: "from_bytes (to_bytes i) = i"
  by (simp add: from_bytes_def to_bytes_eq)

lemma to_bytes_from_bytes:
  assumes "length b = 16"
  shows "to_bytes (from_bytes b) = b"
proof -
  have "be_bytes 8 (be_word (take 8 b) :: u64) = take 8 b"
    and "be_bytes 8 (be_word (take 8 (drop 8 b)) :: u64) = take 8 (drop 8 b)"
    using assms by (auto intro!: be_bytes_be_word)
  moreover have "take 8 b @ take 8 (drop 8 b) = b"
    using assms by (metis append_take_drop_id length_drop numeral_Bit0 take_all_iff add_diff_cancel_right' order_refl)
  ultimately show ?thesis
    by (simp add: to_bytes_eq from_bytes_def)
qed

subsection \<open>The textual form\<close>

lemma less_16_cases:
  assumes "n < (16::nat)"
  shows "n \<in> {0,1,2,3,4,5,6,7,8,9,10,11,12,13,14,15}"
  using assms by (simp, arith)

lemma hex_value_hex_char: "n < 16 \<Longrightarrow> hex_value (hex_char n) = Some (word_of_nat n)"
  by (drule less_16_cases) (auto simp: hex_value_def hex_char_def hex_digits_def)

lemma hex_value_less:
  assumes "hex_value c = Some v"
  shows "unat v < 16"
proof -
  define n where "n = (of_char c :: nat)"
  have "v = word_of_nat (n - 48) \<and> n - 48 < 16 \<or> v = word_of_nat (n - 97 + 10) \<and> n - 97 + 10 < 16
    \<or> v = word_of_nat (n - 65 + 10) \<and> n - 65 + 10 < 16"
    using assms unfolding hex_value_def Let_def n_def [symmetric]
    by (auto simp del: of_nat_diff of_nat_add split: if_splits)
  then obtain m where "m < 16" "v = word_of_nat m" by blast
  then show ?thesis by (simp add: unat_of_nat)
qed

text \<open>The lower-case spelling of a hexadecimal digit.\<close>

definition hex_lower :: "char \<Rightarrow> char" where
  "hex_lower c = (case hex_value c of None \<Rightarrow> c | Some v \<Rightarrow> hex_char (unat v))"

lemma hex_word_digits: "hex_word w = map (\<lambda>d. hex_char (unat d)) (digits_of 4 16 w)"
  by (simp add: hex_word_def digits_of_def and_f_take_bit comp_def)

lemma length_hex_word [simp]: "length (hex_word w) = 16"
  by (simp add: hex_word_digits)

lemma length_str [simp]: "length (str i) = 32"
  by (simp add: str_def)

lemma unat_digit4_less:
  assumes "d \<in> set (digits_of 4 n (w :: u64))"
  shows "unat d < 16"
proof -
  from assms obtain x :: u64 where "d = take_bit 4 x" by (auto simp: digits_of_def)
  moreover have "unat (take_bit 4 x) = take_bit 4 (unat x)" by (rule unsigned_take_bit_eq)
  ultimately show ?thesis using take_bit_nat_less_exp [of 4 "unat x"] by simp
qed

text \<open>
  Sixteen digits run through one half of the loop: those at positions below 16 go to the
  high word, the others to the low word.
\<close>

lemma parse_loop_hi:
  assumes "i + length cs \<le> 16" and "map hex_value cs = map Some vs"
  shows "parse_loop i (cs @ ds) h l = parse_loop (i + length cs) ds (digits_acc 4 h vs) l"
  using assms
proof (induction cs arbitrary: i h vs)
  case Nil
  then show ?case by simp
next
  case (Cons c cs)
  then obtain v vs' where vs: "vs = v # vs'" by (cases vs) auto
  with Cons.prems have "hex_value c = Some v" "map hex_value cs = map Some vs'" "i < 16"
    "Suc i + length cs \<le> 16" by auto
  then show ?case
    using Cons.IH [of "Suc i" vs' "push_bit 4 h OR v"] by (simp add: vs digits_acc_Cons)
qed

lemma parse_loop_lo:
  assumes "16 \<le> i" and "map hex_value cs = map Some vs"
  shows "parse_loop i cs h l = Inr (mk_id h (digits_acc 4 l vs))"
  using assms
proof (induction cs arbitrary: i l vs)
  case Nil
  then show ?case by simp
next
  case (Cons c cs)
  then obtain v vs' where vs: "vs = v # vs'" by (cases vs) auto
  with Cons.prems have "hex_value c = Some v" "map hex_value cs = map Some vs'" "\<not> i < 16" "16 \<le> Suc i"
    by auto
  then show ?case
    using Cons.IH [of "Suc i" vs' "push_bit 4 l OR v"] by (simp add: vs digits_acc_Cons)
qed

lemma parse_digits:
  assumes "length a = 16" "length b = 16" "map hex_value a = map Some va" "map hex_value b = map Some vb"
  shows "parse (a @ b) = Inr (mk_id (digits_acc 4 0 va) (digits_acc 4 0 vb))"
  using assms by (simp add: parse_def parse_loop_hi parse_loop_lo)

lemma map_hex_value_hex_word: "map hex_value (hex_word w) = map Some (digits_of 4 16 w)"
  by (auto simp: hex_word_digits hex_value_hex_char unat_digit4_less)

lemma parse_str_id: "parse (str i) = Inr i"
  unfolding str_def
  by (subst parse_digits [OF _ _ map_hex_value_hex_word map_hex_value_hex_word])
    (simp_all add: digits_acc_digits_of)

lemma str_inject [simp]: "str i = str j \<longleftrightarrow> i = j"
  by (metis parse_str_id sum.inject(2))

lemma parse_loop_bad:
  "\<exists>c \<in> set cs. hex_value c = None \<Longrightarrow>
    parse_loop i cs h l = fail EC_MalformedFrame ''invalid hex digit in id''"
  by (induction cs arbitrary: i h l) (auto split: option.split)

lemma hex_values_exist:
  assumes "\<forall>c \<in> set cs. hex_value c \<noteq> None"
  obtains vs where "map hex_value cs = map Some vs"
proof
  show "map hex_value cs = map Some (map (\<lambda>c. the (hex_value c)) cs)"
    using assms by auto
qed

lemma hex_word_of_digits:
  assumes "length cs = 16" and "map hex_value cs = map Some vs"
  shows "hex_word (digits_acc 4 0 vs) = map hex_lower cs"
proof -
  have len: "length vs = 16" using assms by (metis length_map)
  have "take_bit 4 v = v" if "v \<in> set vs" for v
  proof -
    from that assms(2) obtain c where "c \<in> set cs" "hex_value c = Some v"
      by (metis (no_types, lifting) image_iff list.set_map)
    then have "unat v < 2 ^ 4" using hex_value_less by simp
    then show ?thesis by (simp add: word_eq_iff_unsigned [where ?'a = nat] unsigned_take_bit_eq take_bit_nat_eq_self)
  qed
  then have "digits_of 4 16 (digits_acc 4 0 vs) = vs"
    using len by (intro digits_of_digits_acc) auto
  then have "hex_word (digits_acc 4 0 vs) = map (\<lambda>d. hex_char (unat d)) vs"
    by (simp add: hex_word_digits)
  also have "\<dots> = map hex_lower cs"
    using assms(2) len assms(1)
    by (auto simp: list_eq_iff_nth_eq hex_lower_def)
  finally show ?thesis .
qed

lemma parse_lower:
  assumes "length s = 32" and "\<forall>c \<in> set s. hex_value c \<noteq> None"
  shows "\<exists>i. parse s = Inr i \<and> str i = map hex_lower s"
proof -
  define a b where "a = take 16 s" and "b = drop 16 s"
  have s: "s = a @ b" and len: "length a = 16" "length b = 16"
    using assms(1) by (simp_all add: a_def b_def)
  from assms(2) s have "\<forall>c \<in> set a. hex_value c \<noteq> None" "\<forall>c \<in> set b. hex_value c \<noteq> None" by auto
  then obtain va vb where v: "map hex_value a = map Some va" "map hex_value b = map Some vb"
    by (meson hex_values_exist)
  then show ?thesis
    using len by (simp add: s parse_digits str_def hex_word_of_digits)
qed

subsection \<open>Properties\<close>

text \<open>
  The text form of an identity is lossless: it has 32 characters, parsing it gives the identity
  back, and every text of 32 hexadecimal digits, in whatever case, parses to an identity whose
  text is its lower-case form.
\<close>

theorem id_text_round_trip:
  "length (str i) = 32 \<and> parse (str i) = Inr i \<and>
    (length s = 32 \<and> (\<forall>c \<in> set s. hex_value c \<noteq> None)
      \<longrightarrow> (\<exists>j. parse s = Inr j \<and> str j = map hex_lower s))"
  using parse_lower by (auto simp: parse_str_id)

theorem id_text_round_trip_witness:
  "\<exists>j. parse ''0123456789ABCDEFfedcba9876543210'' = Inr j \<and> str j = ''0123456789abcdeffedcba9876543210''"
proof -
  have "\<forall>c \<in> set ''0123456789ABCDEFfedcba9876543210''. hex_value c \<noteq> None" by code_simp
  moreover have "map hex_lower ''0123456789ABCDEFfedcba9876543210'' = ''0123456789abcdeffedcba9876543210''" by code_simp
  ultimately show ?thesis
    using id_text_round_trip [of default_id "''0123456789ABCDEFfedcba9876543210''"] by simp
qed

text \<open>
  Anything but 32 hexadecimal digits is refused with \<^verbatim>\<open>MalformedFrame\<close>.
\<close>

theorem id_parse_rejects:
  assumes "length s \<noteq> 32 \<or> (\<exists>c \<in> set s. hex_value c = None)"
  shows "\<exists>m. parse s = fail EC_MalformedFrame m"
  using assms by (auto simp: parse_def parse_loop_bad)

theorem id_parse_rejects_witness: "\<exists>m. parse ''1-2'' = fail EC_MalformedFrame m"
  by (rule id_parse_rejects) simp

text \<open>
  The wire form is a bijection between identities and blocks of 16 bytes, in both directions.
\<close>

theorem id_bytes_round_trip:
  "length (to_bytes i) = 16 \<and> from_bytes (to_bytes i) = i \<and> (length b = 16 \<longrightarrow> to_bytes (from_bytes b) = b)"
  by (simp add: from_bytes_to_bytes to_bytes_from_bytes)

theorem id_bytes_round_trip_witness:
  "to_bytes (from_bytes [1,2,3,4,5,6,7,8,9,10,11,12,13,14,15,16]) = [1,2,3,4,5,6,7,8,9,10,11,12,13,14,15,16]"
  using id_bytes_round_trip [of default_id "[1,2,3,4,5,6,7,8,9,10,11,12,13,14,15,16]"] by simp

end
