(* ===== verification/KC_Sha256.thy ===== *)
theory KC_Sha256
  imports KC_Identifiers
begin

text \<open>
  SHA-256 as \<^verbatim>\<open>src/sha256.cpp\<close> implements it: a streaming object with an eight-word
  state, a bit counter and a 64-byte buffer. The theory relates the object to the standard's
  one-shot definition (pad, cut into 64-byte blocks, fold the compression function) and shows
  that how the input is cut into \<^verbatim>\<open>update\<close> calls does not matter.
\<close>

definition kK :: "u32 list" where
  "kK = concat
    [[0x428a2f98, 0x71374491, 0xb5c0fbcf, 0xe9b5dba5, 0x3956c25b, 0x59f111f1],
     [0x923f82a4, 0xab1c5ed5, 0xd807aa98, 0x12835b01, 0x243185be, 0x550c7dc3],
     [0x72be5d74, 0x80deb1fe, 0x9bdc06a7, 0xc19bf174, 0xe49b69c1, 0xefbe4786],
     [0x0fc19dc6, 0x240ca1cc, 0x2de92c6f, 0x4a7484aa, 0x5cb0a9dc, 0x76f988da],
     [0x983e5152, 0xa831c66d, 0xb00327c8, 0xbf597fc7, 0xc6e00bf3, 0xd5a79147],
     [0x06ca6351, 0x14292967, 0x27b70a85, 0x2e1b2138, 0x4d2c6dfc, 0x53380d13],
     [0x650a7354, 0x766a0abb, 0x81c2c92e, 0x92722c85, 0xa2bfe8a1, 0xa81a664b],
     [0xc24b8b70, 0xc76c51a3, 0xd192e819, 0xd6990624, 0xf40e3585, 0x106aa070],
     [0x19a4c116, 0x1e376c08, 0x2748774c, 0x34b0bcb5, 0x391c0cb3, 0x4ed8aa4a],
     [0x5b9cca4f, 0x682e6ff3, 0x748f82ee, 0x78a5636f, 0x84c87814, 0x8cc70208],
     [0x90befffa, 0xa4506ceb, 0xbef9a3f7, 0xc67178f2]]"

definition rotr :: "u32 \<Rightarrow> nat \<Rightarrow> u32" where
  "rotr x n = drop_bit n x OR push_bit (32 - n) x"

record Sha256 =
  state :: "u32 list"
  bit_count :: u64
  buffer :: bytes
  buffer_used :: nat

definition initial_state :: "u32 list" where
  "initial_state =
    [0x6a09e667, 0xbb67ae85, 0x3c6ef372, 0xa54ff53a, 0x510e527f, 0x9b05688c, 0x1f83d9ab, 0x5be0cd19]"

definition reset :: "Sha256 \<Rightarrow> Sha256" where
  "reset s = s\<lparr>state := initial_state, bit_count := 0, buffer_used := 0\<rparr>"

text \<open>The zero-initialised members, then the constructor's \<^verbatim>\<open>reset()\<close>.\<close>

definition Sha256_new :: Sha256 where
  "Sha256_new =
     reset \<lparr>state = replicate 8 0, bit_count = 0, buffer = replicate 64 0, buffer_used = 0\<rparr>"

subsection \<open>The compression function\<close>

text \<open>The first loop of \<^verbatim>\<open>process_block\<close>: sixteen big-endian words.\<close>

definition load_words :: "bytes \<Rightarrow> u32 list" where
  "load_words block =
     map (\<lambda>i. push_bit 24 (ucast (block ! (i * 4))) OR push_bit 16 (ucast (block ! (i * 4 + 1)))
        OR push_bit 8 (ucast (block ! (i * 4 + 2))) OR ucast (block ! (i * 4 + 3))) [0..<16]"

text \<open>The second loop: \<^verbatim>\<open>w[i]\<close> for \<^verbatim>\<open>i\<close> from 16 to 63, each from earlier entries.\<close>

definition sched_word :: "u32 list \<Rightarrow> nat \<Rightarrow> u32" where
  "sched_word w i =
     (let s0 = rotr (w ! (i - 15)) 7 XOR rotr (w ! (i - 15)) 18 XOR drop_bit 3 (w ! (i - 15));
          s1 = rotr (w ! (i - 2)) 17 XOR rotr (w ! (i - 2)) 19 XOR drop_bit 10 (w ! (i - 2))
      in w ! (i - 16) + s0 + w ! (i - 7) + s1)"

definition extend_words :: "u32 list \<Rightarrow> u32 list" where
  "extend_words w = fold (\<lambda>i w. w @ [sched_word w i]) [16..<64] w"

type_synonym working = "u32 \<times> u32 \<times> u32 \<times> u32 \<times> u32 \<times> u32 \<times> u32 \<times> u32"

text \<open>One iteration of the round loop.\<close>

fun sha_round :: "u32 \<Rightarrow> u32 \<Rightarrow> working \<Rightarrow> working" where
  "sha_round k w (a, b, c, d, e, f, g, h) =
     (let s1 = rotr e 6 XOR rotr e 11 XOR rotr e 25;
          ch = (e AND f) XOR (NOT e AND g);
          t1 = h + s1 + ch + k + w;
          s0 = rotr a 2 XOR rotr a 13 XOR rotr a 22;
          maj = (a AND b) XOR (a AND c) XOR (b AND c);
          t2 = s0 + maj
      in (t1 + t2, a, b, c, d + t1, e, f, g))"

fun add_working :: "u32 list \<Rightarrow> working \<Rightarrow> u32 list" where
  "add_working st (a, b, c, d, e, f, g, h) =
     [st ! 0 + a, st ! 1 + b, st ! 2 + c, st ! 3 + d, st ! 4 + e, st ! 5 + f, st ! 6 + g, st ! 7 + h]"

definition compress :: "u32 list \<Rightarrow> bytes \<Rightarrow> u32 list" where
  "compress st block =
     (let w = extend_words (load_words block);
          r0 = (st ! 0, st ! 1, st ! 2, st ! 3, st ! 4, st ! 5, st ! 6, st ! 7)
      in add_working st (fold (\<lambda>i r. sha_round (kK ! i) (w ! i) r) [0..<64] r0))"

definition process_block :: "bytes \<Rightarrow> Sha256 \<Rightarrow> Sha256" where
  "process_block block s = s\<lparr>state := compress (state s) block, bit_count := bit_count s + 512\<rparr>"

subsection \<open>Streaming\<close>

definition update_byte :: "u8 \<Rightarrow> Sha256 \<Rightarrow> Sha256" where
  "update_byte b s =
     (let s = s\<lparr>buffer := (buffer s)[buffer_used s := b], buffer_used := Suc (buffer_used s)\<rparr>
      in if buffer_used s = 64 then (process_block (buffer s) s)\<lparr>buffer_used := 0\<rparr> else s)"

text \<open>The loop of \<^verbatim>\<open>update\<close> runs the body of \<^verbatim>\<open>update_byte\<close> on every byte.\<close>

primrec update :: "bytes \<Rightarrow> Sha256 \<Rightarrow> Sha256" where
  "update [] s = s"
| "update (b # bs) s = update bs (update_byte b s)"

definition update_string :: "string \<Rightarrow> Sha256 \<Rightarrow> Sha256" where
  "update_string t = update (bytes_of_string t)"

text \<open>
  The padding loop of \<^verbatim>\<open>finish\<close>. The fuel bounds its iterations; \<^verbatim>\<open>pad_loop_enough\<close>
  below shows that 64 iterations always suffice from a state with fewer than 64 buffered bytes,
  so the fuel is never exhausted in \<^verbatim>\<open>finish\<close>.
\<close>

fun pad_loop :: "nat \<Rightarrow> Sha256 \<Rightarrow> Sha256 option" where
  "pad_loop 0 s = None"
| "pad_loop (Suc n) s =
     (if buffer_used s = 56 then Some s
      else let s = (if buffer_used s = 64 then (process_block (buffer s) s)\<lparr>buffer_used := 0\<rparr> else s)
           in pad_loop n (update_byte 0 s))"

definition length_bytes :: "u64 \<Rightarrow> bytes" where
  "length_bytes total_bits = map (\<lambda>i. ucast (drop_bit (i * 8) total_bits AND 0xff)) (rev [0..<8])"

definition digest_bytes :: "u32 list \<Rightarrow> bytes" where
  "digest_bytes st = concat (map (\<lambda>i.
     [ucast (drop_bit 24 (st ! i) AND 0xff), ucast (drop_bit 16 (st ! i) AND 0xff),
      ucast (drop_bit 8 (st ! i) AND 0xff), ucast (st ! i AND 0xff)]) [0..<8])"

definition finish :: "Sha256 \<Rightarrow> (bytes \<times> Sha256) option" where
  "finish s =
     (let total_bits = bit_count s + word_of_nat (buffer_used s) * 8
      in case pad_loop 65 (update_byte 0x80 s) of
           None \<Rightarrow> None
         | Some s \<Rightarrow>
             let s = update (length_bytes total_bits) s
             in Some (digest_bytes (state s), reset s))"

definition digest :: "bytes \<Rightarrow> bytes" where
  "digest data = (case finish (update data Sha256_new) of None \<Rightarrow> [] | Some (d, _) \<Rightarrow> d)"

definition digest_string :: "string \<Rightarrow> bytes" where
  "digest_string t = (case finish (update_string t Sha256_new) of None \<Rightarrow> [] | Some (d, _) \<Rightarrow> d)"

definition to_hex :: "bytes \<Rightarrow> string" where
  "to_hex d = concat (map (\<lambda>b. [hex_char (unat (drop_bit 4 b)), hex_char (unat (b AND 0x0f))]) d)"

subsection \<open>The standard's one-shot definition\<close>

text \<open>
  The reference: the message, a byte \<^verbatim>\<open>0x80\<close>, zero bytes up to 56 modulo 64, the message
  length in bits as a 64-bit big-endian number; the compression function folded over the
  64-byte blocks; the final words in big-endian order.
\<close>

definition sha_blocks :: "bytes \<Rightarrow> bytes list" where
  "sha_blocks m = map (\<lambda>i. take 64 (drop (64 * i) m)) [0..<length m div 64]"

definition sha_absorb :: "bytes \<Rightarrow> u32 list" where
  "sha_absorb m = fold (\<lambda>b st. compress st b) (sha_blocks m) initial_state"

definition sha_pad_zeros :: "nat \<Rightarrow> nat" where
  "sha_pad_zeros n = (119 - n mod 64) mod 64"

definition sha_pad :: "bytes \<Rightarrow> bytes" where
  "sha_pad m = m @ [0x80] @ replicate (sha_pad_zeros (length m)) 0
     @ be_bytes 8 (word_of_nat (8 * length m) :: u64)"

definition sha256_spec :: "bytes \<Rightarrow> bytes" where
  "sha256_spec m = concat (map (be_bytes 4) (sha_absorb (sha_pad m)))"

subsection \<open>The object holds the bytes it was given\<close>

definition sha_holds :: "bytes \<Rightarrow> Sha256 \<Rightarrow> bool" where
  "sha_holds m s \<longleftrightarrow>
     length (buffer s) = 64 \<and> buffer_used s = length m mod 64 \<and>
     take (buffer_used s) (buffer s) = drop (64 * (length m div 64)) m \<and>
     state s = sha_absorb m \<and> bit_count s = word_of_nat (512 * (length m div 64))"

lemma sha_holds_new: "sha_holds [] Sha256_new"
  by (simp add: sha_holds_def Sha256_new_def reset_def sha_absorb_def sha_blocks_def)

lemma sha_blocks_snoc:
  "sha_blocks (m @ [b]) =
     (if Suc (length m mod 64) = 64 then sha_blocks m @ [drop (64 * (length m div 64)) m @ [b]]
      else sha_blocks m)"
proof -
  have old: "map (\<lambda>i. take 64 (drop (64 * i) (m @ [b]))) [0..<length m div 64] = sha_blocks m"
    unfolding sha_blocks_def
  proof (rule map_cong [OF refl])
    fix i
    assume "i \<in> set [0..<length m div 64]"
    then have "64 * i + 64 \<le> length m" by auto
    then show "take 64 (drop (64 * i) (m @ [b])) = take 64 (drop (64 * i) m)" by simp
  qed
  have lastb: "take 64 (drop (64 * (length m div 64)) (m @ [b]))
      = drop (64 * (length m div 64)) m @ [b]" if "Suc (length m mod 64) = 64"
  proof -
    have "length (drop (64 * (length m div 64)) m) = length m mod 64"
      by (simp add: minus_mult_div_eq_mod)
    with that show ?thesis by simp
  qed
  show ?thesis
  proof (cases "Suc (length m mod 64) = 64")
    case True
    then have "length (m @ [b]) div 64 = Suc (length m div 64)" by (simp add: div_Suc mod_Suc)
    with old lastb [OF True] True show ?thesis by (simp add: sha_blocks_def [of "m @ [b]"])
  next
    case False
    then have "length (m @ [b]) div 64 = length m div 64" by (simp add: div_Suc mod_Suc)
    with old False show ?thesis by (simp add: sha_blocks_def [of "m @ [b]"])
  qed
qed

lemma take_Suc_list_update:
  "n < length xs \<Longrightarrow> take (Suc n) (xs[n := b]) = take n xs @ [b]"
  by (simp add: take_Suc_conv_app_nth)

lemma sha_holds_update_byte:
  assumes "sha_holds m s"
  shows "sha_holds (m @ [b]) (update_byte b s)"
proof -
  let ?buf = "(buffer s)[buffer_used s := b]"
  from assms have len: "length (buffer s) = 64" and used: "buffer_used s = length m mod 64"
    and pend: "take (buffer_used s) (buffer s) = drop (64 * (length m div 64)) m"
    and st: "state s = sha_absorb m" and bc: "bit_count s = word_of_nat (512 * (length m div 64))"
    by (auto simp: sha_holds_def)
  have lt: "buffer_used s < length (buffer s)" using len used by simp
  have tk: "take (Suc (buffer_used s)) ?buf = drop (64 * (length m div 64)) m @ [b]"
    using lt pend by (simp add: take_Suc_list_update)
  show ?thesis
  proof (cases "Suc (buffer_used s) = 64")
    case True
    then have "?buf = drop (64 * (length m div 64)) m @ [b]"
      using tk len by simp
    moreover have "length (m @ [b]) div 64 = Suc (length m div 64)" "length (m @ [b]) mod 64 = 0"
      using True used by (simp_all add: div_Suc mod_Suc)
    ultimately show ?thesis
      using True len used st bc
      by (simp add: sha_holds_def update_byte_def process_block_def Let_def sha_absorb_def
          sha_blocks_snoc algebra_simps)
  next
    case False
    then have "length (m @ [b]) div 64 = length m div 64" "length (m @ [b]) mod 64 = Suc (length m mod 64)"
      using used by (simp_all add: div_Suc mod_Suc)
    then show ?thesis
      using False len used st bc tk
      by (simp add: sha_holds_def update_byte_def Let_def sha_absorb_def sha_blocks_snoc)
  qed
qed

lemma sha_holds_update: "sha_holds m s \<Longrightarrow> sha_holds (m @ bs) (update bs s)"
proof (induction bs arbitrary: m s)
  case Nil
  then show ?case by simp
next
  case (Cons b bs)
  from Cons.IH [OF sha_holds_update_byte [OF Cons.prems, of b]] show ?case by simp
qed

lemma update_append: "update (a @ b) s = update b (update a s)"
  by (induction a arbitrary: s) simp_all

subsection \<open>Padding\<close>

lemma pad_distance:
  "x < 64 \<Longrightarrow> (120 - x) mod 64 = (if x \<le> 56 then 56 - x else 120 - x)" for x :: nat
  using le_mod_geq [of 64 "120 - x"] by auto

lemma pad_distance_Suc:
  fixes x :: nat
  assumes "x < 64" and "x \<noteq> 56"
  shows "(120 - x) mod 64 = Suc ((120 - Suc x mod 64) mod 64)"
proof (cases "x = 63")
  case True
  then show ?thesis by simp
next
  case False
  with assms have "Suc x mod 64 = Suc x" "Suc x < 64" by auto
  with assms show ?thesis by (simp only: pad_distance) auto
qed

lemma pad_loop_holds:
  assumes "sha_holds m s" and "k = (120 - length m mod 64) mod 64" and "k < n"
  shows "\<exists>s'. pad_loop n s = Some s' \<and> sha_holds (m @ replicate k 0) s'"
  using assms
proof (induction n arbitrary: m s k)
  case 0
  then show ?case by simp
next
  case (Suc n)
  from Suc.prems(1) have used: "buffer_used s = length m mod 64" by (simp add: sha_holds_def)
  show ?case
  proof (cases "buffer_used s = 56")
    case True
    with used Suc.prems show ?thesis by simp
  next
    case False
    then have k: "k = Suc ((120 - length (m @ [0::u8]) mod 64) mod 64)"
      using Suc.prems(2) used pad_distance_Suc [of "length m mod 64"] by (simp add: mod_Suc_eq)
    have "sha_holds (m @ [0]) (update_byte 0 s)" by (rule sha_holds_update_byte [OF Suc.prems(1)])
    with Suc.IH [OF this refl] Suc.prems(3) k
    obtain s' where "pad_loop n (update_byte 0 s) = Some s'"
      "sha_holds ((m @ [0]) @ replicate (k - 1) 0) s'" by auto
    moreover have "buffer_used s \<noteq> 64" using used by simp
    ultimately show ?thesis using False k by simp
  qed
qed

lemma mod_64_less_65: "(a::nat) mod 64 < 65"
  using mod_less_divisor [of 64 a] by linarith

lemma pad_loop_enough:
  assumes "sha_holds m s"
  shows "\<exists>s'. pad_loop 65 s = Some s'"
  using pad_loop_holds [OF assms refl mod_64_less_65] by blast

lemma length_bytes_eq: "length_bytes w = be_bytes 8 w"
  by (simp add: length_bytes_def be_bytes_def mult.commute)

lemma digest_bytes_eq: "length st = 8 \<Longrightarrow> digest_bytes st = concat (map (be_bytes 4) st)"
proof -
  assume "length st = 8"
  then have "map (\<lambda>i. be_bytes 4 (st ! i)) [0..<8] = map (be_bytes 4) st"
    by (metis map_nth map_map comp_def map_cong)
  moreover have "[ucast (drop_bit 24 x AND 0xff), ucast (drop_bit 16 x AND 0xff),
      ucast (drop_bit 8 x AND 0xff), ucast (x AND 0xff)] = be_bytes 4 x" for x :: u32
    by (simp add: be_bytes_def upt_rec)
  ultimately show ?thesis by (simp add: digest_bytes_def)
qed

lemma length_add_working: "length (add_working st r) = 8"
  by (cases "(st, r)" rule: add_working.cases) simp

lemma length_compress: "length (compress st b) = 8"
  by (simp add: compress_def Let_def length_add_working)

lemma length_fold_compress: "length st = 8 \<Longrightarrow> length (fold (\<lambda>b st. compress st b) bs st) = 8"
  by (induction bs arbitrary: st) (simp_all add: length_compress)

lemma length_sha_absorb: "length (sha_absorb m) = 8"
  by (simp add: sha_absorb_def length_fold_compress initial_state_def)

lemma sha_absorb_Nil [simp]: "sha_absorb [] = initial_state"
  by (simp add: sha_absorb_def sha_blocks_def)

lemma total_bits_holds:
  assumes "sha_holds m s"
  shows "bit_count s + word_of_nat (buffer_used s) * 8 = word_of_nat (8 * length m)"
proof -
  have "64 * (length m div 64) + length m mod 64 = length m" by simp
  then have "8 * length m = 512 * (length m div 64) + (length m mod 64) * 8" by linarith
  then have "(word_of_nat (8 * length m) :: u64)
      = word_of_nat (512 * (length m div 64)) + word_of_nat (length m mod 64) * 8"
    by (metis of_nat_add of_nat_mult of_nat_numeral)
  with assms show ?thesis by (simp add: sha_holds_def)
qed

text \<open>Finishing an object that holds \<^verbatim>\<open>m\<close> returns the reference digest and a fresh object.\<close>

lemma finish_holds:
  assumes "sha_holds m s"
  shows "\<exists>s'. finish s = Some (sha256_spec m, s') \<and> sha_holds [] s'"
proof -
  let ?t = "bit_count s + word_of_nat (buffer_used s) * 8"
  have "sha_holds (m @ [0x80]) (update_byte 0x80 s)" by (rule sha_holds_update_byte [OF assms])
  moreover have "sha_pad_zeros (length m) = (120 - length (m @ [0x80 :: u8]) mod 64) mod 64"
    by (simp add: sha_pad_zeros_def mod_Suc)
  ultimately obtain s1 where s1: "pad_loop 65 (update_byte 0x80 s) = Some s1"
    and h1: "sha_holds ((m @ [0x80]) @ replicate (sha_pad_zeros (length m)) 0) s1"
    using pad_loop_holds [of "m @ [0x80]" _ "sha_pad_zeros (length m)" 65] mod_64_less_65
    unfolding sha_pad_zeros_def by blast
  have "sha_holds (sha_pad m) (update (length_bytes ?t) s1)"
    using sha_holds_update [OF h1, of "length_bytes ?t"]
    by (simp add: sha_pad_def length_bytes_eq total_bits_holds [OF assms])
  then have "state (update (length_bytes ?t) s1) = sha_absorb (sha_pad m)"
    and "length (buffer (update (length_bytes ?t) s1)) = 64"
    by (simp_all add: sha_holds_def)
  then show ?thesis
    by (simp add: finish_def s1 Let_def sha256_spec_def digest_bytes_eq length_sha_absorb
        sha_holds_def reset_def)
qed

lemma digest_eq_spec: "digest m = sha256_spec m"
  using finish_holds [OF sha_holds_update [OF sha_holds_new, of m]]
  by (auto simp: digest_def)

lemma digest_string_eq: "digest_string t = digest (bytes_of_string t)"
  by (simp add: digest_string_def digest_def update_string_def)

lemma length_concat_map_const:
  "\<forall>x \<in> set xs. length (f x) = n \<Longrightarrow> length (concat (map f xs)) = n * length xs"
  by (induction xs) auto

lemma length_digest [simp]: "length (digest m) = 32"
  by (simp add: digest_eq_spec sha256_spec_def length_concat_map_const [where n = 4] length_sha_absorb)

lemma length_to_hex [simp]: "length (to_hex d) = 2 * length d"
  by (simp add: to_hex_def length_concat_map_const [where n = 2])

subsection \<open>A test vector\<close>

text \<open>The schedule and the rounds of the block of \<^verbatim>\<open>abc\<close>, eight rounds at a time.\<close>

lemma fold_nth_zip:
  assumes "length xs = n" "length ys = n"
  shows "fold (\<lambda>i. h (xs ! i) (ys ! i)) [0..<n] = fold (\<lambda>(x, y). h x y) (zip xs ys)"
proof -
  have "zip xs ys = map (\<lambda>i. (xs ! i, ys ! i)) [0..<n]" using assms by (intro nth_equalityI) simp_all
  then show ?thesis by (simp add: fold_map comp_def)
qed

definition abc_block :: bytes where
  "abc_block = [0x61, 0x62, 0x63, 0x80] @ replicate 59 0 @ [24]"

definition abc_words :: "u32 list" where
  "abc_words =
    [0x61626380, 0x00000000, 0x00000000, 0x00000000, 0x00000000, 0x00000000, 0x00000000, 0x00000000,
     0x00000000, 0x00000000, 0x00000000, 0x00000000, 0x00000000, 0x00000000, 0x00000000, 0x00000018,
     0x61626380, 0x000f0000, 0x7da86405, 0x600003c6, 0x3e9d7b78, 0x0183fc00, 0x12dcbfdb, 0xe2e2c38e,
     0xc8215c1a, 0xb73679a2, 0xe5bc3909, 0x32663c5b, 0x9d209d67, 0xec8726cb, 0x702138a4, 0xd3b7973b,
     0x93f5997f, 0x3b68ba73, 0xaff4ffc1, 0xf10a5c62, 0x0a8b3996, 0x72af830a, 0x9409e33e, 0x24641522,
     0x9f47bf94, 0xf0a64f5a, 0x3e246a79, 0x27333ba3, 0x0c4763f2, 0x840abf27, 0x7a290d5d, 0x065c43da,
     0xfb3e89cb, 0xcc7617db, 0xb9e66c34, 0xa9993667, 0x84badedd, 0xc21462bc, 0x1487472c, 0xb20f7a99,
     0xef57b9cd, 0xebe6b238, 0x9fe3095e, 0x78bc8d4b, 0xa43fcf15, 0x668b2ff8, 0xeeaba2cc, 0x12b1edeb]"

definition abc_part :: "nat \<Rightarrow> working \<Rightarrow> working" where
  "abc_part n = fold (\<lambda>(k, x). sha_round k x) (take 8 (drop n (zip kK abc_words)))"

lemma abc_schedule: "extend_words (load_words abc_block) = abc_words"
  by code_simp

lemma abc_part1:
  "abc_part 0
     (0x6a09e667, 0xbb67ae85, 0x3c6ef372, 0xa54ff53a, 0x510e527f, 0x9b05688c, 0x1f83d9ab, 0x5be0cd19) =
     (0x85a07b5f, 0xe5030380, 0x2b4209f5, 0x04409a6a, 0x0c657a79, 0x9b27a401, 0x714260ad, 0x43ada245)"
  by code_simp

lemma abc_part2:
  "abc_part 8
     (0x85a07b5f, 0xe5030380, 0x2b4209f5, 0x04409a6a, 0x0c657a79, 0x9b27a401, 0x714260ad, 0x43ada245) =
     (0xb0fa238e, 0xc0645fde, 0xd932eb16, 0x87912990, 0x07590dcd, 0x0b92f20c, 0x745a48de, 0x1e578218)"
  by code_simp

lemma abc_part3:
  "abc_part 16
     (0xb0fa238e, 0xc0645fde, 0xd932eb16, 0x87912990, 0x07590dcd, 0x0b92f20c, 0x745a48de, 0x1e578218) =
     (0xc5d53d8d, 0xa7a3623f, 0xc2606d6d, 0x9dc68b63, 0xaa47c347, 0x49f5114a, 0xe1257970, 0x8ada8930)"
  by code_simp

lemma abc_part4:
  "abc_part 24
     (0xc5d53d8d, 0xa7a3623f, 0xc2606d6d, 0x9dc68b63, 0xaa47c347, 0x49f5114a, 0xe1257970, 0x8ada8930) =
     (0x73b33bf5, 0xea992a22, 0xa0060b30, 0x363482c9, 0xba591112, 0x0109ab3a, 0xade79437, 0x6112a3b7)"
  by code_simp

lemma abc_part5:
  "abc_part 32
     (0x73b33bf5, 0xea992a22, 0xa0060b30, 0x363482c9, 0xba591112, 0x0109ab3a, 0xade79437, 0x6112a3b7) =
     (0x79ea687a, 0x6dc57a8a, 0x34df1604, 0x41a65cb1, 0x1efbc0a0, 0xf0781bc8, 0xa507a53d, 0x0772a26b)"
  by code_simp

lemma abc_part6:
  "abc_part 40
     (0x79ea687a, 0x6dc57a8a, 0x34df1604, 0x41a65cb1, 0x1efbc0a0, 0xf0781bc8, 0xa507a53d, 0x0772a26b) =
     (0x4172328d, 0xa14c14b0, 0x72ab4b91, 0x26628815, 0xfecf0bc6, 0xd57b94a9, 0xb7755da1, 0xa80f11f0)"
  by code_simp

lemma abc_part7:
  "abc_part 48
     (0x4172328d, 0xa14c14b0, 0x72ab4b91, 0x26628815, 0xfecf0bc6, 0xd57b94a9, 0xb7755da1, 0xa80f11f0) =
     (0x38cc9913, 0x3ec45cdb, 0xf5702fdb, 0x101fd28f, 0x54cb266b, 0xe50e1b4f, 0x9f4787c3, 0x529e7d00)"
  by code_simp

lemma abc_part8:
  "abc_part 56
     (0x38cc9913, 0x3ec45cdb, 0xf5702fdb, 0x101fd28f, 0x54cb266b, 0xe50e1b4f, 0x9f4787c3, 0x529e7d00) =
     (0x506e3058, 0xd39a2165, 0x04d24d6c, 0xb85e2ce9, 0x5ef50f24, 0xfb121210, 0x948d25b6, 0x961f4894)"
  by code_simp

lemmas abc_parts = abc_part1 abc_part2 abc_part3 abc_part4 abc_part5 abc_part6 abc_part7 abc_part8

lemma abc_blocks: "sha_blocks (sha_pad (bytes_of_string ''abc'')) = [abc_block]"
  by code_simp

lemma length_kK_words: "length kK = 64" "length abc_words = 64"
  by code_simp+

lemma fold_parts:
  "length xs = 8 * n \<Longrightarrow> fold f xs = fold (\<lambda>i. fold f (take 8 (drop (8 * i) xs))) [0..<n]"
proof (induction n arbitrary: xs)
  case (Suc n)
  have "fold f (take (8 * n) xs) = fold (\<lambda>i. fold f (take 8 (drop (8 * i) (take (8 * n) xs)))) [0..<n]"
    using Suc.prems by (intro Suc.IH) simp
  also have "\<dots> = fold (\<lambda>i. fold f (take 8 (drop (8 * i) xs))) [0..<n]"
    by (intro ext fold_cong refl) (simp add: drop_take)
  finally show ?case
    using Suc.prems fold_append [of f "take (8 * n) xs" "drop (8 * n) xs"] by simp
qed simp

lemma abc_compress:
  "compress initial_state abc_block = [0xba7816bf, 0x8f01cfea, 0x414140de, 0x5dae2223, 0xb00361a3, 0x96177a9c, 0xb410ff61, 0xf20015ad]"
proof -
  have "fold (\<lambda>i. sha_round (kK ! i) (abc_words ! i)) [0..<64] = fold (\<lambda>(k, x). sha_round k x) (zip kK abc_words)"
    by (rule fold_nth_zip) (simp_all add: length_kK_words)
  also have "\<dots> = fold (\<lambda>i. abc_part (8 * i)) [0..<8]"
    unfolding abc_part_def by (rule fold_parts) (simp add: length_kK_words)
  finally have r: "fold (\<lambda>i r. sha_round (kK ! i) (abc_words ! i) r) [0..<64] x = fold (\<lambda>i. abc_part (8 * i)) [0, 1, 2, 3, 4, 5, 6, 7] x" for x
    by (simp add: upt_rec)
  show ?thesis
    unfolding compress_def Let_def abc_schedule r
    by (simp add: initial_state_def abc_parts)
qed

subsection \<open>Properties\<close>

text \<open>
  C17. The incremental hash is the standard's one-shot function: feeding a message to the object in
  any two pieces and finishing gives the padded, folded digest of the whole message, and leaves
  the object as a new one that has absorbed nothing.
\<close>

theorem sha256_incremental:
  "\<exists>s'. finish (update b (update a Sha256_new)) = Some (sha256_spec (a @ b), s') \<and> sha_holds [] s'
    \<and> digest (a @ b) = sha256_spec (a @ b)"
proof -
  have "sha_holds (a @ b) (update b (update a Sha256_new))"
    using sha_holds_update [OF sha_holds_update [OF sha_holds_new, of a], of b] by simp
  from finish_holds [OF this] show ?thesis by (auto simp: digest_eq_spec)
qed

text \<open>
  The published test vector of SHA-256 for the three bytes \<^verbatim>\<open>abc\<close>: constants, schedule, rounds,
  padding and output order are those of the standard.
\<close>

theorem sha256_abc:
  "digest_string ''abc'' =
    be_bytes 32 (0xba7816bf8f01cfea414140de5dae2223b00361a396177a9cb410ff61f20015ad :: 256 word)"
proof -
  have "digest_string ''abc'' = concat (map (be_bytes 4) (compress initial_state abc_block))"
    by (simp only: digest_string_eq digest_eq_spec sha256_spec_def sha_absorb_def abc_blocks fold_simps)
  also have "\<dots> = be_bytes 32 (0xba7816bf8f01cfea414140de5dae2223b00361a396177a9cb410ff61f20015ad :: 256 word)"
    unfolding abc_compress by code_simp
  finally show ?thesis .
qed

end
