(* ===== verification/KC_Descriptors.thy ===== *)
theory KC_Descriptors
  imports KC_Sha256
begin

text \<open>
  The enumerations and plain structures of \<^verbatim>\<open>include/kernelcache/descriptors.hpp\<close> with
  their names from \<^verbatim>\<open>src/descriptors.cpp\<close>. The four enumerations that the key decoder
  casts from a raw byte (\<^verbatim>\<open>Datatype\<close>, \<^verbatim>\<open>TensorLayout\<close>, \<^verbatim>\<open>DeviceVendor\<close>,
  \<^verbatim>\<open>AcceleratorFamily\<close>) have the fixed underlying type \<^verbatim>\<open>uint8_t\<close>: every byte is a value
  of them, so they are bytes here, with one constant per enumerator. The others only take
  their enumerators and are datatypes.
\<close>

subsection \<open>Enumerations over a byte\<close>

type_synonym Datatype = u8
type_synonym TensorLayout = u8
type_synonym DeviceVendor = u8
type_synonym AcceleratorFamily = u8

abbreviation (input) Datatype_F32 :: Datatype where "Datatype_F32 \<equiv> 12"
abbreviation (input) TensorLayout_RowMajor :: TensorLayout where "TensorLayout_RowMajor \<equiv> 1"
abbreviation (input) DeviceVendor_Unknown :: DeviceVendor where "DeviceVendor_Unknown \<equiv> 0"
abbreviation (input) DeviceVendor_NVIDIA :: DeviceVendor where "DeviceVendor_NVIDIA \<equiv> 1"
abbreviation (input) DeviceVendor_CPU :: DeviceVendor where "DeviceVendor_CPU \<equiv> 4"
abbreviation (input) AcceleratorFamily_None :: AcceleratorFamily where "AcceleratorFamily_None \<equiv> 0"
abbreviation (input) AcceleratorFamily_CPU :: AcceleratorFamily where "AcceleratorFamily_CPU \<equiv> 4"

definition datatype_name :: "Datatype \<Rightarrow> string" where
  "datatype_name d =
    (if d = 0 then ''none''
     else if d = 1 then ''bool''
     else if d = 2 then ''i8''
     else if d = 3 then ''u8''
     else if d = 4 then ''i16''
     else if d = 5 then ''u16''
     else if d = 6 then ''i32''
     else if d = 7 then ''u32''
     else if d = 8 then ''i64''
     else if d = 9 then ''u64''
     else if d = 10 then ''f16''
     else if d = 11 then ''bf16''
     else if d = 12 then ''f32''
     else if d = 13 then ''f64''
     else if d = 14 then ''tf32''
     else if d = 15 then ''int4''
     else if d = 16 then ''uint4''
     else ''unknown'')"

definition datatype_size_bytes :: "Datatype \<Rightarrow> u32" where
  "datatype_size_bytes d =
    (if d = 1 then 1
     else if d \<in> {2, 3} then 1
     else if d \<in> {4, 5, 10, 11} then 2
     else if d \<in> {6, 7, 12, 14} then 4
     else if d \<in> {8, 9, 13} then 8
     else if d \<in> {15, 16} then 1
     else if d = 0 then 0
     else 0)"

definition layout_name :: "TensorLayout \<Rightarrow> string" where
  "layout_name d =
    (if d = 0 then ''none''
     else if d = 1 then ''row-major''
     else if d = 2 then ''col-major''
     else if d = 3 then ''nchw''
     else if d = 4 then ''nhwc''
     else if d = 5 then ''ncwh''
     else if d = 6 then ''blocked''
     else if d = 7 then ''strided''
     else if d = 8 then ''sparse''
     else ''unknown'')"

definition vendor_name :: "DeviceVendor \<Rightarrow> string" where
  "vendor_name d =
    (if d = 0 then ''unknown''
     else if d = 1 then ''nvidia''
     else if d = 2 then ''amd''
     else if d = 3 then ''intel''
     else if d = 4 then ''cpu''
     else ''unknown'')"

subsection \<open>Residency tiers\<close>

datatype ResidencyTier =
  RT_None | RT_MetadataOnly | RT_PersistentStorage | RT_HostResident | RT_DeviceResident

primrec residency_tier_name :: "ResidencyTier \<Rightarrow> string" where
  "residency_tier_name RT_None = ''none''"
| "residency_tier_name RT_MetadataOnly = ''metadata-only''"
| "residency_tier_name RT_PersistentStorage = ''persistent''"
| "residency_tier_name RT_HostResident = ''host-resident''"
| "residency_tier_name RT_DeviceResident = ''device-resident''"

primrec tier_value :: "ResidencyTier \<Rightarrow> nat" where
  "tier_value RT_None = 0"
| "tier_value RT_MetadataOnly = 1"
| "tier_value RT_PersistentStorage = 2"
| "tier_value RT_HostResident = 3"
| "tier_value RT_DeviceResident = 4"

lemma tier_value_inject [simp]: "tier_value a = tier_value b \<longleftrightarrow> a = b"
  by (cases a; cases b) simp_all

text \<open>C++ compares scoped enumerations by their values; \<^verbatim>\<open>promote_to_tier\<close> relies on it.\<close>

instantiation ResidencyTier :: linorder
begin

definition less_eq_ResidencyTier :: "ResidencyTier \<Rightarrow> ResidencyTier \<Rightarrow> bool" where
  "a \<le> b \<longleftrightarrow> tier_value a \<le> tier_value b"

definition less_ResidencyTier :: "ResidencyTier \<Rightarrow> ResidencyTier \<Rightarrow> bool" where
  "a < b \<longleftrightarrow> tier_value a < tier_value b"

instance
  by standard (auto simp: less_eq_ResidencyTier_def less_ResidencyTier_def)

end

lemma tier_None_le [simp]: "RT_None \<le> t"
  by (cases t) (simp_all add: less_eq_ResidencyTier_def)

lemma tier_le_Device [simp]: "t \<le> RT_DeviceResident"
  by (cases t) (simp_all add: less_eq_ResidencyTier_def)

subsection \<open>Artifact states\<close>

datatype ArtifactState =
    AS_Discovered | AS_Building | AS_Built | AS_Validating | AS_Valid | AS_Loading |
    AS_ResidentHost | AS_ResidentDevice | AS_Persisted | AS_Leasing | AS_InUse |
    AS_DemotionPending | AS_EvictionPending | AS_EvictedDevice | AS_EvictedHost |
    AS_Invalidated | AS_Corrupt | AS_Failed | AS_Retired | AS_Terminal

primrec artifact_state_name :: "ArtifactState \<Rightarrow> string" where
  "artifact_state_name AS_Discovered = ''discovered''"
| "artifact_state_name AS_Building = ''building''"
| "artifact_state_name AS_Built = ''built''"
| "artifact_state_name AS_Validating = ''validating''"
| "artifact_state_name AS_Valid = ''valid''"
| "artifact_state_name AS_Loading = ''loading''"
| "artifact_state_name AS_ResidentHost = ''resident-host''"
| "artifact_state_name AS_ResidentDevice = ''resident-device''"
| "artifact_state_name AS_Persisted = ''persisted''"
| "artifact_state_name AS_Leasing = ''leasing''"
| "artifact_state_name AS_InUse = ''in-use''"
| "artifact_state_name AS_DemotionPending = ''demotion-pending''"
| "artifact_state_name AS_EvictionPending = ''eviction-pending''"
| "artifact_state_name AS_EvictedDevice = ''evicted-device''"
| "artifact_state_name AS_EvictedHost = ''evicted-host''"
| "artifact_state_name AS_Invalidated = ''invalidated''"
| "artifact_state_name AS_Corrupt = ''corrupt''"
| "artifact_state_name AS_Failed = ''failed''"
| "artifact_state_name AS_Retired = ''retired''"
| "artifact_state_name AS_Terminal = ''terminal''"

primrec artifact_state_value :: "ArtifactState \<Rightarrow> nat" where
  "artifact_state_value AS_Discovered = 0"
| "artifact_state_value AS_Building = 1"
| "artifact_state_value AS_Built = 2"
| "artifact_state_value AS_Validating = 3"
| "artifact_state_value AS_Valid = 4"
| "artifact_state_value AS_Loading = 5"
| "artifact_state_value AS_ResidentHost = 6"
| "artifact_state_value AS_ResidentDevice = 7"
| "artifact_state_value AS_Persisted = 8"
| "artifact_state_value AS_Leasing = 9"
| "artifact_state_value AS_InUse = 10"
| "artifact_state_value AS_DemotionPending = 11"
| "artifact_state_value AS_EvictionPending = 12"
| "artifact_state_value AS_EvictedDevice = 13"
| "artifact_state_value AS_EvictedHost = 14"
| "artifact_state_value AS_Invalidated = 15"
| "artifact_state_value AS_Corrupt = 16"
| "artifact_state_value AS_Failed = 17"
| "artifact_state_value AS_Retired = 18"
| "artifact_state_value AS_Terminal = 19"

lemma artifact_state_value_less: "artifact_state_value s < 20"
  by (cases s) simp_all

subsection \<open>Structures\<close>

record RuntimeBackend =
  rb_name :: string
  rb_version_major :: u32
  rb_version_minor :: u32

definition RuntimeBackend_new :: RuntimeBackend where
  "RuntimeBackend_new = \<lparr>rb_name = [], rb_version_major = 0, rb_version_minor = 0\<rparr>"

record ComputeCapability =
  cc_major :: u8
  cc_minor :: u8

definition ComputeCapability_new :: ComputeCapability where
  "ComputeCapability_new = \<lparr>cc_major = 0, cc_minor = 0\<rparr>"

record DeviceArchitecture =
  da_vendor :: DeviceVendor
  da_family :: AcceleratorFamily
  da_arch_name :: string
  da_compute_capability :: ComputeCapability

definition DeviceArchitecture_new :: DeviceArchitecture where
  "DeviceArchitecture_new = \<lparr>da_vendor = DeviceVendor_Unknown, da_family = AcceleratorFamily_None,
     da_arch_name = [], da_compute_capability = ComputeCapability_new\<rparr>"

record CompilerIdentity =
  ci_name :: string
  ci_version_major :: u32
  ci_version_minor :: u32
  ci_version_patch :: u32
  ci_backend :: string

definition CompilerIdentity_new :: CompilerIdentity where
  "CompilerIdentity_new = \<lparr>ci_name = [], ci_version_major = 0, ci_version_minor = 0,
     ci_version_patch = 0, ci_backend = []\<rparr>"

definition kSymbolicDim :: i64 where
  "kSymbolicDim = - 1"

record ShapeDescriptor =
  dims :: "i64 list"

definition shape_rank :: "ShapeDescriptor \<Rightarrow> nat" where
  "shape_rank s = length (dims s)"

definition is_static :: "ShapeDescriptor \<Rightarrow> bool" where
  "is_static s \<longleftrightarrow> list_all (\<lambda>d. \<not> sint d < 0) (dims s)"

definition static_size :: "ShapeDescriptor \<Rightarrow> u64" where
  "static_size s = (if \<not> is_static s then 0 else fold (\<lambda>d n. n * d) (dims s) 1)"

record LaunchDescriptor =
  ld_grid :: "u32 \<times> u32 \<times> u32"
  ld_block :: "u32 \<times> u32 \<times> u32"
  ld_shared_mem_bytes :: u32
  ld_stream_id :: u32

definition LaunchDescriptor_new :: LaunchDescriptor where
  "LaunchDescriptor_new = \<lparr>ld_grid = (1, 1, 1), ld_block = (0, 1, 1), ld_shared_mem_bytes = 0, ld_stream_id = 0\<rparr>"

record DeviceDescriptor =
  dd_id :: DeviceId
  dd_name :: string
  dd_vendor :: DeviceVendor
  dd_family :: AcceleratorFamily
  dd_arch_name :: string
  dd_capability :: ComputeCapability
  dd_memory_bytes :: u64

definition DeviceDescriptor_new :: DeviceDescriptor where
  "DeviceDescriptor_new = \<lparr>dd_id = default_id, dd_name = [], dd_vendor = DeviceVendor_Unknown,
     dd_family = AcceleratorFamily_None, dd_arch_name = [], dd_capability = ComputeCapability_new,
     dd_memory_bytes = 0\<rparr>"

record KernelABI =
  ka_name :: string
  ka_version :: u64

definition KernelABI_new :: KernelABI where
  "KernelABI_new = \<lparr>ka_name = [], ka_version = 1\<rparr>"

record QuantizationMode =
  qm_kind :: string
  qm_bits :: u32
  qm_symmetric :: bool

definition QuantizationMode_new :: QuantizationMode where
  "QuantizationMode_new = \<lparr>qm_kind = [], qm_bits = 0, qm_symmetric = True\<rparr>"

type_synonym CodegenFlags = "string list"

type_synonym SpecializationParams = "(string \<times> string) list"

record ProvenanceDescriptor =
  producer :: string
  build_command :: string
  source_namespace :: string
  source_id :: string
  source_text_hash :: string
  pv_tenant :: string
  built_at_ns :: u64

definition ProvenanceDescriptor_new :: ProvenanceDescriptor where
  "ProvenanceDescriptor_new = \<lparr>producer = [], build_command = [], source_namespace = [],
     source_id = [], source_text_hash = [], pv_tenant = [], built_at_ns = 0\<rparr>"

record ArtifactSizes =
  artifact_bytes :: u64
  host_bytes :: u64
  device_bytes :: u64
  storage_bytes :: u64
  device_bytes_estimated :: bool

definition ArtifactSizes_new :: ArtifactSizes where
  "ArtifactSizes_new = \<lparr>artifact_bytes = 0, host_bytes = 0, device_bytes = 0, storage_bytes = 0,
     device_bytes_estimated = True\<rparr>"

record CompilationDescriptor =
  cd_compiler :: CompilerIdentity
  cd_target :: DeviceArchitecture
  cd_codegen_flags :: CodegenFlags
  cd_compilation_mode :: string

definition CompilationDescriptor_new :: CompilationDescriptor where
  "CompilationDescriptor_new = \<lparr>cd_compiler = CompilerIdentity_new, cd_target = DeviceArchitecture_new,
     cd_codegen_flags = [], cd_compilation_mode = []\<rparr>"

record ValidationDescriptor =
  integrity_hash_checked :: bool
  format_checked :: bool
  arch_checked :: bool
  abi_checked :: bool
  metadata_consistent :: bool
  loadable :: bool
  execution_smoke :: bool
  reference_compare :: bool
  backend_reason :: string

definition ValidationDescriptor_new :: ValidationDescriptor where
  "ValidationDescriptor_new = \<lparr>integrity_hash_checked = False, format_checked = False,
     arch_checked = False, abi_checked = False, metadata_consistent = False, loadable = False,
     execution_smoke = False, reference_compare = False, backend_reason = []\<rparr>"

definition all_passed :: "ValidationDescriptor \<Rightarrow> bool" where
  "all_passed v \<longleftrightarrow> integrity_hash_checked v \<and> format_checked v \<and> arch_checked v \<and>
     abi_checked v \<and> metadata_consistent v \<and> loadable v \<and> execution_smoke v \<and> reference_compare v"

record ResidencyDescriptor =
  rd_tier :: ResidencyTier
  rd_last_access_ns :: u64
  rd_pin_count :: u64

definition ResidencyDescriptor_new :: ResidencyDescriptor where
  "ResidencyDescriptor_new = \<lparr>rd_tier = RT_None, rd_last_access_ns = 0, rd_pin_count = 0\<rparr>"

lemma not_all_passed_new [simp]: "\<not> all_passed ValidationDescriptor_new"
  by (simp add: all_passed_def ValidationDescriptor_new_def)

text \<open>The number of elements of a static shape is their product, as long as that fits.\<close>

lemma fold_times: "fold (\<lambda>d n. n * d) ds (a :: u64) = a * prod_list ds"
  by (induction ds arbitrary: a) (simp_all add: mult.assoc)

lemma prod_list_word: "prod_list ds = (word_of_nat (prod_list (map unat ds)) :: u64)"
  by (induction ds) simp_all

lemma static_size_exact:
  assumes "is_static s" and "prod_list (map unat (dims s)) < 2 ^ 64"
  shows "unat (static_size s) = prod_list (map unat (dims s))"
  using assms by (simp add: static_size_def fold_times prod_list_word unat_of_nat)

end
