(* ===== verification/KC_Canonical.thy ===== *)
theory KC_Canonical
  imports KC_Descriptors
begin

text \<open>
  The canonical encoder (\<^verbatim>\<open>src/canonical.cpp\<close>) and the cursor that reads it back
  (\<^verbatim>\<open>Reader\<close> in \<^verbatim>\<open>src/key.cpp\<close>, repeated in \<^verbatim>\<open>src/distributed.cpp\<close>).
  A writer is its buffer. A reader \<^verbatim>\<open>{p, n, i}\<close> is its unread suffix
  \<^verbatim>\<open>p[i], \<dots>, p[n-1]\<close>: every operation of it looks only there. Throwing
  \<^verbatim>\<open>CursorDead\<close> is the value \<^const>\<open>None\<close>.
\<close>

subsection \<open>CanonicalWriter\<close>

type_synonym CanonicalWriter = bytes

definition push_be_u64 :: "bytes \<Rightarrow> u64 \<Rightarrow> bytes" where
  "push_be_u64 v x = v @
     [ucast (drop_bit 56 x AND 0xff), ucast (drop_bit 48 x AND 0xff),
      ucast (drop_bit 40 x AND 0xff), ucast (drop_bit 32 x AND 0xff),
      ucast (drop_bit 24 x AND 0xff), ucast (drop_bit 16 x AND 0xff),
      ucast (drop_bit 8 x AND 0xff), ucast (x AND 0xff)]"

definition cw_tag :: "CanonicalWriter \<Rightarrow> u8 \<Rightarrow> CanonicalWriter" where
  "cw_tag w t = w @ [t]"

definition cw_u8 :: "CanonicalWriter \<Rightarrow> u8 \<Rightarrow> CanonicalWriter" where
  "cw_u8 w v = w @ [v]"

definition cw_u16 :: "CanonicalWriter \<Rightarrow> u16 \<Rightarrow> CanonicalWriter" where
  "cw_u16 w v = w @ [ucast (drop_bit 8 v AND 0xff), ucast (v AND 0xff)]"

definition cw_u32 :: "CanonicalWriter \<Rightarrow> u32 \<Rightarrow> CanonicalWriter" where
  "cw_u32 w v = fold (\<lambda>i buf. buf @ [ucast (drop_bit (i * 8) v AND 0xff)]) [3, 2, 1, 0] w"

definition cw_u64 :: "CanonicalWriter \<Rightarrow> u64 \<Rightarrow> CanonicalWriter" where
  "cw_u64 w v = push_be_u64 w v"

definition cw_i64 :: "CanonicalWriter \<Rightarrow> i64 \<Rightarrow> CanonicalWriter" where
  "cw_i64 w v = cw_u64 w v"

definition cw_boolean :: "CanonicalWriter \<Rightarrow> bool \<Rightarrow> CanonicalWriter" where
  "cw_boolean w v = w @ [if v then 1 else 0]"

definition cw_str :: "CanonicalWriter \<Rightarrow> string \<Rightarrow> CanonicalWriter" where
  "cw_str w s = cw_u64 w (word_of_nat (length s)) @ bytes_of_string s"

definition cw_bytes :: "CanonicalWriter \<Rightarrow> bytes \<Rightarrow> CanonicalWriter" where
  "cw_bytes w b = cw_u64 w (word_of_nat (length b)) @ b"

lemma push_be_u64_eq [enc_simps]: "push_be_u64 w v = w @ be_bytes 8 v"
  by (simp add: push_be_u64_def be_bytes_def upt_rec)

lemma cw_tag_eq [enc_simps]: "cw_tag w t = w @ [t]"
  by (simp add: cw_tag_def)

lemma cw_u8_eq [enc_simps]: "cw_u8 w v = w @ [v]"
  by (simp add: cw_u8_def)

lemma cw_u16_eq [enc_simps]: "cw_u16 w v = w @ be_bytes 2 v"
  by (simp add: cw_u16_def be_bytes_def upt_rec)

lemma cw_u32_eq [enc_simps]: "cw_u32 w v = w @ be_bytes 4 v"
  by (simp add: cw_u32_def be_bytes_def upt_rec)

lemma cw_u64_eq [enc_simps]: "cw_u64 w v = w @ be_bytes 8 v"
  by (simp add: cw_u64_def push_be_u64_eq)

lemma cw_i64_eq [enc_simps]: "cw_i64 w v = w @ be_bytes 8 v"
  by (simp add: cw_i64_def cw_u64_eq)

lemma cw_boolean_eq [enc_simps]: "cw_boolean w v = w @ [of_bool v]"
  by (simp add: cw_boolean_def)

text \<open>What a length-prefixed field looks like.\<close>

definition enc_blob :: "bytes \<Rightarrow> bytes" where
  "enc_blob b = be_bytes 8 (word_of_nat (length b) :: u64) @ b"

definition enc_str :: "string \<Rightarrow> bytes" where
  "enc_str s = enc_blob (bytes_of_string s)"

lemma cw_str_eq [enc_simps]: "cw_str w s = w @ enc_str s"
  by (simp add: cw_str_def cw_u64_eq enc_str_def enc_blob_def)

lemma cw_bytes_eq [enc_simps]: "cw_bytes w b = w @ enc_blob b"
  by (simp add: cw_bytes_def cw_u64_eq enc_blob_def)

lemma fold_append_eq: "(\<And>w x. f w x = w @ g x) \<Longrightarrow> fold (\<lambda>x w. f w x) xs w = w @ concat (map g xs)"
  by (induction xs arbitrary: w) simp_all

subsection \<open>Reader\<close>

type_synonym Reader = bytes

definition r_u8 :: "Reader \<Rightarrow> (u8 \<times> Reader) option" where
  "r_u8 r = (case r of [] \<Rightarrow> None | b # r' \<Rightarrow> Some (b, r'))"

text \<open>The loops of \<^verbatim>\<open>u16\<close>, \<^verbatim>\<open>u32\<close> and \<^verbatim>\<open>u64\<close>: \<^verbatim>\<open>v = (v << 8) | u8()\<close>, repeated.\<close>

fun r_acc :: "nat \<Rightarrow> 'a::len word \<Rightarrow> Reader \<Rightarrow> ('a word \<times> Reader) option" where
  "r_acc 0 v r = Some (v, r)"
| "r_acc (Suc n) v r = (case r_u8 r of None \<Rightarrow> None | Some (b, r') \<Rightarrow> r_acc n (push_bit 8 v OR ucast b) r')"

definition r_u16 :: "Reader \<Rightarrow> (u16 \<times> Reader) option" where
  "r_u16 r = r_acc 2 0 r"

definition r_u32 :: "Reader \<Rightarrow> (u32 \<times> Reader) option" where
  "r_u32 r = r_acc 4 0 r"

definition r_u64 :: "Reader \<Rightarrow> (u64 \<times> Reader) option" where
  "r_u64 r = r_acc 8 0 r"

definition r_i64 :: "Reader \<Rightarrow> (i64 \<times> Reader) option" where
  "r_i64 r = r_u64 r"

definition r_boolean :: "Reader \<Rightarrow> (bool \<times> Reader) option" where
  "r_boolean r = do { (b, r) \<leftarrow> r_u8 r; Some (b \<noteq> 0, r) }"

definition r_bytes :: "Reader \<Rightarrow> (bytes \<times> Reader) option" where
  "r_bytes r = do {
     (len, r) \<leftarrow> r_u64 r;
     if unat len > length r then None
     else Some (take (unat len) r, drop (unat len) r)
   }"

definition r_str :: "Reader \<Rightarrow> (string \<times> Reader) option" where
  "r_str r = do {
     (len, r) \<leftarrow> r_u64 r;
     if unat len > length r then None
     else Some (string_of_bytes (take (unat len) r), drop (unat len) r)
   }"

text \<open>A counted loop \<^verbatim>\<open>for (j = 0; j < c; ++j) v.push_back(r.x())\<close>.\<close>

fun r_many :: "nat \<Rightarrow> (Reader \<Rightarrow> ('a \<times> Reader) option) \<Rightarrow> Reader \<Rightarrow> ('a list \<times> Reader) option" where
  "r_many 0 f r = Some ([], r)"
| "r_many (Suc n) f r = do { (x, r) \<leftarrow> f r; (xs, r) \<leftarrow> r_many n f r; Some (x # xs, r) }"

subsection \<open>Reading back what was written\<close>

lemma r_u8_Cons [dec_simps]: "r_u8 (b # r) = Some (b, r)"
  by (simp add: r_u8_def)

lemma r_acc_append: "length bs = n \<Longrightarrow> r_acc n v (bs @ r) = Some (be_word_from v bs, r)"
  by (induction n v "bs @ r" arbitrary: bs rule: r_acc.induct)
    (auto simp: r_u8_def be_word_from_Cons length_Suc_conv)

lemma r_u16_append [dec_simps]: "r_u16 (be_bytes 2 v @ r) = Some (v, r)"
  by (simp add: r_u16_def r_acc_append)

lemma r_u32_append [dec_simps]: "r_u32 (be_bytes 4 v @ r) = Some (v, r)"
  by (simp add: r_u32_def r_acc_append)

lemma r_u64_append [dec_simps]: "r_u64 (be_bytes 8 v @ r) = Some (v, r)"
  by (simp add: r_u64_def r_acc_append)

lemma r_i64_append [dec_simps]: "r_i64 (be_bytes 8 v @ r) = Some (v, r)"
  by (simp add: r_i64_def r_u64_append)

lemma r_boolean_Cons [dec_simps]: "r_boolean (b # r) = Some (b \<noteq> 0, r)"
  by (simp add: r_boolean_def r_u8_Cons)

text \<open>A length is representable when it is below \<open>2 ^ 64\<close>, the range of \<^verbatim>\<open>std::uint64_t\<close>.\<close>

lemma r_bytes_append [dec_simps]: "length b < 2 ^ 64 \<Longrightarrow> r_bytes (enc_blob b @ r) = Some (b, r)"
  by (simp add: r_bytes_def enc_blob_def r_u64_append unat_of_nat)

lemma r_str_append [dec_simps]: "length s < 2 ^ 64 \<Longrightarrow> r_str (enc_str s @ r) = Some (s, r)"
  by (simp add: r_str_def enc_str_def enc_blob_def r_u64_append unat_of_nat)

lemma r_many_append:
  assumes "\<And>x r. x \<in> set xs \<Longrightarrow> f (g x @ r) = Some (x, r)"
  shows "r_many (length xs) f (concat (map g xs) @ r) = Some (xs, r)"
  using assms by (induction xs) simp_all

subsection \<open>A reader never goes back\<close>

lemma r_u8_length: "r_u8 r = Some (b, r') \<Longrightarrow> length r = Suc (length r')"
  by (auto simp: r_u8_def split: list.splits)

lemma r_acc_length: "r_acc n v r = Some (x, r') \<Longrightarrow> length r = n + length r'"
  by (induction n v r rule: r_acc.induct) (auto dest: r_u8_length split: option.splits)

lemma r_u8_le: "r_u8 r = Some (b, r') \<Longrightarrow> length r' \<le> length r"
  by (simp add: r_u8_length)

lemma r_u32_le: "r_u32 r = Some (b, r') \<Longrightarrow> length r' \<le> length r"
  by (auto simp: r_u32_def dest: r_acc_length)

lemma r_u64_le: "r_u64 r = Some (b, r') \<Longrightarrow> length r' \<le> length r"
  by (auto simp: r_u64_def dest: r_acc_length)

lemma r_i64_le: "r_i64 r = Some (b, r') \<Longrightarrow> length r' \<le> length r"
  by (simp add: r_i64_def r_u64_le)

lemma r_boolean_le: "r_boolean r = Some (b, r') \<Longrightarrow> length r' \<le> length r"
  by (auto simp: r_boolean_def dest: r_u8_le split: bind_splits)

lemma r_str_le: "r_str r = Some (b, r') \<Longrightarrow> length r' \<le> length r"
  by (auto simp: r_str_def dest!: r_u64_le split: bind_splits if_splits)

lemma r_many_le:
  assumes "\<And>r x r'. f r = Some (x, r') \<Longrightarrow> length r' \<le> length r"
  shows "r_many n f r = Some (xs, r') \<Longrightarrow> length r' \<le> length r"
proof (induction n arbitrary: r xs)
  case 0
  then show ?case by simp
next
  case (Suc n)
  then obtain x r1 xs' where "f r = Some (x, r1)" "r_many n f r1 = Some (xs', r')"
    by (auto split: bind_splits)
  with assms Suc.IH show ?case by (meson le_trans)
qed

lemmas reader_le = r_u8_le r_u32_le r_u64_le r_i64_le r_boolean_le r_str_le

end
