(* ===== verification/KC_Key.thy ===== *)
theory KC_Key
  imports KC_Canonical "HOL-Library.List_Lexorder" "HOL-Library.Char_ord" "HOL-Library.Multiset"
begin

text \<open>
  The canonical compatibility key (\<^verbatim>\<open>include/kernelcache/key.hpp\<close>, \<^verbatim>\<open>src/key.cpp\<close>):
  its typed fields, the finalized state derived from them, the canonical encoding and its
  decoder. The main result is that the decoder inverts the encoder, so the encoding loses no
  field of a canonicalised key.
\<close>

subsection \<open>The key\<close>

record KeyFields =
  operation :: string
  artifact_format :: string
  vendor :: DeviceVendor
  family :: AcceleratorFamily
  arch :: string
  capability :: ComputeCapability
  device_id :: DeviceId
  runtime_backend :: string
  runtime_version_major :: u32
  runtime_version_minor :: u32
  compiler_name :: string
  compiler_version_major :: u32
  compiler_version_minor :: u32
  compiler_version_patch :: u32
  compiler_backend :: string
  abi_name :: string
  abi_version :: u64
  kernel_interface_signature :: string
  scalar_param_types :: "string list"
  dtypes :: "Datatype list"
  layouts :: "TensorLayout list"
  rank :: u32
  shape :: "i64 list"
  symbolic_shape_constraints :: "string list"
  alignment_bytes :: u32
  shared_mem_bytes :: u32
  launch_abi :: string
  block_x :: u32
  block_y :: u32
  block_z :: u32
  codegen_flags :: "string list"
  specialization :: "(string \<times> string) list"
  model_revision :: string
  operator_revision :: string
  quantization_kind :: string
  quantization_bits :: u32
  quantization_symmetric :: bool

text \<open>The private members: what \<^verbatim>\<open>finalize()\<close> derives.\<close>

record KernelCompatibilityKey = KeyFields +
  k_canonical :: bytes
  k_digest :: bytes
  k_digest_hex :: string
  k_canonical_text :: string
  k_finalized :: bool

definition KernelCompatibilityKey_new :: KernelCompatibilityKey where
  "KernelCompatibilityKey_new = \<lparr>operation = [], artifact_format = [], vendor = 0, family = 0, arch = [], capability =
     ComputeCapability_new, device_id = default_id, runtime_backend = [], runtime_version_major
     = 0, runtime_version_minor = 0, compiler_name = [], compiler_version_major = 0,
     compiler_version_minor = 0, compiler_version_patch = 0, compiler_backend = [], abi_name =
     [], abi_version = 1, kernel_interface_signature = [], scalar_param_types = [], dtypes =
     [], layouts = [], rank = 0, shape = [], symbolic_shape_constraints = [], alignment_bytes =
     0, shared_mem_bytes = 0, launch_abi = [], block_x = 0, block_y = 0, block_z = 0,
     codegen_flags = [], specialization = [], model_revision = [], operator_revision = [],
     quantization_kind = [], quantization_bits = 0, quantization_symmetric = True,
     k_canonical = [], k_digest = replicate 32 0, k_digest_hex = [], k_canonical_text = [],
     k_finalized = False\<rparr>"

definition kKeyFormatVersion :: u8 where
  "kKeyFormatVersion = 1"

text \<open>
  \<^verbatim>\<open>std::sort\<close> on strings, and on pairs by their first component. A C++ sort need not be
  stable, so the result on pairs is determined by the input only when the first components
  are distinct; \<^verbatim>\<open>key_wf\<close> below asks for that.
\<close>

definition sort_strings :: "string list \<Rightarrow> string list" where
  "sort_strings v = sort v"

definition sort_pairs :: "(string \<times> string) list \<Rightarrow> (string \<times> string) list" where
  "sort_pairs v = sort_key fst v"

fun join :: "string list \<Rightarrow> string \<Rightarrow> string" where
  "join [] sep = []"
| "join [s] sep = s"
| "join (s # t # ss) sep = s @ sep @ join (t # ss) sep"

text \<open>The writer statements of \<^verbatim>\<open>finalize()\<close>, in order.\<close>

definition canonical_encoding :: "KernelCompatibilityKey \<Rightarrow> bytes" where
  "canonical_encoding k =
     (let w = [];
          w = cw_u8 (cw_tag w 0x01) kKeyFormatVersion;
          w = cw_str (cw_tag w 0x02) (operation k);
          w = cw_str (cw_tag w 0x03) (artifact_format k);
          w = cw_u8 (cw_tag w 0x04) (vendor k);
          w = cw_u8 (cw_tag w 0x05) (family k);
          w = cw_str (cw_tag w 0x06) (arch k);
          w = cw_u8 (cw_u8 (cw_tag w 0x07) (cc_major (capability k))) (cc_minor (capability k));
          w = cw_u64 (cw_u64 (cw_tag w 0x08) (id_hi (device_id k))) (id_lo (device_id k));
          w = cw_u32 (cw_u32 (cw_str (cw_tag w 0x09) (runtime_backend k)) (runtime_version_major k)) (runtime_version_minor k);
          w = cw_str (cw_u32 (cw_u32 (cw_u32 (cw_str (cw_tag w 0x0a) (compiler_name k)) (compiler_version_major k)) (compiler_version_minor k)) (compiler_version_patch k)) (compiler_backend k);
          w = cw_u64 (cw_str (cw_tag w 0x0b) (abi_name k)) (abi_version k);
          w = cw_str (cw_tag w 0x0c) (kernel_interface_signature k);
          w = cw_u32 (cw_tag w 0x0d) (word_of_nat (length (scalar_param_types k)));
          w = fold (\<lambda>s w. cw_str w s) (scalar_param_types k) w;
          w = cw_u32 (cw_tag w 0x0e) (word_of_nat (length (dtypes k)));
          w = fold (\<lambda>s w. cw_u8 w s) (dtypes k) w;
          w = cw_u32 (cw_tag w 0x0f) (word_of_nat (length (layouts k)));
          w = fold (\<lambda>s w. cw_u8 w s) (layouts k) w;
          w = cw_u32 (cw_tag w 0x10) (rank k);
          w = cw_u32 (cw_tag w 0x11) (word_of_nat (length (shape k)));
          w = fold (\<lambda>s w. cw_i64 w s) (shape k) w;
          w = cw_u32 (cw_tag w 0x12) (word_of_nat (length (symbolic_shape_constraints k)));
          w = fold (\<lambda>s w. cw_str w s) (symbolic_shape_constraints k) w;
          w = cw_u32 (cw_tag w 0x13) (alignment_bytes k);
          w = cw_u32 (cw_tag w 0x14) (shared_mem_bytes k);
          w = cw_str (cw_tag w 0x15) (launch_abi k);
          w = cw_u32 (cw_u32 (cw_u32 (cw_tag w 0x16) (block_x k)) (block_y k)) (block_z k);
          w = cw_u32 (cw_tag w 0x17) (word_of_nat (length (codegen_flags k)));
          w = fold (\<lambda>s w. cw_str w s) (codegen_flags k) w;
          w = cw_u32 (cw_tag w 0x18) (word_of_nat (length (specialization k)));
          w = fold (\<lambda>p w. cw_str (cw_str w (fst p)) (snd p)) (specialization k) w;
          w = cw_str (cw_tag w 0x19) (model_revision k);
          w = cw_str (cw_tag w 0x1a) (operator_revision k);
          w = cw_boolean (cw_u32 (cw_str (cw_tag w 0x1b) (quantization_kind k)) (quantization_bits k)) (quantization_symmetric k)
      in w)"

definition or_none :: "string \<Rightarrow> string" where
  "or_none s = (if s = [] then ''<none>'' else s)"

text \<open>The text that \<^verbatim>\<open>finalize()\<close> prints for reports.\<close>

definition key_text :: "KernelCompatibilityKey \<Rightarrow> string \<Rightarrow> string" where
  "key_text k hex =
     ''op='' @ or_none (operation k) @ '' fmt='' @ or_none (artifact_format k)
     @ '' vendor='' @ vendor_name (vendor k) @ '' family='' @ show_word (family k)
     @ '' arch='' @ or_none (arch k)
     @ '' cc='' @ show_word (cc_major (capability k)) @ ''.'' @ show_word (cc_minor (capability k))
     @ '' rt='' @ runtime_backend k
     @ '' comp='' @ compiler_name k @ '':'' @ show_word (compiler_version_major k) @ ''.''
     @ show_word (compiler_version_minor k) @ ''.'' @ show_word (compiler_version_patch k)
     @ '' abi='' @ abi_name k @ ''@'' @ show_word (abi_version k)
     @ '' sig='' @ kernel_interface_signature k
     @ '' dt=['' @ join (map datatype_name (dtypes k)) '',''
     @ ''] rank='' @ show_word (rank k) @ '' shape=['' @ join (map show_i64 (shape k)) '',''
     @ ''] align='' @ show_word (alignment_bytes k) @ '' smem='' @ show_word (shared_mem_bytes k)
     @ '' block='' @ show_word (block_x k) @ ''x'' @ show_word (block_y k) @ ''x'' @ show_word (block_z k)
     @ '' sha256='' @ hex"

text \<open>The structural checks of \<^verbatim>\<open>finalize()\<close>.\<close>

definition structure_ok :: "KernelCompatibilityKey \<Rightarrow> bool" where
  "structure_ok k \<longleftrightarrow>
     \<not> length (dtypes k) \<noteq> length (layouts k) \<and>
     \<not> (layouts k \<noteq> [] \<and> length (layouts k) \<noteq> unat (rank k) \<and> rank k \<noteq> 0) \<and>
     \<not> (shape k \<noteq> [] \<and> length (shape k) \<noteq> unat (rank k) \<and> rank k \<noteq> 0) \<and>
     \<not> (scalar_param_types k \<noteq> [] \<and> length (scalar_param_types k) \<noteq> unat (rank k) \<and> rank k \<noteq> 0)"

definition canonicalize :: "KernelCompatibilityKey \<Rightarrow> KernelCompatibilityKey" where
  "canonicalize k = k\<lparr>codegen_flags := sort_strings (codegen_flags k),
     specialization := sort_pairs (specialization k)\<rparr>"

definition finalize :: "KernelCompatibilityKey \<Rightarrow> bool \<times> KernelCompatibilityKey" where
  "finalize k =
     (let k = canonicalize (k\<lparr>k_finalized := False\<rparr>)
      in if \<not> structure_ok k then (False, k)
         else let can = canonical_encoding k;
                  dig = digest can;
                  hex = to_hex dig
              in (True, k\<lparr>k_canonical := can, k_digest := dig, k_digest_hex := hex,
                   k_canonical_text := key_text k hex, k_finalized := True\<rparr>))"

abbreviation finalized :: "KernelCompatibilityKey \<Rightarrow> KernelCompatibilityKey" where
  "finalized k \<equiv> snd (finalize k)"

definition ensure_finalized :: "KernelCompatibilityKey \<Rightarrow> KernelCompatibilityKey" where
  "ensure_finalized k = (if k_finalized k then k else finalized k)"

definition validate :: "KernelCompatibilityKey \<Rightarrow> unit result \<times> KernelCompatibilityKey" where
  "validate k =
     (if rank k \<noteq> 0 \<and> layouts k \<noteq> [] \<and> length (layouts k) \<noteq> unat (rank k)
        then (fail EC_InvalidArgument ''layouts.size() != rank'', k)
      else if rank k \<noteq> 0 \<and> shape k \<noteq> [] \<and> length (shape k) \<noteq> unat (rank k)
        then (fail EC_InvalidArgument ''shape.size() != rank'', k)
      else if rank k \<noteq> 0 \<and> scalar_param_types k \<noteq> [] \<and> length (scalar_param_types k) \<noteq> unat (rank k)
        then (fail EC_InvalidArgument ''scalar_param_types.size() != rank'', k)
      else if \<not> k_finalized k
        then (case finalize k of
                (True, k') \<Rightarrow> (ok, k')
              | (False, k') \<Rightarrow> (fail EC_InvalidArgument ''finalize() rejected inconsistent key'', k'))
      else (ok, k))"

text \<open>\<^verbatim>\<open>operator==\<close> finalizes both sides if they are not, then compares digests.\<close>

definition key_eq :: "KernelCompatibilityKey \<Rightarrow> KernelCompatibilityKey \<Rightarrow> bool" where
  "key_eq a b \<longleftrightarrow> k_digest (ensure_finalized a) = k_digest (ensure_finalized b)"

definition key_hash :: "KernelCompatibilityKey \<Rightarrow> u64" where
  "key_hash k = fold (\<lambda>b h. ((h XOR ucast b) * 0x100000001b3) AND (- 1))
     (k_digest (ensure_finalized k)) 0xcbf29ce484222325"

definition key_summary :: "KernelCompatibilityKey \<Rightarrow> string" where
  "key_summary k = k_canonical_text k"

subsection \<open>The decoder\<close>

definition r_pair :: "Reader \<Rightarrow> ((string \<times> string) \<times> Reader) option" where
  "r_pair r = do { (a, r) \<leftarrow> r_str r; (b, r) \<leftarrow> r_str r; Some ((a, b), r) }"

text \<open>
  One iteration of the tag switch: \<^const>\<open>Inl\<close> is the early return on an unknown tag,
  \<^term>\<open>Inr None\<close> the exception \<^verbatim>\<open>CursorDead\<close>.
\<close>

definition read_field ::
  "u8 \<Rightarrow> KernelCompatibilityKey \<Rightarrow> Reader \<Rightarrow> (KernelCompatibilityKey \<times> Reader) option result" where
  "read_field tag k r =
     (if tag = 0x01 then Inr (do { (_, r) \<leftarrow> r_u8 r; Some (k, r) })
      else if tag = 0x02 then Inr (do { (v0, r) \<leftarrow> r_str r; Some (k\<lparr>operation := v0\<rparr>, r) })
      else if tag = 0x03 then Inr (do { (v0, r) \<leftarrow> r_str r; Some (k\<lparr>artifact_format := v0\<rparr>, r) })
      else if tag = 0x04 then Inr (do { (v0, r) \<leftarrow> r_u8 r; Some (k\<lparr>vendor := v0\<rparr>, r) })
      else if tag = 0x05 then Inr (do { (v0, r) \<leftarrow> r_u8 r; Some (k\<lparr>family := v0\<rparr>, r) })
      else if tag = 0x06 then Inr (do { (v0, r) \<leftarrow> r_str r; Some (k\<lparr>arch := v0\<rparr>, r) })
      else if tag = 0x07 then Inr (do { (a, r) \<leftarrow> r_u8 r; (b, r) \<leftarrow> r_u8 r;
         Some (k\<lparr>capability := \<lparr>cc_major = a, cc_minor = b\<rparr>\<rparr>, r) })
      else if tag = 0x08 then Inr (do { (d0, r) \<leftarrow> r_u64 r; (d1, r) \<leftarrow> r_u64 r; Some (k\<lparr>device_id := mk_id d0 d1\<rparr>, r) })
      else if tag = 0x09 then Inr (do { (v0, r) \<leftarrow> r_str r; (v1, r) \<leftarrow> r_u32 r; (v2, r) \<leftarrow> r_u32 r; Some (k\<lparr>runtime_backend := v0, runtime_version_major := v1, runtime_version_minor := v2\<rparr>, r) })
      else if tag = 0x0a then Inr (do { (v0, r) \<leftarrow> r_str r; (v1, r) \<leftarrow> r_u32 r; (v2, r) \<leftarrow> r_u32 r; (v3, r) \<leftarrow> r_u32 r; (v4, r) \<leftarrow> r_str r; Some (k\<lparr>compiler_name := v0, compiler_version_major := v1, compiler_version_minor := v2, compiler_version_patch := v3, compiler_backend := v4\<rparr>, r) })
      else if tag = 0x0b then Inr (do { (v0, r) \<leftarrow> r_str r; (v1, r) \<leftarrow> r_u64 r; Some (k\<lparr>abi_name := v0, abi_version := v1\<rparr>, r) })
      else if tag = 0x0c then Inr (do { (v0, r) \<leftarrow> r_str r; Some (k\<lparr>kernel_interface_signature := v0\<rparr>, r) })
      else if tag = 0x0d then Inr (do { (c, r) \<leftarrow> r_u32 r; (vs, r) \<leftarrow> r_many (unat c) r_str r; Some (k\<lparr>scalar_param_types := vs\<rparr>, r) })
      else if tag = 0x0e then Inr (do { (c, r) \<leftarrow> r_u32 r; (vs, r) \<leftarrow> r_many (unat c) r_u8 r; Some (k\<lparr>dtypes := vs\<rparr>, r) })
      else if tag = 0x0f then Inr (do { (c, r) \<leftarrow> r_u32 r; (vs, r) \<leftarrow> r_many (unat c) r_u8 r; Some (k\<lparr>layouts := vs\<rparr>, r) })
      else if tag = 0x10 then Inr (do { (v0, r) \<leftarrow> r_u32 r; Some (k\<lparr>rank := v0\<rparr>, r) })
      else if tag = 0x11 then Inr (do { (c, r) \<leftarrow> r_u32 r; (vs, r) \<leftarrow> r_many (unat c) r_i64 r; Some (k\<lparr>shape := vs\<rparr>, r) })
      else if tag = 0x12 then Inr (do { (c, r) \<leftarrow> r_u32 r; (vs, r) \<leftarrow> r_many (unat c) r_str r; Some (k\<lparr>symbolic_shape_constraints := vs\<rparr>, r) })
      else if tag = 0x13 then Inr (do { (v0, r) \<leftarrow> r_u32 r; Some (k\<lparr>alignment_bytes := v0\<rparr>, r) })
      else if tag = 0x14 then Inr (do { (v0, r) \<leftarrow> r_u32 r; Some (k\<lparr>shared_mem_bytes := v0\<rparr>, r) })
      else if tag = 0x15 then Inr (do { (v0, r) \<leftarrow> r_str r; Some (k\<lparr>launch_abi := v0\<rparr>, r) })
      else if tag = 0x16 then Inr (do { (v0, r) \<leftarrow> r_u32 r; (v1, r) \<leftarrow> r_u32 r; (v2, r) \<leftarrow> r_u32 r; Some (k\<lparr>block_x := v0, block_y := v1, block_z := v2\<rparr>, r) })
      else if tag = 0x17 then Inr (do { (c, r) \<leftarrow> r_u32 r; (vs, r) \<leftarrow> r_many (unat c) r_str r; Some (k\<lparr>codegen_flags := vs\<rparr>, r) })
      else if tag = 0x18 then Inr (do { (c, r) \<leftarrow> r_u32 r; (vs, r) \<leftarrow> r_many (unat c) r_pair r; Some (k\<lparr>specialization := vs\<rparr>, r) })
      else if tag = 0x19 then Inr (do { (v0, r) \<leftarrow> r_str r; Some (k\<lparr>model_revision := v0\<rparr>, r) })
      else if tag = 0x1a then Inr (do { (v0, r) \<leftarrow> r_str r; Some (k\<lparr>operator_revision := v0\<rparr>, r) })
      else if tag = 0x1b then Inr (do { (v0, r) \<leftarrow> r_str r; (v1, r) \<leftarrow> r_u32 r; (v2, r) \<leftarrow> r_boolean r; Some (k\<lparr>quantization_kind := v0, quantization_bits := v1, quantization_symmetric := v2\<rparr>, r) })
      else fail EC_MalformedFrame ''unknown canonical key tag'')"

lemma r_pair_le: "r_pair r = Some (p, r') \<Longrightarrow> length r' \<le> length r"
  by (auto simp: r_pair_def dest!: r_str_le split: bind_splits)

lemma r_many_field_le:
  "r_many n r_str r = Some (ss, r') \<Longrightarrow> length r' \<le> length r"
  "r_many n r_u8 r = Some (bs, r') \<Longrightarrow> length r' \<le> length r"
  "r_many n r_i64 r = Some (is, r') \<Longrightarrow> length r' \<le> length r"
  "r_many n r_pair r = Some (ps, r') \<Longrightarrow> length r' \<le> length r"
  by (erule r_many_le [rotated], erule reader_le r_pair_le)+

lemma read_field_le: "read_field tag k r = Inr (Some (k', r')) \<Longrightarrow> length r' \<le> length r"
  unfolding read_field_def
  by (auto split: if_splits bind_splits dest!: reader_le r_pair_le r_many_field_le)

function read_fields :: "KernelCompatibilityKey \<Rightarrow> Reader \<Rightarrow> KernelCompatibilityKey option result" where
  "read_fields k [] = Inr (Some k)"
| "read_fields k (tag # r) =
     (case read_field tag k r of
        Inl e \<Rightarrow> Inl e
      | Inr None \<Rightarrow> Inr None
      | Inr (Some (k', r')) \<Rightarrow> read_fields k' r')"
  by pat_completeness auto
termination
  by (relation "measure (\<lambda>(k, r). length r)") (auto dest: read_field_le)

definition from_canonical :: "bytes \<Rightarrow> KernelCompatibilityKey result" where
  "from_canonical b =
     (case read_fields KernelCompatibilityKey_new b of
        Inl e \<Rightarrow> Inl e
      | Inr None \<Rightarrow> fail EC_MalformedFrame ''truncated canonical key''
      | Inr (Some k) \<Rightarrow>
          (case finalize k of
             (False, _) \<Rightarrow> fail EC_InvalidArtifact ''reconstructed key rejected''
           | (True, k') \<Rightarrow> Inr k'))"

subsection \<open>The encoding as a list of tagged fields\<close>

definition enc_pair :: "string \<times> string \<Rightarrow> bytes" where
  "enc_pair p = enc_str (fst p) @ enc_str (snd p)"

lemma fold_cw_str: "fold (\<lambda>s w. cw_str w s) xs w = w @ concat (map enc_str xs)"
  by (rule fold_append_eq) (rule cw_str_eq)

lemma fold_cw_u8: "fold (\<lambda>s w. cw_u8 w s) xs w = w @ xs"
  by (induction xs arbitrary: w) (simp_all add: cw_u8_eq)

lemma fold_cw_i64: "fold (\<lambda>s w. cw_i64 w s) xs w = w @ concat (map (be_bytes 8) xs)"
  by (rule fold_append_eq) (rule cw_i64_eq)

lemma fold_cw_pair: "fold (\<lambda>p w. cw_str (cw_str w (fst p)) (snd p)) xs w = w @ concat (map enc_pair xs)"
  by (rule fold_append_eq) (simp add: cw_str_eq enc_pair_def)

lemmas fold_cw = fold_cw_str fold_cw_u8 fold_cw_i64 fold_cw_pair

lemma canonical_encoding_eq:
  "canonical_encoding k = (0x01 # [kKeyFormatVersion])
     @ (0x02 # enc_str (operation k))
     @ (0x03 # enc_str (artifact_format k))
     @ (0x04 # [vendor k])
     @ (0x05 # [family k])
     @ (0x06 # enc_str (arch k))
     @ (0x07 # [cc_major (capability k), cc_minor (capability k)])
     @ (0x08 # be_bytes 8 (id_hi (device_id k)) @ be_bytes 8 (id_lo (device_id k)))
     @ (0x09 # enc_str (runtime_backend k) @ be_bytes 4 (runtime_version_major k) @ be_bytes 4 (runtime_version_minor k))
     @ (0x0a # enc_str (compiler_name k) @ be_bytes 4 (compiler_version_major k) @ be_bytes 4 (compiler_version_minor k) @ be_bytes 4 (compiler_version_patch k) @ enc_str (compiler_backend k))
     @ (0x0b # enc_str (abi_name k) @ be_bytes 8 (abi_version k))
     @ (0x0c # enc_str (kernel_interface_signature k))
     @ (0x0d # be_bytes 4 (word_of_nat (length (scalar_param_types k)) :: u32) @ concat (map enc_str (scalar_param_types k)))
     @ (0x0e # be_bytes 4 (word_of_nat (length (dtypes k)) :: u32) @ (dtypes k))
     @ (0x0f # be_bytes 4 (word_of_nat (length (layouts k)) :: u32) @ (layouts k))
     @ (0x10 # be_bytes 4 (rank k))
     @ (0x11 # be_bytes 4 (word_of_nat (length (shape k)) :: u32) @ concat (map (be_bytes 8) (shape k)))
     @ (0x12 # be_bytes 4 (word_of_nat (length (symbolic_shape_constraints k)) :: u32) @ concat (map enc_str (symbolic_shape_constraints k)))
     @ (0x13 # be_bytes 4 (alignment_bytes k))
     @ (0x14 # be_bytes 4 (shared_mem_bytes k))
     @ (0x15 # enc_str (launch_abi k))
     @ (0x16 # be_bytes 4 (block_x k) @ be_bytes 4 (block_y k) @ be_bytes 4 (block_z k))
     @ (0x17 # be_bytes 4 (word_of_nat (length (codegen_flags k)) :: u32) @ concat (map enc_str (codegen_flags k)))
     @ (0x18 # be_bytes 4 (word_of_nat (length (specialization k)) :: u32) @ concat (map enc_pair (specialization k)))
     @ (0x19 # enc_str (model_revision k))
     @ (0x1a # enc_str (operator_revision k))
     @ (0x1b # enc_str (quantization_kind k) @ be_bytes 4 (quantization_bits k) @ [of_bool (quantization_symmetric k)])"
  unfolding canonical_encoding_def Let_def fold_cw
  by (simp only: enc_simps append_assoc append_Nil append_Cons)

text \<open>
  The keys whose sizes fit the fields of the encoding (64-bit string lengths, 32-bit element
  counts) and whose sorting is determined.
\<close>

definition key_wf :: "KernelCompatibilityKey \<Rightarrow> bool" where
  "key_wf k \<longleftrightarrow>
     length (operation k) < 2 ^ 64 \<and>
     length (artifact_format k) < 2 ^ 64 \<and>
     length (arch k) < 2 ^ 64 \<and>
     length (runtime_backend k) < 2 ^ 64 \<and>
     length (compiler_name k) < 2 ^ 64 \<and>
     length (compiler_backend k) < 2 ^ 64 \<and>
     length (abi_name k) < 2 ^ 64 \<and>
     length (kernel_interface_signature k) < 2 ^ 64 \<and>
     length (launch_abi k) < 2 ^ 64 \<and>
     length (model_revision k) < 2 ^ 64 \<and>
     length (operator_revision k) < 2 ^ 64 \<and>
     length (quantization_kind k) < 2 ^ 64 \<and>
     length (scalar_param_types k) < 2 ^ 32 \<and>
     length (dtypes k) < 2 ^ 32 \<and>
     length (layouts k) < 2 ^ 32 \<and>
     length (shape k) < 2 ^ 32 \<and>
     length (symbolic_shape_constraints k) < 2 ^ 32 \<and>
     length (codegen_flags k) < 2 ^ 32 \<and>
     length (specialization k) < 2 ^ 32 \<and>
     (\<forall>s \<in> set (scalar_param_types k). length s < 2 ^ 64) \<and>
     (\<forall>s \<in> set (symbolic_shape_constraints k). length s < 2 ^ 64) \<and>
     (\<forall>s \<in> set (codegen_flags k). length s < 2 ^ 64) \<and>
     (\<forall>p \<in> set (specialization k). length (fst p) < 2 ^ 64 \<and> length (snd p) < 2 ^ 64) \<and>
     distinct (map fst (specialization k))"

subsection \<open>The decoder inverts the encoder\<close>

lemma r_pair_append [dec_simps]:
  "length (fst p) < 2 ^ 64 \<Longrightarrow> length (snd p) < 2 ^ 64 \<Longrightarrow> r_pair (enc_pair p @ r) = Some (p, r)"
  by (simp add: r_pair_def enc_pair_def r_str_append)

lemma r_many_fields [dec_simps]:
  "\<forall>s \<in> set ss. length s < 2 ^ 64 \<Longrightarrow>
    r_many (length ss) r_str (concat (map enc_str ss) @ r) = Some (ss, r)"
  "r_many (length bs) r_u8 (bs @ r) = Some (bs, r)"
  "r_many (length is) r_i64 (concat (map (be_bytes 8) is) @ r) = Some (is, r)"
  "\<forall>p \<in> set ps. length (fst p) < 2 ^ 64 \<and> length (snd p) < 2 ^ 64 \<Longrightarrow>
    r_many (length ps) r_pair (concat (map enc_pair ps) @ r) = Some (ps, r)"
proof -
  show "r_many (length bs) r_u8 (bs @ r) = Some (bs, r)"
    by (induction bs) (simp_all add: r_u8_Cons)
qed (rule r_many_append; simp add: dec_simps)+

lemma unat_count: "length vs < 2 ^ 32 \<Longrightarrow> unat (word_of_nat (length vs) :: u32) = length vs"
  by (simp add: unat_of_nat)

text \<open>One rule per tag: the loop reads the field and goes on behind it.\<close>

lemma read_fields_tags:
  "read_fields k (0x01 # [v] @ r) = read_fields k r"
  "length s0 < 2 ^ 64 \<Longrightarrow> read_fields k (0x02 # enc_str s0 @ r) = read_fields (k\<lparr>operation := s0\<rparr>) r"
  "length s0 < 2 ^ 64 \<Longrightarrow> read_fields k (0x03 # enc_str s0 @ r) = read_fields (k\<lparr>artifact_format := s0\<rparr>) r"
  "read_fields k (0x04 # [b0] @ r) = read_fields (k\<lparr>vendor := b0\<rparr>) r"
  "read_fields k (0x05 # [b0] @ r) = read_fields (k\<lparr>family := b0\<rparr>) r"
  "length s0 < 2 ^ 64 \<Longrightarrow> read_fields k (0x06 # enc_str s0 @ r) = read_fields (k\<lparr>arch := s0\<rparr>) r"
  "read_fields k (0x07 # [a, b] @ r) = read_fields (k\<lparr>capability := \<lparr>cc_major = a, cc_minor = b\<rparr>\<rparr>) r"
  "read_fields k (0x08 # be_bytes 8 c @ be_bytes 8 d @ r) = read_fields (k\<lparr>device_id := mk_id c d\<rparr>) r"
  "length s0 < 2 ^ 64 \<Longrightarrow> read_fields k (0x09 # enc_str s0 @ be_bytes 4 w1 @ be_bytes 4 w2 @ r) = read_fields (k\<lparr>runtime_backend := s0, runtime_version_major := w1, runtime_version_minor := w2\<rparr>) r"
  "length s0 < 2 ^ 64 \<Longrightarrow> length s4 < 2 ^ 64 \<Longrightarrow> read_fields k (0x0a # enc_str s0 @ be_bytes 4 w1 @ be_bytes 4 w2 @ be_bytes 4 w3 @ enc_str s4 @ r) = read_fields (k\<lparr>compiler_name := s0, compiler_version_major := w1, compiler_version_minor := w2, compiler_version_patch := w3, compiler_backend := s4\<rparr>) r"
  "length s0 < 2 ^ 64 \<Longrightarrow> read_fields k (0x0b # enc_str s0 @ be_bytes 8 x1 @ r) = read_fields (k\<lparr>abi_name := s0, abi_version := x1\<rparr>) r"
  "length s0 < 2 ^ 64 \<Longrightarrow> read_fields k (0x0c # enc_str s0 @ r) = read_fields (k\<lparr>kernel_interface_signature := s0\<rparr>) r"
  "length ss < 2 ^ 32 \<Longrightarrow> \<forall>s \<in> set ss. length s < 2 ^ 64 \<Longrightarrow>
    read_fields k (0x0d # be_bytes 4 (word_of_nat (length ss) :: u32) @ concat (map enc_str ss) @ r) = read_fields (k\<lparr>scalar_param_types := ss\<rparr>) r"
  "length bs < 2 ^ 32 \<Longrightarrow> read_fields k (0x0e # be_bytes 4 (word_of_nat (length bs) :: u32) @ bs @ r) = read_fields (k\<lparr>dtypes := bs\<rparr>) r"
  "length bs < 2 ^ 32 \<Longrightarrow> read_fields k (0x0f # be_bytes 4 (word_of_nat (length bs) :: u32) @ bs @ r) = read_fields (k\<lparr>layouts := bs\<rparr>) r"
  "read_fields k (0x10 # be_bytes 4 w0 @ r) = read_fields (k\<lparr>rank := w0\<rparr>) r"
  "length is < 2 ^ 32 \<Longrightarrow> read_fields k (0x11 # be_bytes 4 (word_of_nat (length is) :: u32) @ concat (map (be_bytes 8) is) @ r) = read_fields (k\<lparr>shape := is\<rparr>) r"
  "length ss < 2 ^ 32 \<Longrightarrow> \<forall>s \<in> set ss. length s < 2 ^ 64 \<Longrightarrow>
    read_fields k (0x12 # be_bytes 4 (word_of_nat (length ss) :: u32) @ concat (map enc_str ss) @ r) = read_fields (k\<lparr>symbolic_shape_constraints := ss\<rparr>) r"
  "read_fields k (0x13 # be_bytes 4 w0 @ r) = read_fields (k\<lparr>alignment_bytes := w0\<rparr>) r"
  "read_fields k (0x14 # be_bytes 4 w0 @ r) = read_fields (k\<lparr>shared_mem_bytes := w0\<rparr>) r"
  "length s0 < 2 ^ 64 \<Longrightarrow> read_fields k (0x15 # enc_str s0 @ r) = read_fields (k\<lparr>launch_abi := s0\<rparr>) r"
  "read_fields k (0x16 # be_bytes 4 w0 @ be_bytes 4 w1 @ be_bytes 4 w2 @ r) = read_fields (k\<lparr>block_x := w0, block_y := w1, block_z := w2\<rparr>) r"
  "length ss < 2 ^ 32 \<Longrightarrow> \<forall>s \<in> set ss. length s < 2 ^ 64 \<Longrightarrow>
    read_fields k (0x17 # be_bytes 4 (word_of_nat (length ss) :: u32) @ concat (map enc_str ss) @ r) = read_fields (k\<lparr>codegen_flags := ss\<rparr>) r"
  "length ps < 2 ^ 32 \<Longrightarrow> \<forall>p \<in> set ps. length (fst p) < 2 ^ 64 \<and> length (snd p) < 2 ^ 64 \<Longrightarrow>
    read_fields k (0x18 # be_bytes 4 (word_of_nat (length ps) :: u32) @ concat (map enc_pair ps) @ r) = read_fields (k\<lparr>specialization := ps\<rparr>) r"
  "length s0 < 2 ^ 64 \<Longrightarrow> read_fields k (0x19 # enc_str s0 @ r) = read_fields (k\<lparr>model_revision := s0\<rparr>) r"
  "length s0 < 2 ^ 64 \<Longrightarrow> read_fields k (0x1a # enc_str s0 @ r) = read_fields (k\<lparr>operator_revision := s0\<rparr>) r"
  "length s0 < 2 ^ 64 \<Longrightarrow> read_fields k (0x1b # enc_str s0 @ be_bytes 4 w1 @ [of_bool t2] @ r) = read_fields (k\<lparr>quantization_kind := s0, quantization_bits := w1, quantization_symmetric := t2\<rparr>) r"
  by (simp_all add: read_field_def dec_simps unat_count)

lemma read_fields_canonical:
  assumes "key_wf k"
  shows "read_fields KernelCompatibilityKey_new (canonical_encoding k) =
    Inr (Some (k\<lparr>k_canonical := [], k_digest := replicate 32 0, k_digest_hex := [],
      k_canonical_text := [], k_finalized := False\<rparr>))"
proof -
  have "read_fields KernelCompatibilityKey_new (canonical_encoding k @ []) = read_fields
    (k\<lparr>k_canonical := [], k_digest := replicate 32 0, k_digest_hex := [],
      k_canonical_text := [], k_finalized := False\<rparr>) []"
    using assms unfolding key_wf_def canonical_encoding_eq append_assoc
    by (elim conjE, simp only: append_assoc append_Cons append_Nil,
        simp only: read_fields_tags [unfolded append_Cons append_Nil])
      (simp add: KernelCompatibilityKey_new_def)
  then show ?thesis by simp
qed

subsection \<open>Finalizing\<close>

lemma canonical_encoding_private [simp]:
  "canonical_encoding (k\<lparr>k_canonical := c\<rparr>) = canonical_encoding k"
  "canonical_encoding (k\<lparr>k_digest := d\<rparr>) = canonical_encoding k"
  "canonical_encoding (k\<lparr>k_digest_hex := h\<rparr>) = canonical_encoding k"
  "canonical_encoding (k\<lparr>k_canonical_text := t\<rparr>) = canonical_encoding k"
  "canonical_encoding (k\<lparr>k_finalized := f\<rparr>) = canonical_encoding k"
  by (simp_all add: canonical_encoding_def)

lemma structure_ok_private [simp]:
  "structure_ok (k\<lparr>k_canonical := c\<rparr>) = structure_ok k"
  "structure_ok (k\<lparr>k_digest := d\<rparr>) = structure_ok k"
  "structure_ok (k\<lparr>k_digest_hex := h\<rparr>) = structure_ok k"
  "structure_ok (k\<lparr>k_canonical_text := t\<rparr>) = structure_ok k"
  "structure_ok (k\<lparr>k_finalized := f\<rparr>) = structure_ok k"
  by (simp_all add: structure_ok_def)

lemma key_text_private [simp]:
  "key_text (k\<lparr>k_canonical := c\<rparr>) x = key_text k x"
  "key_text (k\<lparr>k_digest := d\<rparr>) x = key_text k x"
  "key_text (k\<lparr>k_digest_hex := h\<rparr>) x = key_text k x"
  "key_text (k\<lparr>k_canonical_text := t\<rparr>) x = key_text k x"
  "key_text (k\<lparr>k_finalized := f\<rparr>) x = key_text k x"
  by (simp_all add: key_text_def)

lemma canonicalize_private [simp]:
  "canonicalize (k\<lparr>k_canonical := c\<rparr>) = (canonicalize k)\<lparr>k_canonical := c\<rparr>"
  "canonicalize (k\<lparr>k_digest := d\<rparr>) = (canonicalize k)\<lparr>k_digest := d\<rparr>"
  "canonicalize (k\<lparr>k_digest_hex := h\<rparr>) = (canonicalize k)\<lparr>k_digest_hex := h\<rparr>"
  "canonicalize (k\<lparr>k_canonical_text := t\<rparr>) = (canonicalize k)\<lparr>k_canonical_text := t\<rparr>"
  "canonicalize (k\<lparr>k_finalized := f\<rparr>) = (canonicalize k)\<lparr>k_finalized := f\<rparr>"
  by (simp_all add: canonicalize_def)

lemma structure_ok_canonicalize [simp]: "structure_ok (canonicalize k) = structure_ok k"
  by (simp add: structure_ok_def canonicalize_def)

lemma sort_strings_idem [simp]: "sort_strings (sort_strings v) = sort_strings v"
  by (simp add: sort_strings_def sorted_sort_id)

lemma sort_pairs_idem [simp]: "sort_pairs (sort_pairs v) = sort_pairs v"
  by (simp add: sort_pairs_def sort_key_id_if_sorted)

lemma canonicalize_idem [simp]: "canonicalize (canonicalize k) = canonicalize k"
  by (simp add: canonicalize_def)

lemma key_wf_canonicalize: "key_wf k \<Longrightarrow> key_wf (canonicalize k)"
  by (simp add: key_wf_def canonicalize_def sort_strings_def sort_pairs_def distinct_map)

lemma key_wf_private [simp]:
  "key_wf (k\<lparr>k_canonical := c\<rparr>) = key_wf k"
  "key_wf (k\<lparr>k_digest := d\<rparr>) = key_wf k"
  "key_wf (k\<lparr>k_digest_hex := h\<rparr>) = key_wf k"
  "key_wf (k\<lparr>k_canonical_text := t\<rparr>) = key_wf k"
  "key_wf (k\<lparr>k_finalized := f\<rparr>) = key_wf k"
  by (simp_all add: key_wf_def)

text \<open>The derived members of a canonicalised key.\<close>

definition derive :: "KernelCompatibilityKey \<Rightarrow> KernelCompatibilityKey" where
  "derive k = k\<lparr>k_canonical := canonical_encoding k, k_digest := digest (canonical_encoding k),
     k_digest_hex := to_hex (digest (canonical_encoding k)),
     k_canonical_text := key_text k (to_hex (digest (canonical_encoding k))), k_finalized := True\<rparr>"

lemma finalize_eq:
  "finalize k =
     (if structure_ok k then (True, derive (canonicalize k))
      else (False, (canonicalize k)\<lparr>k_finalized := False\<rparr>))"
  by (simp add: finalize_def Let_def derive_def)

lemma finalize_True: "finalize k = (True, k') \<longleftrightarrow> structure_ok k \<and> k' = derive (canonicalize k)"
  by (auto simp: finalize_eq)

lemma derive_private [simp]:
  "derive (k\<lparr>k_canonical := c, k_digest := d, k_digest_hex := h, k_canonical_text := t,
     k_finalized := f\<rparr>) = derive k"
  by (simp add: derive_def)

lemma derive_sel [simp]:
  "k_canonical (derive k) = canonical_encoding k" "k_digest (derive k) = digest (canonical_encoding k)"
  "k_digest_hex (derive k) = to_hex (digest (canonical_encoding k))" "k_finalized (derive k)"
  by (simp_all add: derive_def)

lemma derive_derive [simp]: "derive (derive k) = derive k"
  by (simp add: derive_def)

lemma canonicalize_derive [simp]: "canonicalize (derive (canonicalize k)) = derive (canonicalize k)"
  by (simp add: derive_def)

lemma structure_ok_derive [simp]: "structure_ok (derive k) = structure_ok k"
  by (simp add: derive_def)

lemma finalize_idem: "finalize k = (True, k') \<Longrightarrow> finalize k' = (True, k')"
  by (auto simp: finalize_True)

text \<open>
  The order in which flags and specialization parameters are listed does not show in the
  finalized key.
\<close>

lemma sort_pairs_unique:
  assumes "mset ps = mset qs" and "distinct (map fst qs)"
  shows "sort_pairs ps = sort_pairs qs"
proof (rule map_sorted_distinct_set_unique [where f = fst])
  have set_eq: "set ps = set qs" using assms(1) by (metis set_mset_mset)
  have dp: "distinct (map fst ps)"
    using assms set_eq by (metis distinct_map mset_eq_imp_distinct_iff)
  show "inj_on fst (set (sort_pairs ps) \<union> set (sort_pairs qs))"
    using assms(2) set_eq by (simp add: sort_pairs_def distinct_map)
  show "distinct (map fst (sort_pairs ps))" "distinct (map fst (sort_pairs qs))"
    using dp assms(2) by (simp_all add: sort_pairs_def distinct_map)
  show "set (sort_pairs ps) = set (sort_pairs qs)" using set_eq by (simp add: sort_pairs_def)
qed (simp_all add: sort_pairs_def)

lemma sort_strings_unique: "mset a = mset b \<Longrightarrow> sort_strings a = sort_strings b"
  unfolding sort_strings_def by (rule properties_for_sort) simp_all

lemma finalize_permute:
  assumes "mset fs = mset (codegen_flags k)" and "mset ps = mset (specialization k)"
    and "distinct (map fst (specialization k))"
  shows "finalize (k\<lparr>codegen_flags := fs, specialization := ps\<rparr>) = finalize k"
proof -
  have "canonicalize (k\<lparr>codegen_flags := fs, specialization := ps\<rparr>) = canonicalize k"
    by (simp add: canonicalize_def sort_strings_unique [OF assms(1)] sort_pairs_unique [OF assms(2,3)])
  moreover have "structure_ok (k\<lparr>codegen_flags := fs, specialization := ps\<rparr>) = structure_ok k"
    by (simp add: structure_ok_def)
  ultimately show ?thesis by (simp add: finalize_eq)
qed

subsection \<open>Round trip and injectivity\<close>

lemma from_canonical_finalized:
  assumes "key_wf k" and "finalize k = (True, k')"
  shows "from_canonical (k_canonical k') = Inr k'"
proof -
  from assms(2) have ok: "structure_ok k" and k': "k' = derive (canonicalize k)"
    by (auto simp: finalize_True)
  have "read_fields KernelCompatibilityKey_new (k_canonical k') = Inr (Some ((canonicalize k)
      \<lparr>k_canonical := [], k_digest := replicate 32 0, k_digest_hex := [], k_canonical_text := [],
       k_finalized := False\<rparr>))"
    unfolding k' derive_sel by (rule read_fields_canonical [OF key_wf_canonicalize [OF assms(1)]])
  then show ?thesis
    using ok by (simp add: from_canonical_def finalize_eq k' del: derive_sel)
qed

lemma canonical_inject:
  assumes "key_wf a" "finalize a = (True, a')" "key_wf b" "finalize b = (True, b')"
    and "k_canonical a' = k_canonical b'"
  shows "a' = b'"
  using assms by (metis from_canonical_finalized sum.inject(2))

lemma finalize_digest:
  "finalize k = (True, k') \<Longrightarrow> k_digest k' = digest (k_canonical k') \<and> k_finalized k'"
  by (auto simp: finalize_True)

lemma ensure_finalized_derive [simp]: "ensure_finalized (derive k) = derive k"
  by (simp add: ensure_finalized_def)

lemma finalized_idem [simp]: "finalized (finalized k) = finalized k"
  by (simp add: finalize_eq)

lemma structure_ok_finalized [simp]: "structure_ok (finalized k) = structure_ok k"
  by (simp add: finalize_eq)

subsection \<open>Properties\<close>

text \<open>
  C15. The canonical encoding loses nothing: decoding the encoding of a finalized key, whose strings
  and lists have lengths that fit their counters, gives exactly that key, digest and text included.
\<close>

theorem key_round_trip:
  assumes "key_wf k" and "finalize k = (True, k')"
  shows "from_canonical (k_canonical k') = Inr k'"
  using assms by (rule from_canonical_finalized)

text \<open>
  C16. The encoding is injective: two keys with one canonical encoding agree in every field, so keys
  that differ in any field that affects the kernel can share an index entry only if SHA-256
  collides on their different encodings.
\<close>

theorem key_encoding_injective:
  assumes "key_wf a" "finalize a = (True, a')" "key_wf b" "finalize b = (True, b')" and "a' \<noteq> b'"
  shows "k_canonical a' \<noteq> k_canonical b' \<and>
    key_eq a' b' = (digest (k_canonical a') = digest (k_canonical b'))"
proof
  show "k_canonical a' \<noteq> k_canonical b'"
    using canonical_inject [OF assms(1-4)] assms(5) by blast
  show "key_eq a' b' = (digest (k_canonical a') = digest (k_canonical b'))"
    using finalize_digest [OF assms(2)] finalize_digest [OF assms(4)]
    by (simp add: key_eq_def ensure_finalized_def)
qed

text \<open>
  The identity of a key does not depend on the order in which flags and specialization
  parameters were listed, and finalizing is idempotent.
\<close>

theorem key_order_irrelevant:
  assumes "mset fs = mset (codegen_flags k)" and "mset ps = mset (specialization k)"
    and "distinct (map fst (specialization k))" and "structure_ok k"
  shows "finalize (k\<lparr>codegen_flags := fs, specialization := ps\<rparr>) = finalize k \<and>
    finalize (snd (finalize k)) = finalize k"
  using finalize_permute [OF assms(1-3)] assms(4) by (simp add: finalize_eq)

text \<open>Two small keys on which the properties above apply.\<close>

definition matmul_key :: KernelCompatibilityKey where
  "matmul_key = KernelCompatibilityKey_new\<lparr>operation := ''matmul'', codegen_flags := [''b'', ''a''],
     specialization := [(''tile'', ''16''), (''k'', ''4'')]\<rparr>"

definition conv_key :: KernelCompatibilityKey where
  "conv_key = KernelCompatibilityKey_new\<lparr>operation := ''conv''\<rparr>"

lemma sample_keys_ok: "key_wf matmul_key" "structure_ok matmul_key" "key_wf conv_key" "structure_ok conv_key"
  by (simp_all add: matmul_key_def conv_key_def KernelCompatibilityKey_new_def key_wf_def structure_ok_def)

lemma sample_keys_final:
  "finalize matmul_key = (True, derive (canonicalize matmul_key))"
  "finalize conv_key = (True, derive (canonicalize conv_key))"
  by (simp_all add: finalize_eq sample_keys_ok)

lemma derive_operation [simp]: "operation (derive (canonicalize k)) = operation k"
  by (simp add: derive_def canonicalize_def)

theorem key_round_trip_witness:
  "from_canonical (k_canonical (derive (canonicalize matmul_key))) = Inr (derive (canonicalize matmul_key))"
  using key_round_trip [OF sample_keys_ok(1) sample_keys_final(1)] .

theorem key_encoding_injective_witness:
  "k_canonical (derive (canonicalize matmul_key)) \<noteq> k_canonical (derive (canonicalize conv_key))"
proof -
  have "operation matmul_key \<noteq> operation conv_key"
    by (simp add: matmul_key_def conv_key_def KernelCompatibilityKey_new_def)
  then have "derive (canonicalize matmul_key) \<noteq> derive (canonicalize conv_key)"
    by (metis derive_operation)
  then show ?thesis
    using key_encoding_injective [OF sample_keys_ok(1) sample_keys_final(1) sample_keys_ok(3) sample_keys_final(2)]
    by blast
qed

theorem key_order_irrelevant_witness:
  "finalize (matmul_key\<lparr>codegen_flags := [''a'', ''b''], specialization := [(''k'', ''4''), (''tile'', ''16'')]\<rparr>)
    = finalize matmul_key"
proof -
  have "mset [''a'', ''b''] = mset (codegen_flags matmul_key)"
    "mset [(''k'', ''4''), (''tile'', ''16'')] = mset (specialization matmul_key)"
    "distinct (map fst (specialization matmul_key))"
    by (simp_all add: matmul_key_def KernelCompatibilityKey_new_def)
  from key_order_irrelevant [OF this sample_keys_ok(2)] show ?thesis by blast
qed

end
