(* ===== verification/KC_Compatibility.thy ===== *)
theory KC_Compatibility
  imports KC_Key
begin

text \<open>
  The compatibility engine (\<^verbatim>\<open>include/kernelcache/compatibility.hpp\<close>,
  \<^verbatim>\<open>src/compatibility.cpp\<close>): a structured decision for a request key against a candidate
  key under a policy. The decision is characterised dimension by dimension.
\<close>

datatype CompatibilityReason =
    CR_NotEvaluated | CR_ExactCompatible | CR_CompatibleWithDynamicShapeConstraint
  | CR_CompatibleWithRuntimeValidation | CR_IncompatibleArchitecture | CR_IncompatibleRuntime
  | CR_IncompatibleCompilerABI | CR_IncompatibleKernelABI | CR_IncompatibleDatatype
  | CR_IncompatibleLayout | CR_IncompatibleShape | CR_IncompatibleAlignment
  | CR_IncompatibleSpecialization | CR_IncompatibleQuantization | CR_InvalidArtifact
  | CR_StaleArtifact | CR_CorruptArtifact | CR_PolicyRejected

primrec compatibility_reason_name :: "CompatibilityReason \<Rightarrow> string" where
  "compatibility_reason_name CR_NotEvaluated = ''not-evaluated''"
| "compatibility_reason_name CR_ExactCompatible = ''exact-compatible''"
| "compatibility_reason_name CR_CompatibleWithDynamicShapeConstraint = ''compatible-with-dynamic-shape-constraint''"
| "compatibility_reason_name CR_CompatibleWithRuntimeValidation = ''compatible-with-runtime-validation''"
| "compatibility_reason_name CR_IncompatibleArchitecture = ''incompatible-architecture''"
| "compatibility_reason_name CR_IncompatibleRuntime = ''incompatible-runtime''"
| "compatibility_reason_name CR_IncompatibleCompilerABI = ''incompatible-compiler-abi''"
| "compatibility_reason_name CR_IncompatibleKernelABI = ''incompatible-kernel-abi''"
| "compatibility_reason_name CR_IncompatibleDatatype = ''incompatible-datatype''"
| "compatibility_reason_name CR_IncompatibleLayout = ''incompatible-layout''"
| "compatibility_reason_name CR_IncompatibleShape = ''incompatible-shape''"
| "compatibility_reason_name CR_IncompatibleAlignment = ''incompatible-alignment''"
| "compatibility_reason_name CR_IncompatibleSpecialization = ''incompatible-specialization''"
| "compatibility_reason_name CR_IncompatibleQuantization = ''incompatible-quantization''"
| "compatibility_reason_name CR_InvalidArtifact = ''invalid-artifact''"
| "compatibility_reason_name CR_StaleArtifact = ''stale-artifact''"
| "compatibility_reason_name CR_CorruptArtifact = ''corrupt-artifact''"
| "compatibility_reason_name CR_PolicyRejected = ''policy-rejected''"

record KernelCompatibilityDecision =
  reason :: CompatibilityReason
  compatible :: bool
  d_notes :: "string list"

definition KernelCompatibilityDecision_new :: KernelCompatibilityDecision where
  "KernelCompatibilityDecision_new = \<lparr>reason = CR_NotEvaluated, compatible = False, d_notes = []\<rparr>"

definition is_exact :: "KernelCompatibilityDecision \<Rightarrow> bool" where
  "is_exact d \<longleftrightarrow> reason d = CR_ExactCompatible"

definition decision_summary :: "KernelCompatibilityDecision \<Rightarrow> string" where
  "decision_summary d =
     ''compatible='' @ (if compatible d then ''yes'' else ''no'')
     @ '' reason='' @ compatibility_reason_name (reason d)
     @ concat (map (\<lambda>n. '' | '' @ n) (d_notes d))"

record CompatibilityPolicy =
  allow_dynamic_shape_constraints :: bool
  allow_runtime_validation :: bool
  require_current_generation :: bool
  require_exact_abi :: bool
  require_exact_datatype :: bool
  require_exact_alignment :: bool

definition CompatibilityPolicy_new :: CompatibilityPolicy where
  "CompatibilityPolicy_new = \<lparr>allow_dynamic_shape_constraints = False, allow_runtime_validation = False,
     require_current_generation = True, require_exact_abi = False, require_exact_datatype = True,
     require_exact_alignment = True\<rparr>"

fun dims_match :: "i64 list \<Rightarrow> i64 list \<Rightarrow> bool" where
  "dims_match (x # a) (y # b) =
     (if sint x < 0 \<or> sint y < 0 then dims_match a b
      else if x \<noteq> y then False
      else dims_match a b)"
| "dims_match _ _ = True"

definition shapes_match :: "i64 list \<Rightarrow> i64 list \<Rightarrow> bool" where
  "shapes_match a b =
     (if a = b then True
      else if a = [] \<or> b = [] then True
      else if length a \<noteq> length b then False
      else dims_match a b)"

definition dtypes_match :: "Datatype list \<Rightarrow> Datatype list \<Rightarrow> bool" where
  "dtypes_match a b =
     (if a = b then True
      else if a = [] \<or> b = [] then True
      else if length a \<noteq> length b then False
      else a = b)"

definition refuse :: "CompatibilityReason \<Rightarrow> string \<Rightarrow> KernelCompatibilityDecision" where
  "refuse r n = \<lparr>reason = r, compatible = False, d_notes = [n]\<rparr>"

definition accept :: "CompatibilityReason \<Rightarrow> string \<Rightarrow> KernelCompatibilityDecision" where
  "accept r n = \<lparr>reason = r, compatible = True, d_notes = [n]\<rparr>"

text \<open>The comparison chain of \<^verbatim>\<open>evaluate_compatibility\<close> on two finalized keys.\<close>

definition compare_keys ::
  "KernelCompatibilityKey \<Rightarrow> KernelCompatibilityKey \<Rightarrow> CompatibilityPolicy \<Rightarrow> KernelCompatibilityDecision" where
  "compare_keys r c policy =
     (if k_digest r = k_digest c then accept CR_ExactCompatible ''canonical key digest matches exactly''
      else if vendor c \<noteq> DeviceVendor_Unknown \<and> vendor r \<noteq> DeviceVendor_Unknown \<and> vendor c \<noteq> vendor r
        then refuse CR_IncompatibleArchitecture (''device vendor differs: candidate='' @ vendor_name (vendor c)
          @ '' request='' @ vendor_name (vendor r))
      else if arch c \<noteq> [] \<and> arch r \<noteq> [] \<and> arch c \<noteq> arch r
        then refuse CR_IncompatibleArchitecture (''arch differs: candidate='' @ arch c @ '' request='' @ arch r)
      else if capability c \<noteq> ComputeCapability_new \<and> capability r \<noteq> ComputeCapability_new \<and> capability c \<noteq> capability r
        then refuse CR_IncompatibleArchitecture ''compute capability differs''
      else if runtime_backend c \<noteq> [] \<and> runtime_backend r \<noteq> [] \<and> runtime_backend c \<noteq> runtime_backend r
        then refuse CR_IncompatibleRuntime (''runtime backend differs: candidate='' @ runtime_backend c
          @ '' request='' @ runtime_backend r)
      else if runtime_version_major c \<noteq> 0 \<and> runtime_version_major r \<noteq> 0 \<and>
          runtime_version_major c \<noteq> runtime_version_major r
        then refuse CR_IncompatibleRuntime ''runtime major version differs''
      else if compiler_name c \<noteq> [] \<and> compiler_name r \<noteq> [] \<and> compiler_name c \<noteq> compiler_name r
        then refuse CR_IncompatibleCompilerABI (''compiler differs: candidate='' @ compiler_name c
          @ '' request='' @ compiler_name r)
      else if compiler_version_major c \<noteq> 0 \<and> compiler_version_major r \<noteq> 0 \<and>
          compiler_version_major c \<noteq> compiler_version_major r
        then refuse CR_IncompatibleCompilerABI ''compiler major version differs''
      else if abi_name c \<noteq> [] \<and> abi_name r \<noteq> [] \<and> abi_name c \<noteq> abi_name r
        then refuse CR_IncompatibleKernelABI (''kernel abi differs: candidate='' @ abi_name c
          @ '' request='' @ abi_name r)
      else if abi_version c \<noteq> abi_version r
        then refuse CR_IncompatibleKernelABI ''abi version differs''
      else if kernel_interface_signature c \<noteq> [] \<and> kernel_interface_signature r \<noteq> [] \<and>
          kernel_interface_signature c \<noteq> kernel_interface_signature r
        then refuse CR_IncompatibleKernelABI ''kernel interface signature differs''
      else if require_exact_abi policy \<and> scalar_param_types c \<noteq> scalar_param_types r
        then refuse CR_IncompatibleKernelABI ''scalar parameter schema differs under exact-abi policy''
      else if require_exact_datatype policy \<and> \<not> dtypes_match (dtypes c) (dtypes r)
        then refuse CR_IncompatibleDatatype ''tensor datatype(s) differ''
      else if layouts c \<noteq> [] \<and> layouts r \<noteq> [] \<and> layouts c \<noteq> layouts r
        then refuse CR_IncompatibleLayout ''tensor layout(s) differ''
      else if rank c \<noteq> 0 \<and> rank r \<noteq> 0 \<and> rank c \<noteq> rank r
        then refuse CR_IncompatibleShape ''tensor rank differs''
      else if \<not> shapes_match (shape c) (shape r)
        then (if allow_dynamic_shape_constraints policy \<and> symbolic_shape_constraints r \<noteq> []
              then accept CR_CompatibleWithDynamicShapeConstraint ''shape differs but request declares symbolic constraints''
              else refuse CR_IncompatibleShape ''tensor shape differs and no symbolic constraint permits reuse'')
      else if require_exact_alignment policy \<and> alignment_bytes c \<noteq> 0 \<and> alignment_bytes r \<noteq> 0 \<and>
          alignment_bytes c \<noteq> alignment_bytes r
        then refuse CR_IncompatibleAlignment ''alignment requirement differs''
      else if codegen_flags c \<noteq> codegen_flags r
        then refuse CR_IncompatibleSpecialization ''codegen/specialization flags differ''
      else if specialization c \<noteq> specialization r
        then refuse CR_IncompatibleSpecialization ''specialization parameters differ''
      else if quantization_kind c \<noteq> [] \<and> quantization_kind r \<noteq> [] \<and> quantization_kind c \<noteq> quantization_kind r
        then refuse CR_IncompatibleQuantization ''quantization kind differs''
      else if allow_runtime_validation policy
        then accept CR_CompatibleWithRuntimeValidation ''only runtime-revalidatable attributes differ''
      else refuse CR_IncompatibleSpecialization ''keys differ beyond the evaluated compatibility dimensions'')"

definition evaluate_compatibility ::
  "KernelCompatibilityKey \<Rightarrow> KernelCompatibilityKey \<Rightarrow> CompatibilityPolicy \<Rightarrow> KernelCompatibilityDecision" where
  "evaluate_compatibility req cand policy = compare_keys (finalized req) (finalized cand) policy"

definition compatibility_distance :: "KernelCompatibilityDecision \<Rightarrow> int" where
  "compatibility_distance d =
     (if reason d = CR_ExactCompatible then 0
      else if reason d = CR_CompatibleWithDynamicShapeConstraint then 1
      else if reason d = CR_CompatibleWithRuntimeValidation then 2
      else 100)"

subsection \<open>Dimensions\<close>

text \<open>
  The abstract reading of the chain: two values of a dimension agree when they are equal or
  one of them is the dimension's "unspecified" value.
\<close>

definition agree :: "'a \<Rightarrow> 'a \<Rightarrow> 'a \<Rightarrow> bool" where
  "agree unspecified x y \<longleftrightarrow> x = unspecified \<or> y = unspecified \<or> x = y"

definition target_agrees :: "KernelCompatibilityKey \<Rightarrow> KernelCompatibilityKey \<Rightarrow> bool" where
  "target_agrees r c \<longleftrightarrow>
     agree DeviceVendor_Unknown (vendor c) (vendor r) \<and> agree [] (arch c) (arch r) \<and>
     agree ComputeCapability_new (capability c) (capability r) \<and>
     agree [] (runtime_backend c) (runtime_backend r) \<and>
     agree 0 (runtime_version_major c) (runtime_version_major r) \<and>
     agree [] (compiler_name c) (compiler_name r) \<and>
     agree 0 (compiler_version_major c) (compiler_version_major r)"

definition interface_agrees ::
  "CompatibilityPolicy \<Rightarrow> KernelCompatibilityKey \<Rightarrow> KernelCompatibilityKey \<Rightarrow> bool" where
  "interface_agrees policy r c \<longleftrightarrow>
     agree [] (abi_name c) (abi_name r) \<and> abi_version c = abi_version r \<and>
     agree [] (kernel_interface_signature c) (kernel_interface_signature r) \<and>
     (require_exact_abi policy \<longrightarrow> scalar_param_types c = scalar_param_types r) \<and>
     (require_exact_datatype policy \<longrightarrow> agree [] (dtypes c) (dtypes r)) \<and>
     agree [] (layouts c) (layouts r) \<and> agree 0 (rank c) (rank r)"

definition specialization_agrees ::
  "CompatibilityPolicy \<Rightarrow> KernelCompatibilityKey \<Rightarrow> KernelCompatibilityKey \<Rightarrow> bool" where
  "specialization_agrees policy r c \<longleftrightarrow>
     (require_exact_alignment policy \<longrightarrow> agree 0 (alignment_bytes c) (alignment_bytes r)) \<and>
     codegen_flags c = codegen_flags r \<and> specialization c = specialization r \<and>
     agree [] (quantization_kind c) (quantization_kind r)"

lemma dtypes_match_iff: "dtypes_match a b \<longleftrightarrow> agree [] a b"
  by (auto simp: dtypes_match_def agree_def)

lemma dims_match_iff:
  "length a = length b \<Longrightarrow>
    dims_match a b \<longleftrightarrow> (\<forall>i < length a. sint (a ! i) < 0 \<or> sint (b ! i) < 0 \<or> a ! i = b ! i)"
proof (induction a b rule: dims_match.induct)
  case (1 x a y b)
  then show ?case by (auto simp: nth_Cons' less_Suc_eq_0_disj)
qed auto

lemma shapes_match_iff:
  "shapes_match a b \<longleftrightarrow> a = [] \<or> b = [] \<or>
     length a = length b \<and> (\<forall>i < length a. sint (a ! i) < 0 \<or> sint (b ! i) < 0 \<or> a ! i = b ! i)"
  by (auto simp: shapes_match_def dims_match_iff)

lemma compatible_accept [simp]: "compatible (accept r n)" "reason (accept r n) = r"
  by (simp_all add: accept_def)

lemma compatible_refuse [simp]: "\<not> compatible (refuse r n)" "reason (refuse r n) = r"
  by (simp_all add: refuse_def)

lemma compatible_if_refuse:
  "compatible (if b then refuse r n else d) \<longleftrightarrow> \<not> b \<and> compatible d"
  "compatible (if b then accept r n else d) \<longleftrightarrow> b \<or> compatible d"
  "compatible (if b then (if e then accept r n else refuse q m) else d) \<longleftrightarrow> (if b then e else compatible d)"
  by simp_all

lemma disagree: "x \<noteq> u \<and> y \<noteq> u \<and> x \<noteq> y \<longleftrightarrow> \<not> agree u x y"
  by (auto simp: agree_def)

lemma compatible_compare_keys:
  "compatible (compare_keys r c policy) \<longleftrightarrow>
     k_digest r = k_digest c \<or>
     target_agrees r c \<and> interface_agrees policy r c \<and>
     (if shapes_match (shape c) (shape r)
      then specialization_agrees policy r c \<and> allow_runtime_validation policy
      else allow_dynamic_shape_constraints policy \<and> symbolic_shape_constraints r \<noteq> [])"
  by (simp only: compare_keys_def compatible_if_refuse compatible_accept compatible_refuse disagree
      not_not dtypes_match_iff target_agrees_def interface_agrees_def specialization_agrees_def
      de_Morgan_conj conj_assoc imp_conv_disj if_not_P if_bool_eq_disj)
    blast

text \<open>A refusal never carries one of the three accepting reasons, and an acceptance always does.\<close>

definition accepting :: "CompatibilityReason \<Rightarrow> bool" where
  "accepting q \<longleftrightarrow> q = CR_ExactCompatible \<or> q = CR_CompatibleWithDynamicShapeConstraint
     \<or> q = CR_CompatibleWithRuntimeValidation"

definition well_reasoned :: "KernelCompatibilityDecision \<Rightarrow> bool" where
  "well_reasoned d \<longleftrightarrow> compatible d = accepting (reason d)"

lemma well_reasoned_if: "well_reasoned (if b then x else y) = (if b then well_reasoned x else well_reasoned y)"
  by simp

lemma well_reasoned_leaf:
  "well_reasoned (accept r n) = accepting r" "well_reasoned (refuse r n) = (\<not> accepting r)"
  by (simp_all add: well_reasoned_def)

lemma accepting_simps [simp]:
  "accepting CR_ExactCompatible" "accepting CR_CompatibleWithDynamicShapeConstraint"
  "accepting CR_CompatibleWithRuntimeValidation" "\<not> accepting CR_IncompatibleArchitecture"
  "\<not> accepting CR_IncompatibleRuntime" "\<not> accepting CR_IncompatibleCompilerABI"
  "\<not> accepting CR_IncompatibleKernelABI" "\<not> accepting CR_IncompatibleDatatype"
  "\<not> accepting CR_IncompatibleLayout" "\<not> accepting CR_IncompatibleShape"
  "\<not> accepting CR_IncompatibleAlignment" "\<not> accepting CR_IncompatibleSpecialization"
  "\<not> accepting CR_IncompatibleQuantization"
  by (simp_all add: accepting_def)

lemma well_reasoned_compare: "well_reasoned (compare_keys r c policy)"
  by (simp only: compare_keys_def well_reasoned_if well_reasoned_leaf accepting_simps not_False_eq_True if_cancel)

text \<open>The exact reason is given for equal digests only.\<close>

lemma is_exact_if: "is_exact (if b then x else y) = (if b then is_exact x else is_exact y)"
  by simp

lemma is_exact_leaf: "is_exact (accept r n) = (r = CR_ExactCompatible)" "is_exact (refuse r n) = (r = CR_ExactCompatible)"
  by (simp_all add: is_exact_def)

lemma exact_iff_digest: "is_exact (compare_keys r c policy) \<longleftrightarrow> k_digest r = k_digest c"
  by (simp only: compare_keys_def is_exact_if is_exact_leaf CompatibilityReason.distinct simp_thms if_cancel)
    simp


lemma compatible_evaluate:
  "compatible (evaluate_compatibility req cand policy) \<longleftrightarrow>
     (let r = finalized req; c = finalized cand in
     k_digest r = k_digest c \<or>
     target_agrees r c \<and> interface_agrees policy r c \<and>
     (if shapes_match (shape c) (shape r)
      then specialization_agrees policy r c \<and> allow_runtime_validation policy
      else allow_dynamic_shape_constraints policy \<and> symbolic_shape_constraints r \<noteq> []))"
  by (simp add: evaluate_compatibility_def compatible_compare_keys Let_def)

text \<open>A policy is at least as permissive as another one.\<close>

definition more_permissive :: "CompatibilityPolicy \<Rightarrow> CompatibilityPolicy \<Rightarrow> bool" where
  "more_permissive p q \<longleftrightarrow>
     (allow_dynamic_shape_constraints p \<longrightarrow> allow_dynamic_shape_constraints q) \<and>
     (allow_runtime_validation p \<longrightarrow> allow_runtime_validation q) \<and>
     (require_exact_abi q \<longrightarrow> require_exact_abi p) \<and>
     (require_exact_datatype q \<longrightarrow> require_exact_datatype p) \<and>
     (require_exact_alignment q \<longrightarrow> require_exact_alignment p)"

lemma agrees_permissive:
  "more_permissive p q \<Longrightarrow> interface_agrees p r c \<Longrightarrow> interface_agrees q r c"
  "more_permissive p q \<Longrightarrow> specialization_agrees p r c \<Longrightarrow> specialization_agrees q r c"
  by (auto simp: more_permissive_def interface_agrees_def specialization_agrees_def)

lemma distance_compatible:
  "well_reasoned d \<Longrightarrow> compatible d \<longleftrightarrow> compatibility_distance d < 100"
  by (auto simp: well_reasoned_def accepting_def compatibility_distance_def split: if_splits)

lemma distance_exact: "compatibility_distance d \<le> 0 \<longleftrightarrow> is_exact d"
  by (simp add: compatibility_distance_def is_exact_def)

lemma evaluate_same: "k_digest (finalized a) = k_digest (finalized b) \<Longrightarrow>
  compatible (evaluate_compatibility a b p) \<and> compatibility_distance (evaluate_compatibility a b p) = 0"
  by (simp add: evaluate_compatibility_def compare_keys_def accept_def compatibility_distance_def)

subsection \<open>Properties\<close>


text \<open>
  Under the default policy a candidate is reused for a request only when the two canonical
  keys have the same digest: nothing is ever matched approximately.
\<close>

theorem default_policy_exact:
  "compatible (evaluate_compatibility req cand CompatibilityPolicy_new) \<longleftrightarrow>
     k_digest (finalized req) = k_digest (finalized cand)"
  by (simp add: compatible_evaluate CompatibilityPolicy_new_def Let_def)

text \<open>
  Relaxing a policy never loses a compatible candidate.
\<close>

theorem policy_monotone:
  assumes "more_permissive p q" and "compatible (evaluate_compatibility req cand p)"
  shows "compatible (evaluate_compatibility req cand q)"
proof -
  have "allow_dynamic_shape_constraints p \<longrightarrow> allow_dynamic_shape_constraints q"
    "allow_runtime_validation p \<longrightarrow> allow_runtime_validation q"
    using assms(1) by (simp_all add: more_permissive_def)
  then show ?thesis
    using assms(2) agrees_permissive [OF assms(1)]
    unfolding compatible_evaluate Let_def by (auto split: if_splits)
qed

theorem policy_monotone_witness:
  "compatible (evaluate_compatibility KernelCompatibilityKey_new KernelCompatibilityKey_new
     (CompatibilityPolicy_new\<lparr>allow_runtime_validation := True\<rparr>))"
  by (rule policy_monotone [of CompatibilityPolicy_new])
    (simp_all add: more_permissive_def CompatibilityPolicy_new_def compatible_evaluate)

text \<open>
  The decision, its reason and its distance never contradict each other: the candidate is
  compatible exactly when the distance is below 100, distance 0 is the exact match and means
  equal digests.
\<close>

theorem decision_consistent:
  fixes req cand policy
  defines "d \<equiv> evaluate_compatibility req cand policy"
  shows "(compatible d \<longleftrightarrow> compatibility_distance d < 100) \<and>
    (compatibility_distance d = 0 \<longleftrightarrow> is_exact d) \<and>
    (is_exact d \<longleftrightarrow> k_digest (finalized req) = k_digest (finalized cand))"
  using distance_compatible [OF well_reasoned_compare [of "finalized req" "finalized cand" policy]]
    exact_iff_digest [of "finalized req" "finalized cand" policy]
  by (simp add: d_def evaluate_compatibility_def compatibility_distance_def is_exact_def)

text \<open>
  When the shapes differ and the dynamic-shape rule applies, the alignment, codegen flags,
  specialization parameters and quantization are not looked at: a candidate whose codegen
  flags or quantization differ is accepted, although the same difference is refused when the
  shapes match.
\<close>

theorem dynamic_shape_skips_specialization:
  assumes "allow_dynamic_shape_constraints policy"
    and "symbolic_shape_constraints (finalized req) \<noteq> []"
    and "\<not> shapes_match (shape (finalized cand)) (shape (finalized req))"
    and "target_agrees (finalized req) (finalized cand)"
    and "interface_agrees policy (finalized req) (finalized cand)"
  shows "compatible (evaluate_compatibility req cand policy)"
  using assms by (simp add: compatible_evaluate)

theorem dynamic_shape_skips_specialization_witness:
  "let req = KernelCompatibilityKey_new\<lparr>shape := [4], symbolic_shape_constraints := [''n>0''],
               codegen_flags := [''fast-math''], quantization_kind := ''int8''\<rparr>;
       cand = KernelCompatibilityKey_new\<lparr>shape := [8], quantization_kind := ''int4''\<rparr>
   in compatible (evaluate_compatibility req cand
        (CompatibilityPolicy_new\<lparr>allow_dynamic_shape_constraints := True\<rparr>))"
  unfolding Let_def
  by (rule dynamic_shape_skips_specialization)
    (simp_all add: finalize_eq structure_ok_def canonicalize_def derive_def KernelCompatibilityKey_new_def
      CompatibilityPolicy_new_def shapes_match_def target_agrees_def interface_agrees_def agree_def
      sort_strings_def)

end
