(* ===== verification/KC_Lifecycle.thy ===== *)
theory KC_Lifecycle
  imports KC_Descriptors
begin

text \<open>
  The artifact lifecycle (\<^verbatim>\<open>include/kernelcache/lifecycle.hpp\<close>, \<^verbatim>\<open>src/lifecycle.cpp\<close>,
  \<^verbatim>\<open>src/state_machine.cpp\<close>): the transition table, the classification of states and the
  guarded transition of \<^verbatim>\<open>ArtifactLifecycle\<close>, with the safety properties of the graph.
\<close>

definition kTransitions :: "(ArtifactState \<times> ArtifactState) list" where
  "kTransitions =
    [(AS_Discovered, AS_Building), (AS_Discovered, AS_Invalidated),
     (AS_Discovered, AS_Corrupt), (AS_Discovered, AS_Failed),
     (AS_Discovered, AS_Retired), (AS_Discovered, AS_Terminal),
     (AS_Building, AS_Built), (AS_Building, AS_Failed),
     (AS_Building, AS_Corrupt), (AS_Building, AS_Invalidated),
     (AS_Building, AS_Terminal), (AS_Built, AS_Validating),
     (AS_Built, AS_Invalidated), (AS_Built, AS_Corrupt),
     (AS_Built, AS_Retired), (AS_Built, AS_Failed),
     (AS_Built, AS_Terminal), (AS_Validating, AS_Valid),
     (AS_Validating, AS_Failed), (AS_Validating, AS_Corrupt),
     (AS_Validating, AS_Invalidated), (AS_Validating, AS_Terminal),
     (AS_Valid, AS_Loading), (AS_Valid, AS_Persisted),
     (AS_Valid, AS_Leasing), (AS_Valid, AS_InUse),
     (AS_Valid, AS_DemotionPending), (AS_Valid, AS_EvictionPending),
     (AS_Valid, AS_Invalidated), (AS_Valid, AS_Retired),
     (AS_Valid, AS_Corrupt), (AS_Valid, AS_Terminal),
     (AS_Loading, AS_ResidentHost), (AS_Loading, AS_ResidentDevice),
     (AS_Loading, AS_Failed), (AS_Loading, AS_Corrupt),
     (AS_Loading, AS_Invalidated), (AS_Loading, AS_Terminal),
     (AS_ResidentHost, AS_ResidentDevice), (AS_ResidentHost, AS_Persisted),
     (AS_ResidentHost, AS_DemotionPending), (AS_ResidentHost, AS_EvictionPending),
     (AS_ResidentHost, AS_EvictedHost), (AS_ResidentHost, AS_Invalidated),
     (AS_ResidentHost, AS_Corrupt), (AS_ResidentHost, AS_Retired),
     (AS_ResidentHost, AS_Terminal), (AS_ResidentDevice, AS_ResidentHost),
     (AS_ResidentDevice, AS_DemotionPending), (AS_ResidentDevice, AS_EvictionPending),
     (AS_ResidentDevice, AS_EvictedDevice), (AS_ResidentDevice, AS_Invalidated),
     (AS_ResidentDevice, AS_Corrupt), (AS_ResidentDevice, AS_Retired),
     (AS_ResidentDevice, AS_Terminal), (AS_Persisted, AS_ResidentHost),
     (AS_Persisted, AS_Valid), (AS_Persisted, AS_EvictionPending),
     (AS_Persisted, AS_Invalidated), (AS_Persisted, AS_Corrupt),
     (AS_Persisted, AS_Retired), (AS_Persisted, AS_Terminal),
     (AS_Leasing, AS_InUse), (AS_Leasing, AS_DemotionPending),
     (AS_Leasing, AS_Invalidated), (AS_Leasing, AS_Retired),
     (AS_Leasing, AS_Terminal), (AS_InUse, AS_Leasing),
     (AS_InUse, AS_DemotionPending), (AS_InUse, AS_Invalidated),
     (AS_InUse, AS_Retired), (AS_InUse, AS_Terminal),
     (AS_DemotionPending, AS_EvictionPending), (AS_DemotionPending, AS_Invalidated),
     (AS_DemotionPending, AS_Retired), (AS_DemotionPending, AS_Terminal),
     (AS_EvictionPending, AS_EvictedDevice), (AS_EvictionPending, AS_EvictedHost),
     (AS_EvictionPending, AS_Invalidated), (AS_EvictionPending, AS_Retired),
     (AS_EvictionPending, AS_Terminal), (AS_EvictedDevice, AS_Persisted),
     (AS_EvictedDevice, AS_Retired), (AS_EvictedDevice, AS_Terminal),
     (AS_EvictedHost, AS_Persisted), (AS_EvictedHost, AS_Retired),
     (AS_EvictedHost, AS_Terminal), (AS_Invalidated, AS_Retired),
     (AS_Invalidated, AS_Terminal), (AS_Corrupt, AS_Failed),
     (AS_Corrupt, AS_Retired), (AS_Corrupt, AS_Terminal),
     (AS_Failed, AS_Retired), (AS_Failed, AS_Terminal),
     (AS_Retired, AS_Terminal)]"

definition can_transition :: "ArtifactState \<Rightarrow> ArtifactState \<Rightarrow> bool" where
  "can_transition from to \<longleftrightarrow> list_ex (\<lambda>p. fst p = from \<and> snd p = to) kTransitions"

definition is_terminal :: "ArtifactState \<Rightarrow> bool" where
  "is_terminal s \<longleftrightarrow> s = AS_Retired \<or> s = AS_Terminal \<or> s = AS_Failed \<or> s = AS_Corrupt \<or> s = AS_Invalidated"

definition is_poisoned :: "ArtifactState \<Rightarrow> bool" where
  "is_poisoned s \<longleftrightarrow> s = AS_Corrupt \<or> s = AS_Failed \<or> s = AS_Invalidated \<or> s = AS_Retired \<or> s = AS_Terminal"

definition is_eligible :: "ArtifactState \<Rightarrow> bool" where
  "is_eligible s \<longleftrightarrow> s = AS_Valid \<or> s = AS_ResidentHost \<or> s = AS_ResidentDevice \<or> s = AS_Persisted
     \<or> s = AS_Leasing \<or> s = AS_InUse"

definition can_start :: "ArtifactState \<Rightarrow> bool" where
  "can_start s \<longleftrightarrow> s = AS_Discovered \<or> s = AS_Building"

definition transition_reason :: "ArtifactState \<Rightarrow> ArtifactState \<Rightarrow> string" where
  "transition_reason from to =
     (if from = to then ''self''
      else if \<not> can_transition from to then ''illegal''
      else if to = AS_Building then ''build requested''
      else if to = AS_Built then ''compile produced artifact bytes''
      else if to = AS_Validating then ''validation staged''
      else if to = AS_Valid then ''validation passed''
      else if to = AS_ResidentHost then ''host image loaded''
      else if to = AS_ResidentDevice then ''device module loaded''
      else if to = AS_Persisted then ''persisted to storage''
      else if to = AS_Leasing then ''lease acquired''
      else if to = AS_InUse then ''executing''
      else if to = AS_DemotionPending then ''demotion scheduled''
      else if to = AS_EvictionPending then ''eviction scheduled''
      else if to = AS_EvictedDevice then ''device image evicted''
      else if to = AS_EvictedHost then ''host image evicted''
      else if to = AS_Invalidated then ''invalidated''
      else if to = AS_Corrupt then ''corruption detected''
      else if to = AS_Failed then ''failure''
      else if to = AS_Retired then ''retired''
      else if to = AS_Terminal then ''terminal''
      else ''transition'')"

text \<open>
  \<^verbatim>\<open>ArtifactLifecycle::transition\<close>: the state after the call comes with the result.
\<close>

definition lifecycle_transition :: "ArtifactState \<Rightarrow> ArtifactState \<Rightarrow> ArtifactState result \<times> ArtifactState" where
  "lifecycle_transition s to =
     (if \<not> can_transition s to
      then (fail EC_BadStateTransition
              (''illegal transition '' @ artifact_state_name s @ '' -> '' @ artifact_state_name to), s)
      else (Inr to, to))"

subsection \<open>The transition graph\<close>

text \<open>The table as a function of its first component, which is what the simplifier computes with.\<close>

lemma can_transition_iff: "can_transition from to \<longleftrightarrow> (from, to) \<in> set kTransitions"
  by (force simp: can_transition_def list_ex_iff)

lemma successors:
  "can_transition AS_Discovered t \<longleftrightarrow> t = AS_Building \<or> t = AS_Invalidated \<or> t = AS_Corrupt \<or> t = AS_Failed \<or> t = AS_Retired \<or> t = AS_Terminal"
  "can_transition AS_Building t \<longleftrightarrow> t = AS_Built \<or> t = AS_Failed \<or> t = AS_Corrupt \<or> t = AS_Invalidated \<or> t = AS_Terminal"
  "can_transition AS_Built t \<longleftrightarrow> t = AS_Validating \<or> t = AS_Invalidated \<or> t = AS_Corrupt \<or> t = AS_Retired \<or> t = AS_Failed \<or> t = AS_Terminal"
  "can_transition AS_Validating t \<longleftrightarrow> t = AS_Valid \<or> t = AS_Failed \<or> t = AS_Corrupt \<or> t = AS_Invalidated \<or> t = AS_Terminal"
  "can_transition AS_Valid t \<longleftrightarrow> t = AS_Loading \<or> t = AS_Persisted \<or> t = AS_Leasing \<or> t = AS_InUse \<or> t = AS_DemotionPending \<or> t = AS_EvictionPending \<or> t = AS_Invalidated \<or> t = AS_Retired \<or> t = AS_Corrupt \<or> t = AS_Terminal"
  "can_transition AS_Loading t \<longleftrightarrow> t = AS_ResidentHost \<or> t = AS_ResidentDevice \<or> t = AS_Failed \<or> t = AS_Corrupt \<or> t = AS_Invalidated \<or> t = AS_Terminal"
  "can_transition AS_ResidentHost t \<longleftrightarrow> t = AS_ResidentDevice \<or> t = AS_Persisted \<or> t = AS_DemotionPending \<or> t = AS_EvictionPending \<or> t = AS_EvictedHost \<or> t = AS_Invalidated \<or> t = AS_Corrupt \<or> t = AS_Retired \<or> t = AS_Terminal"
  "can_transition AS_ResidentDevice t \<longleftrightarrow> t = AS_ResidentHost \<or> t = AS_DemotionPending \<or> t = AS_EvictionPending \<or> t = AS_EvictedDevice \<or> t = AS_Invalidated \<or> t = AS_Corrupt \<or> t = AS_Retired \<or> t = AS_Terminal"
  "can_transition AS_Persisted t \<longleftrightarrow> t = AS_ResidentHost \<or> t = AS_Valid \<or> t = AS_EvictionPending \<or> t = AS_Invalidated \<or> t = AS_Corrupt \<or> t = AS_Retired \<or> t = AS_Terminal"
  "can_transition AS_Leasing t \<longleftrightarrow> t = AS_InUse \<or> t = AS_DemotionPending \<or> t = AS_Invalidated \<or> t = AS_Retired \<or> t = AS_Terminal"
  "can_transition AS_InUse t \<longleftrightarrow> t = AS_Leasing \<or> t = AS_DemotionPending \<or> t = AS_Invalidated \<or> t = AS_Retired \<or> t = AS_Terminal"
  "can_transition AS_DemotionPending t \<longleftrightarrow> t = AS_EvictionPending \<or> t = AS_Invalidated \<or> t = AS_Retired \<or> t = AS_Terminal"
  "can_transition AS_EvictionPending t \<longleftrightarrow> t = AS_EvictedDevice \<or> t = AS_EvictedHost \<or> t = AS_Invalidated \<or> t = AS_Retired \<or> t = AS_Terminal"
  "can_transition AS_EvictedDevice t \<longleftrightarrow> t = AS_Persisted \<or> t = AS_Retired \<or> t = AS_Terminal"
  "can_transition AS_EvictedHost t \<longleftrightarrow> t = AS_Persisted \<or> t = AS_Retired \<or> t = AS_Terminal"
  "can_transition AS_Invalidated t \<longleftrightarrow> t = AS_Retired \<or> t = AS_Terminal"
  "can_transition AS_Corrupt t \<longleftrightarrow> t = AS_Failed \<or> t = AS_Retired \<or> t = AS_Terminal"
  "can_transition AS_Failed t \<longleftrightarrow> t = AS_Retired \<or> t = AS_Terminal"
  "can_transition AS_Retired t \<longleftrightarrow> t = AS_Terminal"
  "can_transition AS_Terminal t \<longleftrightarrow> False"
  by (simp_all add: can_transition_def kTransitions_def eq_commute [of _ t])

inductive step :: "ArtifactState \<Rightarrow> ArtifactState \<Rightarrow> bool" where
  step: "can_transition s t \<Longrightarrow> step s t"

inductive_cases stepE [elim!]: "step s t"
inductive_simps step_iff: "step s t"

text \<open>A run is the sequence of states an artifact goes through, oldest first.\<close>

fun run :: "ArtifactState list \<Rightarrow> bool" where
  "run (s # t # ss) \<longleftrightarrow> can_transition s t \<and> run (t # ss)"
| "run _ \<longleftrightarrow> True"

lemma run_step: "run (s # ss) \<Longrightarrow> t \<in> set (s # ss) \<Longrightarrow> step\<^sup>*\<^sup>* s t"
proof (induction ss arbitrary: s)
  case (Cons u ss)
  then show ?case by (auto intro: step.step converse_rtranclp_into_rtranclp)
qed simp

lemma terminal_eq_poisoned: "is_terminal s = is_poisoned s"
  by (auto simp: is_terminal_def is_poisoned_def)

lemma poisoned_not_eligible: "is_poisoned s \<Longrightarrow> \<not> is_eligible s"
  by (auto simp: is_poisoned_def is_eligible_def)

lemma poisoned_step: "can_transition s t \<Longrightarrow> is_poisoned s \<Longrightarrow> is_poisoned t"
  by (auto simp: is_poisoned_def successors)

lemma poisoned_reach: "step\<^sup>*\<^sup>* s t \<Longrightarrow> is_poisoned s \<Longrightarrow> is_poisoned t"
  by (induction rule: rtranclp_induct) (auto dest: poisoned_step)

lemma terminal_stuck: "\<not> can_transition AS_Terminal t"
  by (simp add: can_transition_def kTransitions_def)

lemma to_terminal: "s \<noteq> AS_Terminal \<Longrightarrow> can_transition s AS_Terminal"
  by (cases s) (simp_all add: successors)

text \<open>States before the verdict of the validation.\<close>

definition unvalidated :: "ArtifactState \<Rightarrow> bool" where
  "unvalidated s \<longleftrightarrow> s = AS_Discovered \<or> s = AS_Building \<or> s = AS_Built"

lemma unvalidated_step:
  "can_transition s t \<Longrightarrow> unvalidated s \<Longrightarrow> unvalidated t \<or> t = AS_Validating \<or> is_poisoned t"
  by (auto simp: unvalidated_def successors is_poisoned_def)

lemma poisoned_run: "run (s # ss) \<Longrightarrow> is_poisoned s \<Longrightarrow> t \<in> set (s # ss) \<Longrightarrow> is_poisoned t"
  using poisoned_reach run_step by blast

lemma run_validating:
  "run (s # ss) \<Longrightarrow> unvalidated s \<Longrightarrow> is_eligible t \<Longrightarrow> t \<in> set ss \<Longrightarrow> AS_Validating \<in> set ss"
proof (induction ss arbitrary: s)
  case (Cons u ss)
  then have "unvalidated u \<or> u = AS_Validating \<or> is_poisoned u" by (auto dest: unvalidated_step)
  moreover have "\<not> (unvalidated u \<and> is_eligible u)" by (auto simp: unvalidated_def is_eligible_def)
  ultimately show ?case
    using Cons poisoned_run [of u ss t] poisoned_not_eligible [of t] by auto
qed simp

subsection \<open>Properties\<close>

text \<open>
  Poisoning is permanent: along every sequence of legal transitions an artifact that is
  corrupt, failed, invalidated, retired or terminal stays in these states, so it is never
  eligible for use again.
\<close>

theorem poisoned_forever:
  assumes "step\<^sup>*\<^sup>* s t" and "is_poisoned s"
  shows "is_poisoned t \<and> \<not> is_eligible t"
  using poisoned_reach [OF assms] poisoned_not_eligible by simp

theorem poisoned_forever_witness: "is_poisoned AS_Terminal \<and> \<not> is_eligible AS_Terminal"
proof (rule poisoned_forever)
  show "step\<^sup>*\<^sup>* AS_Corrupt AS_Terminal"
    by (rule r_into_rtranclp) (simp add: step_iff successors)
qed (simp add: is_poisoned_def)

text \<open>
  No artifact becomes eligible without validation: every run of legal transitions from
  \<^verbatim>\<open>Discovered\<close> to an eligible state goes through \<^verbatim>\<open>Validating\<close>.
\<close>

theorem eligible_only_through_validation:
  assumes "run (AS_Discovered # ss)" and "t \<in> set ss" and "is_eligible t"
  shows "AS_Validating \<in> set ss"
  using assms by (intro run_validating [of AS_Discovered ss t]) (simp_all add: unvalidated_def)

theorem eligible_only_through_validation_witness:
  "AS_Validating \<in> set [AS_Building, AS_Built, AS_Validating, AS_Valid]"
  by (rule eligible_only_through_validation [of _ AS_Valid])
    (simp_all add: successors is_eligible_def)

text \<open>
  The lifecycle always can be closed and then is: every state but \<^verbatim>\<open>Terminal\<close> has the
  transition to \<^verbatim>\<open>Terminal\<close>, and \<^verbatim>\<open>Terminal\<close> has none at all, so each transition out of it is
  reported as an error that leaves the state.
\<close>

theorem terminal_reachable_and_final:
  "(\<forall>s. s \<noteq> AS_Terminal \<longrightarrow> lifecycle_transition s AS_Terminal = (Inr AS_Terminal, AS_Terminal)) \<and>
   (\<forall>t. lifecycle_transition AS_Terminal t =
     (fail EC_BadStateTransition (''illegal transition terminal -> '' @ artifact_state_name t), AS_Terminal))"
  by (simp add: lifecycle_transition_def to_terminal terminal_stuck)

theorem terminal_reachable_and_final_witness:
  "lifecycle_transition AS_InUse AS_Terminal = (Inr AS_Terminal, AS_Terminal)"
  using terminal_reachable_and_final by simp

end
