(* ===== verification/KC_Stats.thy ===== *)
theory KC_Stats
  imports KC_Descriptors
begin

text \<open>
  Observability (\<^verbatim>\<open>include/kernelcache/stats.hpp\<close>, \<^verbatim>\<open>src/stats.cpp\<close>): the 64-bit counters of
  \<^verbatim>\<open>Stats\<close> and the bounded event history. The history keeps exactly the newest events.
\<close>

record Stats =
  lookups :: u64
  exact_hits :: u64
  compatible_hits :: u64
  persistent_hits :: u64
  host_hits :: u64
  device_hits :: u64
  misses :: u64
  builds :: u64
  build_dedup :: u64
  validation_failures :: u64
  invalidations :: u64
  evictions :: u64
  reloads :: u64
  compile_ns :: u64
  validation_ns :: u64
  load_ns :: u64
  lookup_ns :: u64
  bytes_persisted :: u64
  bytes_host_resident :: u64
  bytes_device_resident :: u64
  bytes_device_estimated :: bool
  avoided_compile_count :: u64
  avoided_compile_ns :: u64
  reuse_count :: u64
  corruption_count :: u64
  failed_builds :: u64
  failed_loads :: u64
  stale_generation_rejections :: u64
  persistent_reloads :: u64
  cuda_exec_validations :: u64
  active_builds :: u64
  active_validations :: u64
  active_leases :: u64
  active_device_loads :: u64

definition Stats_new :: Stats where
  "Stats_new = \<lparr>lookups = 0, exact_hits = 0, compatible_hits = 0, persistent_hits = 0, host_hits = 0,
     device_hits = 0, misses = 0, builds = 0, build_dedup = 0, validation_failures = 0,
     invalidations = 0, evictions = 0, reloads = 0, compile_ns = 0, validation_ns = 0, load_ns = 0,
     lookup_ns = 0, bytes_persisted = 0, bytes_host_resident = 0, bytes_device_resident = 0,
     bytes_device_estimated = False, avoided_compile_count = 0, avoided_compile_ns = 0,
     reuse_count = 0, corruption_count = 0, failed_builds = 0, failed_loads = 0,
     stale_generation_rejections = 0, persistent_reloads = 0, cuda_exec_validations = 0,
     active_builds = 0, active_validations = 0, active_leases = 0, active_device_loads = 0\<rparr>"

text \<open>
  \<^verbatim>\<open>Stats::hit_ratio\<close> up to its final floating-point division: no value for the early return of
  \<^verbatim>\<open>0.0\<close>, otherwise the two 64-bit operands of the division.
\<close>

definition hit_ratio :: "Stats \<Rightarrow> (u64 \<times> u64) option" where
  "hit_ratio st =
     (let denominator = exact_hits st + compatible_hits st + persistent_hits st
                        + host_hits st + device_hits st + misses st
      in if denominator = 0 then None
         else Some (exact_hits st + compatible_hits st + persistent_hits st + host_hits st + device_hits st,
                    denominator))"

record Event =
  ev_seq :: u64
  ev_time_ns :: u64
  ev_type :: string
  ev_message :: string

record EventHistory =
  events :: "Event list"
  ev_max :: nat
  seq_counter :: u64

definition EventHistory_new :: "nat \<Rightarrow> EventHistory" where
  "EventHistory_new m = \<lparr>events = [], ev_max = m, seq_counter = 0\<rparr>"

text \<open>The loop that pops the oldest events while the history is too long.\<close>

fun pop_excess :: "nat \<Rightarrow> Event list \<Rightarrow> Event list" where
  "pop_excess m (e # es) = (if length (e # es) > m then pop_excess m es else e # es)"
| "pop_excess m [] = []"

definition ev_record :: "EventHistory \<Rightarrow> Event \<Rightarrow> EventHistory" where
  "ev_record h e =
     (let n = seq_counter h + 1
      in h\<lparr>seq_counter := n, events := pop_excess (ev_max h) (events h @ [e\<lparr>ev_seq := n\<rparr>])\<rparr>)"

definition recent :: "EventHistory \<Rightarrow> nat \<Rightarrow> Event list" where
  "recent h limit =
     (let n = min limit (length (events h)) in drop (length (events h) - n) (events h))"

definition history_size :: "EventHistory \<Rightarrow> nat" where
  "history_size h = length (events h)"

subsection \<open>The history against the log of everything recorded\<close>

definition last_n :: "nat \<Rightarrow> 'a list \<Rightarrow> 'a list" where
  "last_n n xs = drop (length xs - n) xs"

lemma length_last_n [simp]: "length (last_n n xs) = min n (length xs)"
  by (simp add: last_n_def min_def)

lemma last_n_snoc: "last_n n (last_n n xs @ [x]) = last_n n (xs @ [x])"
proof (cases "length xs \<le> n")
  case False
  then show ?thesis by (cases n) (simp_all add: last_n_def Suc_diff_Suc)
qed (simp add: last_n_def)

lemma pop_excess_last_n: "pop_excess m es = last_n m es"
  by (induction m es rule: pop_excess.induct) (simp_all add: last_n_def Suc_diff_le)

text \<open>The log: every event ever recorded, stamped with its sequence number.\<close>

definition stamp :: "u64 \<Rightarrow> Event list \<Rightarrow> Event list" where
  "stamp n es = map (\<lambda>(i, e). e\<lparr>ev_seq := n + word_of_nat (Suc i)\<rparr>) (enumerate 0 es)"

lemma stamp_snoc: "stamp n (es @ [e]) = stamp n es @ [e\<lparr>ev_seq := n + word_of_nat (Suc (length es))\<rparr>]"
  by (simp add: stamp_def enumerate_append_eq)

lemma fold_ev_record:
  "fold (\<lambda>e h. ev_record h e) es (EventHistory_new m) =
     \<lparr>events = last_n m (stamp 0 es), ev_max = m, seq_counter = word_of_nat (length es)\<rparr>"
proof (induction es rule: rev_induct)
  case Nil
  show ?case by (simp add: EventHistory_new_def stamp_def last_n_def)
next
  case (snoc e es)
  then show ?case
    by (simp add: ev_record_def pop_excess_last_n last_n_snoc stamp_snoc Let_def add.commute)
qed

subsection \<open>Properties\<close>

text \<open>
  The history is a window on the full log: after any sequence of \<^verbatim>\<open>record\<close> calls on a new
  history of capacity \<open>m\<close>, \<^verbatim>\<open>recent(limit)\<close> returns the last \<open>min limit m\<close> recorded events in
  order, each carrying the number of its call.
\<close>

theorem recent_is_log_suffix:
  "recent (fold (\<lambda>e h. ev_record h e) es (EventHistory_new m)) limit
     = last_n (min limit m) (stamp 0 es)"
  by (simp add: fold_ev_record recent_def Let_def) (simp add: last_n_def stamp_def min_def)

end
