(* ===== verification/KC_Artifact.thy ===== *)
theory KC_Artifact
  imports Complex_Main KC_Compatibility KC_Lifecycle KC_Stats
begin

text \<open>
  The data the cache works on: artifact descriptors and handles
  (\<^verbatim>\<open>include/kernelcache/artifact.hpp\<close>), the backend interface (\<^verbatim>\<open>backend.hpp\<close>), lookup requests
  and results (\<^verbatim>\<open>lookup.hpp\<close>), invalidation requests (\<^verbatim>\<open>invalidation.hpp\<close>), residency policy
  (\<^verbatim>\<open>residency.hpp\<close>), stored artifacts (\<^verbatim>\<open>persistence.hpp\<close>), the configuration
  (\<^verbatim>\<open>kernel_cache.hpp\<close>) and the cache's internal record of an artifact (\<^verbatim>\<open>src/internal.hpp\<close>).
  Fields keep the source's names, prefixed where two structs use the same name.
\<close>

record ArtifactDescriptor =
  ad_id :: ArtifactId
  ad_generation :: u64
  ad_key :: KernelCompatibilityKey
  ad_format :: string
  ad_namespace :: string
  ad_backend :: string
  ad_sizes :: ArtifactSizes
  ad_compilation :: CompilationDescriptor
  ad_validation :: ValidationDescriptor
  ad_provenance :: ProvenanceDescriptor
  bytes_sha256 :: string
  published_at_ns :: u64
  kernel_count :: u32

definition ArtifactDescriptor_new :: ArtifactDescriptor where
  "ArtifactDescriptor_new = \<lparr>ad_id = default_id, ad_generation = 0, ad_key = KernelCompatibilityKey_new,
     ad_format = [], ad_namespace = [], ad_backend = [], ad_sizes = ArtifactSizes_new,
     ad_compilation = CompilationDescriptor_new, ad_validation = ValidationDescriptor_new,
     ad_provenance = ProvenanceDescriptor_new, bytes_sha256 = [], published_at_ns = 0, kernel_count = 1\<rparr>"

text \<open>
  \<^verbatim>\<open>LoadedModuleHandle\<close> is an opaque \<^verbatim>\<open>shared_ptr<void>\<close>: a number stands for the module it points
  to, and a null handle is \<^const>\<open>None\<close>.
\<close>

type_synonym LoadedModule = nat
type_synonym LoadedModuleHandle = "LoadedModule option"

record ArtifactHandle =
  h_id :: ArtifactId
  h_generation :: u64
  h_load_generation :: u64
  h_residency_generation :: u64
  h_format :: string
  h_backend :: string
  h_native_handle :: LoadedModuleHandle
  h_namespace :: string
  device_resident :: bool

subsection \<open>Backends\<close>

record BuildRequest =
  br_key :: KernelCompatibilityKey
  br_source :: string
  br_backend :: string
  br_device :: DeviceDescriptor
  br_compile :: CompilationDescriptor
  br_namespace :: string
  logical_operation :: string

record BuildResult =
  bres_id :: ArtifactId
  bres_generation :: u64
  artifact_format_name :: string
  bres_bytes :: bytes
  bres_sizes :: ArtifactSizes
  bres_provenance :: ProvenanceDescriptor
  bres_compilation :: CompilationDescriptor
  build_seconds :: rat
  bres_kernel_count :: u32

definition BuildResult_new :: BuildResult where
  "BuildResult_new = \<lparr>bres_id = default_id, bres_generation = 0, artifact_format_name = [], bres_bytes = [],
     bres_sizes = ArtifactSizes_new, bres_provenance = ProvenanceDescriptor_new,
     bres_compilation = CompilationDescriptor_new, build_seconds = 0, bres_kernel_count = 0\<rparr>"

text \<open>
  The three virtual interfaces. A backend's code is a parameter of the cache; the CPU backend
  is modelled in its own theory.
\<close>

record KernelBuilder =
  can_build :: "KernelCompatibilityKey \<Rightarrow> bool"
  build_fn :: "BuildRequest \<Rightarrow> BuildResult result"

type_synonym KernelValidator =
  "KernelCompatibilityKey \<Rightarrow> bytes \<Rightarrow> DeviceDescriptor \<Rightarrow> ValidationDescriptor result"

record KernelLoader =
  load_fn :: "KernelCompatibilityKey \<Rightarrow> bytes \<Rightarrow> DeviceDescriptor \<Rightarrow> LoadedModuleHandle result"
  unload_fn :: "LoadedModuleHandle \<Rightarrow> unit result"
  execute_fn :: "LoadedModuleHandle \<Rightarrow> bytes \<Rightarrow> unit result"
  resident_footprint :: "LoadedModuleHandle \<Rightarrow> u64 \<times> bool"

record KernelBackend =
  be_name :: string
  builder :: "KernelBuilder option"
  validator :: "KernelValidator option"
  loader :: "KernelLoader option"

subsection \<open>Lookup requests and results\<close>

datatype LookupOutcome =
    LO_ExactHit | LO_CompatibleHit | LO_HostResidentHit | LO_DeviceResidentHit | LO_PersistedHit
  | LO_MissRequiresBuild | LO_MissIncompatibility | LO_MissInvalidated | LO_MissCorrupt
  | LO_MissResidencyPressure | LO_MissPolicy

primrec lookup_outcome_name :: "LookupOutcome \<Rightarrow> string" where
  "lookup_outcome_name LO_ExactHit = ''exact-hit''"
| "lookup_outcome_name LO_CompatibleHit = ''compatible-hit''"
| "lookup_outcome_name LO_HostResidentHit = ''host-resident-hit''"
| "lookup_outcome_name LO_DeviceResidentHit = ''device-resident-hit''"
| "lookup_outcome_name LO_PersistedHit = ''persisted-hit''"
| "lookup_outcome_name LO_MissRequiresBuild = ''miss-requires-build''"
| "lookup_outcome_name LO_MissIncompatibility = ''miss-incompatibility''"
| "lookup_outcome_name LO_MissInvalidated = ''miss-invalidated''"
| "lookup_outcome_name LO_MissCorrupt = ''miss-corrupt''"
| "lookup_outcome_name LO_MissResidencyPressure = ''miss-residency-pressure''"
| "lookup_outcome_name LO_MissPolicy = ''miss-policy''"

record KernelLookupRequest =
  req_key :: KernelCompatibilityKey
  req_device :: DeviceDescriptor
  req_namespace :: string
  desired_tier :: ResidencyTier
  req_policy :: CompatibilityPolicy
  allow_miss_build :: bool
  force_validate :: bool
  req_pin :: bool
  alignment_hint :: u32
  req_source :: string

definition KernelLookupRequest_new :: KernelLookupRequest where
  "KernelLookupRequest_new = \<lparr>req_key = KernelCompatibilityKey_new, req_device = DeviceDescriptor_new,
     req_namespace = [], desired_tier = RT_HostResident, req_policy = CompatibilityPolicy_new,
     allow_miss_build = False, force_validate = False, req_pin = False, alignment_hint = 0, req_source = []\<rparr>"

record KernelLookupResult =
  outcome :: LookupOutcome
  lr_artifact :: "ArtifactId option"
  lr_generation :: "u64 option"
  lr_decision :: KernelCompatibilityDecision
  lr_notes :: "string list"
  lr_lookup_ns :: u64
  from_cache :: bool

definition KernelLookupResult_new :: KernelLookupResult where
  "KernelLookupResult_new = \<lparr>outcome = LO_MissRequiresBuild, lr_artifact = None, lr_generation = None,
     lr_decision = KernelCompatibilityDecision_new, lr_notes = [], lr_lookup_ns = 0, from_cache = False\<rparr>"

definition is_hit :: "KernelLookupResult \<Rightarrow> bool" where
  "is_hit r \<longleftrightarrow> outcome r = LO_ExactHit \<or> outcome r = LO_CompatibleHit \<or> outcome r = LO_HostResidentHit
     \<or> outcome r = LO_DeviceResidentHit \<or> outcome r = LO_PersistedHit"

subsection \<open>Invalidation requests\<close>

datatype InvalidationTarget =
    IT_ArtifactId | IT_KernelId | IT_CompatibilityKey | IT_Operation | IT_CompilerGeneration
  | IT_RuntimeGeneration | IT_Architecture | IT_ModelRevision | IT_OperatorRevision | IT_Namespace | IT_All

primrec invalidation_target_name :: "InvalidationTarget \<Rightarrow> string" where
  "invalidation_target_name IT_ArtifactId = ''artifact-id''"
| "invalidation_target_name IT_KernelId = ''kernel-id''"
| "invalidation_target_name IT_CompatibilityKey = ''compatibility-key''"
| "invalidation_target_name IT_Operation = ''operation''"
| "invalidation_target_name IT_CompilerGeneration = ''compiler-generation''"
| "invalidation_target_name IT_RuntimeGeneration = ''runtime-generation''"
| "invalidation_target_name IT_Architecture = ''architecture''"
| "invalidation_target_name IT_ModelRevision = ''model-revision''"
| "invalidation_target_name IT_OperatorRevision = ''operator-revision''"
| "invalidation_target_name IT_Namespace = ''namespace''"
| "invalidation_target_name IT_All = ''all''"

record InvalidationRequest =
  target :: InvalidationTarget
  ir_artifact_lo :: "u64 option"
  ir_artifact_hi :: "u64 option"
  kernel_lo :: "u64 option"
  kernel_hi :: "u64 option"
  ir_key :: "KernelCompatibilityKey option"
  ir_operation :: string
  compiler_generation :: string
  runtime_generation :: string
  architecture :: string
  ir_model_revision :: string
  ir_operator_revision :: string
  ir_namespace :: string
  ir_reason :: string
  hard :: bool

definition InvalidationRequest_new :: InvalidationRequest where
  "InvalidationRequest_new = \<lparr>target = IT_ArtifactId, ir_artifact_lo = None, ir_artifact_hi = None,
     kernel_lo = None, kernel_hi = None, ir_key = None, ir_operation = [], compiler_generation = [],
     runtime_generation = [], architecture = [], ir_model_revision = [], ir_operator_revision = [],
     ir_namespace = [], ir_reason = [], hard = False\<rparr>"

record InvalidationOutcome =
  io_target :: InvalidationTarget
  applied :: bool
  affected :: u32
  affected_ids :: "ArtifactId list"
  io_message :: string
  io_hard :: bool

subsection \<open>Policies, storage and configuration\<close>

text \<open>
  The \<^verbatim>\<open>double\<close> members of the residency policy and of the eviction score are exact rational
  numbers here: rounding is not modelled.
\<close>

record ResidencyPolicy =
  host_budget_bytes :: u64
  device_budget_bytes :: u64
  apply_host_budget :: bool
  apply_device_budget :: bool
  compile_cost_aware :: bool
  reload_cost_aware :: bool
  size_aware :: bool
  clock_based :: bool
  frequency_based :: bool
  expected_reuse_weight :: rat
  rp_namespace_priority :: rat
  policy_name :: string

definition ResidencyPolicy_new :: ResidencyPolicy where
  "ResidencyPolicy_new = \<lparr>host_budget_bytes = 2 ^ 30, device_budget_bytes = 2 ^ 30, apply_host_budget = True,
     apply_device_budget = True, compile_cost_aware = True, reload_cost_aware = True, size_aware = True,
     clock_based = True, frequency_based = True, expected_reuse_weight = 1, rp_namespace_priority = 1,
     policy_name = ''default''\<rparr>"

record StoredArtifact =
  sa_id :: ArtifactId
  sa_generation :: u64
  sa_key :: KernelCompatibilityKey
  sa_bytes :: bytes
  sa_sizes :: ArtifactSizes
  sa_provenance :: ProvenanceDescriptor
  sa_format :: string
  stored_ns :: u64
  sa_sha256_hex :: "string option"
  sa_namespace :: string

definition StoredArtifact_new :: StoredArtifact where
  "StoredArtifact_new = \<lparr>sa_id = default_id, sa_generation = 0, sa_key = KernelCompatibilityKey_new,
     sa_bytes = [], sa_sizes = ArtifactSizes_new, sa_provenance = ProvenanceDescriptor_new, sa_format = [],
     stored_ns = 0, sa_sha256_hex = None, sa_namespace = []\<rparr>"

record KernelCacheConfig =
  cfg_namespace :: string
  persistence_root :: string
  persistence_enabled :: bool
  residency :: ResidencyPolicy
  compatibility :: CompatibilityPolicy
  max_artifacts :: u64
  max_build_concurrency :: u64
  event_history_cap :: u64
  min_cache_ms :: nat
  configured_compile_ms :: u64
  configured_reload_ms :: u64
  configured_marks :: bool

definition KernelCacheConfig_new :: KernelCacheConfig where
  "KernelCacheConfig_new = \<lparr>cfg_namespace = [], persistence_root = [], persistence_enabled = True,
     residency = ResidencyPolicy_new, compatibility = CompatibilityPolicy_new, max_artifacts = 2 ^ 20,
     max_build_concurrency = 8, event_history_cap = 4096, min_cache_ms = 0, configured_compile_ms = 100,
     configured_reload_ms = 5, configured_marks = True\<rparr>"

subsection \<open>The record of an artifact\<close>

record ArtifactRecord =
  rec_id :: ArtifactId
  rec_generation :: u64
  rec_key :: KernelCompatibilityKey
  rec_desc :: ArtifactDescriptor
  rec_bytes :: bytes
  rec_state :: ArtifactState
  rec_tier :: ResidencyTier
  last_access_ns :: u64
  access_count :: u64
  rec_reuse_count :: u64
  pin_count :: u64
  lease_count :: u64
  native_handle :: LoadedModuleHandle
  load_generation :: u64
  residency_generation :: u64
  device_footprint :: u64
  device_footprint_estimated :: bool
  persistent :: bool
  tenant :: string
  rec_operation :: string
  rec_arch :: string
  rec_backend :: string
  kernel_id :: KernelId
  validated :: bool
  invalidated :: bool
  corrupt :: bool
  compile_cost_ns :: u64
  reload_cost_ns :: u64
  device_bytes_used :: u64

definition kernel_id_of :: "bytes \<Rightarrow> KernelId" where
  "kernel_id_of d = mk_id (be_word (take 8 d)) (be_word (take 8 (drop 8 d)))"

text \<open>
  \<^verbatim>\<open>make_record\<close>; the reading of the clock is its last argument. The private digest of a key that was
  never finalized is all zeros, so the kernel id of such a record is the default one.
\<close>

definition make_record :: "ArtifactDescriptor \<Rightarrow> bytes \<Rightarrow> u64 \<Rightarrow> ArtifactRecord" where
  "make_record desc b now =
     \<lparr>rec_id = ad_id desc, rec_generation = ad_generation desc, rec_key = ad_key desc, rec_desc = desc,
      rec_bytes = b, rec_state = AS_Valid, rec_tier = RT_MetadataOnly, last_access_ns = now,
      access_count = 0, rec_reuse_count = 0, pin_count = 0, lease_count = 0, native_handle = None,
      load_generation = 0, residency_generation = 0, device_footprint = 0,
      device_footprint_estimated = True, persistent = False, tenant = ad_namespace desc,
      rec_operation = operation (ad_key desc), rec_arch = arch (ad_key desc), rec_backend = ad_backend desc,
      kernel_id = kernel_id_of (k_digest (ad_key desc)), validated = all_passed (ad_validation desc),
      invalidated = False, corrupt = False, compile_cost_ns = 0, reload_cost_ns = 0, device_bytes_used = 0\<rparr>"

definition derive_artifact_id :: "bytes \<Rightarrow> u64 \<Rightarrow> ArtifactId" where
  "derive_artifact_id b gen = mk_id gen (be_word (take 8 (digest b)))"

text \<open>The guarded state change that every operation writes as an \<^verbatim>\<open>if (can_transition ...)\<close>.\<close>

definition try_state :: "ArtifactState \<Rightarrow> ArtifactRecord \<Rightarrow> ArtifactRecord" where
  "try_state to r = (if can_transition (rec_state r) to then r\<lparr>rec_state := to\<rparr> else r)"

subsection \<open>Consistency of a record's state with its flags\<close>

text \<open>
  The states a published record can be in. An invalidated record is never in a state from
  which it could be leased.
\<close>

definition published_state :: "ArtifactState \<Rightarrow> bool" where
  "published_state s \<longleftrightarrow> s \<in> {AS_Valid, AS_Persisted, AS_ResidentHost, AS_ResidentDevice, AS_InUse,
     AS_EvictionPending, AS_EvictedDevice, AS_EvictedHost, AS_Invalidated, AS_Corrupt, AS_Retired}"

definition rec_ok :: "ArtifactRecord \<Rightarrow> bool" where
  "rec_ok r \<longleftrightarrow> published_state (rec_state r) \<and> (invalidated r \<longrightarrow> \<not> is_eligible (rec_state r))"

text \<open>The states that the operations try to enter.\<close>

definition used_target :: "ArtifactState \<Rightarrow> bool" where
  "used_target s \<longleftrightarrow> s \<in> {AS_Valid, AS_ResidentHost, AS_ResidentDevice, AS_InUse, AS_EvictionPending,
     AS_EvictedDevice, AS_EvictedHost, AS_Invalidated, AS_Corrupt, AS_Retired}"

lemma no_resurrection:
  "published_state s \<Longrightarrow> \<not> is_eligible s \<Longrightarrow> used_target t \<Longrightarrow> can_transition s t \<Longrightarrow> \<not> is_eligible t"
  by (auto simp: published_state_def used_target_def is_eligible_def successors)

lemma eligible_to_invalidated: "is_eligible s \<Longrightarrow> can_transition s AS_Invalidated"
  by (auto simp: is_eligible_def successors)

lemma rec_ok_try_state [intro]: "rec_ok r \<Longrightarrow> used_target t \<Longrightarrow> rec_ok (try_state t r)"
  using no_resurrection [of "rec_state r" t]
  by (auto simp: rec_ok_def try_state_def used_target_def published_state_def)

lemma try_state_frame [simp]:
  "rec_id (try_state t r) = rec_id r" "rec_key (try_state t r) = rec_key r"
  "rec_operation (try_state t r) = rec_operation r" "invalidated (try_state t r) = invalidated r"
  "corrupt (try_state t r) = corrupt r" "lease_count (try_state t r) = lease_count r"
  "pin_count (try_state t r) = pin_count r" "validated (try_state t r) = validated r"
  "rec_tier (try_state t r) = rec_tier r" "rec_generation (try_state t r) = rec_generation r"
  "persistent (try_state t r) = persistent r" "rec_bytes (try_state t r) = rec_bytes r"
  "native_handle (try_state t r) = native_handle r" "rec_desc (try_state t r) = rec_desc r"
  "load_generation (try_state t r) = load_generation r" "device_footprint (try_state t r) = device_footprint r"
  by (simp_all add: try_state_def)

end
