(* ===== verification/KC_Record.thy ===== *)
theory KC_Record
  imports KC_Artifact
begin

text \<open>
  What the cache does to one artifact record: every block of the source that changes a record
  under the master lock is one function here. The locale \<^verbatim>\<open>record_update\<close> is the contract they
  all keep, and each of them is an interpretation of it.
\<close>

text \<open>\<^verbatim>\<open>grant_lease\<close> (\<^verbatim>\<open>src/leases.cpp\<close>).\<close>

definition grant_update :: "u64 \<Rightarrow> bool \<Rightarrow> ArtifactRecord \<Rightarrow> ArtifactRecord" where
  "grant_update now pin r =
     (let r = r\<lparr>lease_count := lease_count r + 1, access_count := access_count r + 1,
                last_access_ns := now, rec_reuse_count := rec_reuse_count r + 1\<rparr>;
          r = (if can_transition (rec_state r) AS_InUse \<and>
                  (rec_state r = AS_Valid \<or> rec_state r = AS_Persisted \<or>
                   rec_state r = AS_ResidentDevice \<or> rec_state r = AS_ResidentHost)
               then r\<lparr>rec_state := AS_InUse\<rparr> else r)
      in if pin then r\<lparr>pin_count := pin_count r + 1\<rparr> else r)"

text \<open>\<^verbatim>\<open>on_lease_release\<close> (\<^verbatim>\<open>src/cache.cpp\<close>): the count never goes below zero.\<close>

definition release_update :: "ArtifactRecord \<Rightarrow> ArtifactRecord" where
  "release_update r =
     (let r = (if lease_count r > 0 then r\<lparr>lease_count := lease_count r - 1\<rparr> else r)
      in if lease_count r = 0 \<and> (invalidated r \<or> corrupt r) then try_state AS_Retired r else r)"

definition touch_update :: "u64 \<Rightarrow> ArtifactRecord \<Rightarrow> ArtifactRecord" where
  "touch_update now r = r\<lparr>last_access_ns := now, rec_reuse_count := rec_reuse_count r + 1\<rparr>"

text \<open>The blocks of \<^verbatim>\<open>ensure_bytes\<close> and \<^verbatim>\<open>promote_to_tier\<close> (\<^verbatim>\<open>src/residency.cpp\<close>).\<close>

definition reload_update :: "bytes \<Rightarrow> ArtifactRecord \<Rightarrow> ArtifactRecord" where
  "reload_update b r = r\<lparr>rec_bytes := b, persistent := True\<rparr>"

definition device_update :: "LoadedModuleHandle \<Rightarrow> u64 \<times> bool \<Rightarrow> ArtifactRecord \<Rightarrow> ArtifactRecord" where
  "device_update h fp r =
     (try_state AS_ResidentDevice
        (r\<lparr>native_handle := h, load_generation := load_generation r + 1,
           residency_generation := residency_generation r + 1, device_footprint := fst fp,
           device_footprint_estimated := snd fp, device_bytes_used := fst fp\<rparr>))
     \<lparr>rec_tier := RT_DeviceResident\<rparr>"

definition host_update :: "ArtifactRecord \<Rightarrow> ArtifactRecord" where
  "host_update r =
     (let r = try_state AS_ResidentHost (r\<lparr>rec_tier := RT_HostResident\<rparr>)
      in r\<lparr>residency_generation := residency_generation r + 1\<rparr>)"

text \<open>The body of the loop of \<^verbatim>\<open>invalidate_impl\<close> for a record that is not invalidated yet.\<close>

definition invalidate_update :: "ArtifactRecord \<Rightarrow> ArtifactRecord" where
  "invalidate_update r =
     (let r = r\<lparr>invalidated := True\<rparr>
      in if rec_state r \<noteq> AS_Corrupt \<and> rec_state r \<noteq> AS_Failed \<and> rec_state r \<noteq> AS_Retired \<and>
            rec_state r \<noteq> AS_Terminal
         then try_state AS_Invalidated r else r)"

text \<open>The two locked blocks of \<^verbatim>\<open>evict_impl\<close>.\<close>

definition evict_begin_update :: "ArtifactRecord \<Rightarrow> ArtifactRecord" where
  "evict_begin_update r = try_state AS_EvictionPending r"

definition demoted_tier :: "ArtifactRecord \<Rightarrow> ResidencyTier" where
  "demoted_tier r = (if persistent r then RT_PersistentStorage else RT_MetadataOnly)"

definition evict_end_update :: "ArtifactRecord \<Rightarrow> ArtifactRecord" where
  "evict_end_update r =
     (let r = r\<lparr>native_handle := None, device_footprint := 0\<rparr>
      in if rec_tier r = RT_DeviceResident
           then (try_state AS_EvictedDevice r)\<lparr>rec_tier := demoted_tier r\<rparr>
         else if rec_tier r = RT_HostResident
           then (try_state AS_EvictedHost r)\<lparr>rec_tier := demoted_tier r, rec_bytes := [],
                  rec_desc := (rec_desc r)\<lparr>ad_sizes := (ad_sizes (rec_desc r))\<lparr>host_bytes := 0\<rparr>\<rparr>\<rparr>
         else r\<lparr>rec_tier := demoted_tier r\<rparr>)"

definition pin_update :: "ArtifactRecord \<Rightarrow> ArtifactRecord" where
  "pin_update r = r\<lparr>pin_count := pin_count r + 1\<rparr>"

definition unpin_update :: "ArtifactRecord \<Rightarrow> ArtifactRecord" where
  "unpin_update r = (if pin_count r > 0 then r\<lparr>pin_count := pin_count r - 1\<rparr> else r)"

text \<open>\<^verbatim>\<open>KernelCache::validate\<close>: the block after a verdict and the block after a failed call.\<close>

definition verdict_update :: "ValidationDescriptor \<Rightarrow> ArtifactRecord \<Rightarrow> ArtifactRecord" where
  "verdict_update vd r =
     (let r = r\<lparr>validated := all_passed vd, rec_desc := (rec_desc r)\<lparr>ad_validation := vd\<rparr>\<rparr>
      in if validated r \<and> can_transition (rec_state r) AS_Valid then r\<lparr>rec_state := AS_Valid\<rparr>
         else if \<not> validated r \<and> can_transition (rec_state r) AS_Corrupt
         then r\<lparr>rec_state := AS_Corrupt, corrupt := True\<rparr>
         else r)"

definition no_verdict_update :: "ArtifactRecord \<Rightarrow> ArtifactRecord" where
  "no_verdict_update r = try_state AS_Corrupt (r\<lparr>corrupt := True\<rparr>)"

definition unload_update :: "ArtifactRecord \<Rightarrow> ArtifactRecord" where
  "unload_update r =
     (let r = try_state AS_EvictedDevice (r\<lparr>native_handle := None, device_footprint := 0\<rparr>)
      in r\<lparr>rec_tier := demoted_tier r\<rparr>)"

text \<open>After a successful write to the persistent store in \<^verbatim>\<open>build_impl\<close>.\<close>

definition persisted_update :: "ArtifactRecord \<Rightarrow> ArtifactRecord" where
  "persisted_update r = r\<lparr>persistent := True, rec_tier := RT_PersistentStorage\<rparr>"

subsection \<open>The contract of a record update\<close>

text \<open>A record from which \<^verbatim>\<open>grant_lease\<close> would grant a lease.\<close>

definition usable :: "ArtifactRecord \<Rightarrow> bool" where
  "usable r \<longleftrightarrow> \<not> invalidated r \<and> \<not> corrupt r \<and> is_eligible (rec_state r)"

text \<open>
  The identity of a record never changes, its well-formedness is kept, and a record that
  cannot be leased never becomes leasable again.
\<close>

locale record_update =
  fixes f :: "ArtifactRecord \<Rightarrow> ArtifactRecord"
  assumes same_id: "rec_id (f r) = rec_id r"
    and same_key: "rec_key (f r) = rec_key r"
    and same_operation: "rec_operation (f r) = rec_operation r"
    and same_generation: "rec_generation (f r) = rec_generation r"
    and keeps_ok: "rec_ok r \<Longrightarrow> rec_ok (f r)"
    and keeps_dead: "rec_ok r \<Longrightarrow> \<not> usable r \<Longrightarrow> \<not> usable (f r)"
    and keeps_invalidated: "invalidated r \<Longrightarrow> invalidated (f r)"
begin

lemmas contract = same_id same_key same_operation same_generation

lemma usable_before: "rec_ok r \<Longrightarrow> usable (f r) \<Longrightarrow> usable r"
  using keeps_dead by blast

end

text \<open>Updates that also leave the lease count alone: all but granting and releasing a lease.\<close>

locale lease_neutral = record_update +
  assumes same_leases: "lease_count (f r) = lease_count r"

named_theorems record_defs \<open>definitions of the record updates\<close>

lemmas [record_defs] = grant_update_def release_update_def touch_update_def reload_update_def
  device_update_def host_update_def invalidate_update_def evict_begin_update_def evict_end_update_def
  pin_update_def unpin_update_def verdict_update_def no_verdict_update_def unload_update_def
  persisted_update_def Let_def

text \<open>How the updates move the state: by one transition of the table to a used target, or not at all.\<close>

definition moves :: "ArtifactRecord \<Rightarrow> ArtifactRecord \<Rightarrow> bool" where
  "moves r r' \<longleftrightarrow> rec_state r' = rec_state r \<or>
     used_target (rec_state r') \<and> can_transition (rec_state r) (rec_state r')"

lemma moves_ok: "moves r r' \<Longrightarrow> rec_ok r \<Longrightarrow> invalidated r' = invalidated r \<Longrightarrow> rec_ok r'"
  using no_resurrection [of "rec_state r" "rec_state r'"]
  by (auto simp: moves_def rec_ok_def used_target_def published_state_def)

lemma moves_dead:
  "moves r r' \<Longrightarrow> rec_ok r \<Longrightarrow> \<not> usable r \<Longrightarrow> (invalidated r \<longrightarrow> invalidated r') \<Longrightarrow>
    (corrupt r \<longrightarrow> corrupt r') \<Longrightarrow> \<not> usable r'"
  using no_resurrection [of "rec_state r" "rec_state r'"]
  by (auto simp: moves_def rec_ok_def usable_def)

lemma moves_invalidate: "rec_ok r \<Longrightarrow> moves r (invalidate_update r) \<and> rec_ok (invalidate_update r)"
  using eligible_to_invalidated [of "rec_state r"]
  by (auto simp: invalidate_update_def moves_def rec_ok_def try_state_def used_target_def
      published_state_def Let_def is_eligible_def)

lemma record_updateI:
  assumes "\<And>r. rec_id (f r) = rec_id r" "\<And>r. rec_key (f r) = rec_key r"
    "\<And>r. rec_operation (f r) = rec_operation r" "\<And>r. rec_generation (f r) = rec_generation r"
    "\<And>r. invalidated (f r) = invalidated r" "\<And>r. corrupt r \<Longrightarrow> corrupt (f r)" "\<And>r. moves r (f r)"
  shows "record_update f"
proof
  fix r assume "rec_ok r"
  then show "rec_ok (f r)" using assms moves_ok by blast
  show "\<not> usable r \<Longrightarrow> \<not> usable (f r)" using \<open>rec_ok r\<close> assms moves_dead by blast
qed (use assms in auto)

lemma lease_neutralI:
  assumes "record_update f" "\<And>r. lease_count (f r) = lease_count r"
  shows "lease_neutral f"
  using assms by (simp add: lease_neutral_def lease_neutral_axioms_def)

lemmas moves_simps = moves_def try_state_def used_target_def successors

interpretation grant: record_update "grant_update now pin" for now pin
  by (rule record_updateI) (auto simp: record_defs moves_simps)

interpretation release: record_update release_update
  by (rule record_updateI) (auto simp: record_defs moves_simps)

interpretation touch: lease_neutral "touch_update now" for now
  by (rule lease_neutralI, rule record_updateI) (auto simp: record_defs moves_simps)

interpretation reload: lease_neutral "reload_update b" for b
  by (rule lease_neutralI, rule record_updateI) (auto simp: record_defs moves_simps)

interpretation device: lease_neutral "device_update h fp" for h fp
  by (rule lease_neutralI, rule record_updateI) (auto simp: record_defs moves_simps)

interpretation host: lease_neutral host_update
  by (rule lease_neutralI, rule record_updateI) (auto simp: record_defs moves_simps)

interpretation evict_begin: lease_neutral evict_begin_update
  by (rule lease_neutralI, rule record_updateI) (auto simp: record_defs moves_simps)

interpretation evict_end: lease_neutral evict_end_update
  by (rule lease_neutralI, rule record_updateI) (auto simp: record_defs moves_simps)

interpretation pin: lease_neutral pin_update
  by (rule lease_neutralI, rule record_updateI) (auto simp: record_defs moves_simps)

interpretation unpin: lease_neutral unpin_update
  by (rule lease_neutralI, rule record_updateI) (auto simp: record_defs moves_simps)

interpretation verdict: lease_neutral "verdict_update vd" for vd
  by (rule lease_neutralI, rule record_updateI) (auto simp: record_defs moves_simps)

interpretation no_verdict: lease_neutral no_verdict_update
  by (rule lease_neutralI, rule record_updateI) (auto simp: record_defs moves_simps)

interpretation unload: lease_neutral unload_update
  by (rule lease_neutralI, rule record_updateI) (auto simp: record_defs moves_simps)

interpretation persisted: lease_neutral persisted_update
  by (rule lease_neutralI, rule record_updateI) (auto simp: record_defs moves_simps)

interpretation invalidate: lease_neutral invalidate_update
proof
  fix r assume "rec_ok r"
  then show "rec_ok (invalidate_update r)" using moves_invalidate by blast
  show "\<not> usable (invalidate_update r)"
    by (auto simp: invalidate_update_def usable_def try_state_def Let_def)
qed (auto simp: invalidate_update_def Let_def)

end
