(* ===== verification/KC_Index.thy ===== *)
theory KC_Index
  imports KC_Record "HOL-Library.AList"
begin

text \<open>
  The state of the cache (\<^verbatim>\<open>KernelCache::Impl\<close>, \<^verbatim>\<open>src/impl.hpp\<close>), the index operations of
  \<^verbatim>\<open>src/cache.cpp\<close>, the index queries of \<^verbatim>\<open>src/index.cpp\<close> and the consistency checker of
  \<^verbatim>\<open>src/artifact_store.cpp\<close>.

  An \<^verbatim>\<open>unordered_map\<close> is an association list; iteration visits it in list order, which stands for the
  unspecified order of the hash table. The key index is addressed by the digest that \<^verbatim>\<open>operator==\<close>
  and \<^verbatim>\<open>hash\<close> of the key read. A record never leaves \<^verbatim>\<open>by_id\<close> once it is inserted and an id is
  never inserted twice, so an artifact id stands for the \<^verbatim>\<open>shared_ptr\<close> to its record.
\<close>

subsection \<open>State\<close>

record BuildOutcome =
  o_id :: ArtifactId
  o_generation :: u64
  o_bytes :: bytes
  o_desc :: ArtifactDescriptor
  o_error :: string
  o_error_code :: ErrorCode
  succeeded :: bool

definition BuildOutcome_new :: BuildOutcome where
  "BuildOutcome_new = \<lparr>o_id = default_id, o_generation = 0, o_bytes = [], o_desc = ArtifactDescriptor_new,
     o_error = [], o_error_code = EC_None, succeeded = False\<rparr>"

text \<open>The promise and the shared future of a fence are one cell, empty until \<^verbatim>\<open>set_value\<close>.\<close>

record BuildFence =
  attempt :: BuildAttemptId
  fence_outcome :: "BuildOutcome option"
  started_ns :: u64
  build_generation :: u64

text \<open>
  The calls that loaders have answered, oldest first: a loader keeps the loaded modules on its side, so
  what a call does there is known from this history.
\<close>

datatype ModuleCall =
    Loaded string LoadedModule                   \<comment> \<open>the backend's name, the module it returned\<close>
  | Unloaded string LoadedModule

type_synonym fence_ref = nat
type_synonym index = "(ArtifactId \<times> ArtifactRecord) list"

record 'p Impl =
  cfg :: KernelCacheConfig
  by_id :: index
  by_key :: "(bytes \<times> ArtifactId list) list"
  by_operation :: "(string \<times> ArtifactId list) list"
  cache_generation :: u64
  next_generation :: u64
  in_flight :: "(bytes \<times> fence_ref) list"
  fences :: "BuildFence list"
  backends :: "(string \<times> KernelBackend) list"
  persistence :: "'p option"
  persistence_open :: bool
  stats :: Stats
  event_log :: EventHistory
  ticks :: nat
  module_calls :: "ModuleCall list"

text \<open>
  The world outside the cache: the clock and \<^verbatim>\<open>std::rand\<close>, as functions of the number of
  readings so far, the operations of the persistent store on its own state, and \<^verbatim>\<open>std::to_string\<close> on a
  \<^verbatim>\<open>double\<close>.
\<close>

record 'p PersistenceStore =
  ps_put :: "'p \<Rightarrow> StoredArtifact \<Rightarrow> unit result \<times> 'p"
  ps_get :: "'p \<Rightarrow> ArtifactId \<Rightarrow> StoredArtifact result"
  ps_recover :: "'p \<Rightarrow> StoredArtifact list result \<times> string list \<times> string list \<times> 'p"

record 'p Env =
  clk :: "nat \<Rightarrow> u64"
  rnd :: "nat \<Rightarrow> u64"
  store :: "'p PersistenceStore"
  show_double :: "rat \<Rightarrow> string"

definition Impl_new :: "KernelCacheConfig \<Rightarrow> 'p Impl" where
  "Impl_new c = \<lparr>cfg = c, by_id = [], by_key = [], by_operation = [], cache_generation = 1,
     next_generation = 0, in_flight = [], fences = [], backends = [], persistence = None,
     persistence_open = False, stats = Stats_new, event_log = EventHistory_new 4096, ticks = 0,
     module_calls = []\<rparr>"

definition now_ns :: "'p Env \<Rightarrow> 'p Impl \<Rightarrow> u64 \<times> 'p Impl" where
  "now_ns env s = (clk env (ticks s), s\<lparr>ticks := Suc (ticks s)\<rparr>)"

definition rand :: "'p Env \<Rightarrow> 'p Impl \<Rightarrow> u64 \<times> 'p Impl" where
  "rand env s = (rnd env (ticks s), s\<lparr>ticks := Suc (ticks s)\<rparr>)"

definition bump :: "(Stats \<Rightarrow> Stats) \<Rightarrow> 'p Impl \<Rightarrow> 'p Impl" where
  "bump f s = s\<lparr>stats := f (stats s)\<rparr>"

definition record_event :: "'p Env \<Rightarrow> string \<Rightarrow> string \<Rightarrow> 'p Impl \<Rightarrow> 'p Impl" where
  "record_event env ty msg s =
     (let (t, s) = now_ns env s
      in s\<lparr>event_log := ev_record (event_log s)
             \<lparr>ev_seq = 0, ev_time_ns = t, ev_type = ty, ev_message = msg\<rparr>\<rparr>)"

text \<open>
  \<^verbatim>\<open>find_backend\<close>: the backend registered under the requested runtime, else the first one whose
  builder accepts the key.
\<close>

fun first_builder :: "KernelCompatibilityKey \<Rightarrow> (string \<times> KernelBackend) list \<Rightarrow> KernelBackend option" where
  "first_builder k [] = None"
| "first_builder k ((n, b) # bs) =
     (case builder b of
        Some bu \<Rightarrow> if can_build bu k then Some b else first_builder k bs
      | None \<Rightarrow> first_builder k bs)"

definition find_backend :: "KernelCompatibilityKey \<Rightarrow> 'p Impl \<Rightarrow> KernelBackend option" where
  "find_backend k s =
     (case map_of (backends s) (runtime_backend k) of
        Some b \<Rightarrow> Some b
      | None \<Rightarrow> first_builder k (backends s))"

text \<open>The loader that \<^verbatim>\<open>find_backend\<close> gives for a key, with the backend's name.\<close>

definition device_loader :: "KernelCompatibilityKey \<Rightarrow> 'p Impl \<Rightarrow> (string \<times> KernelLoader) option" where
  "device_loader k s =
     (case find_backend k s of
        None \<Rightarrow> None
      | Some b \<Rightarrow> map_option (Pair (be_name b)) (loader b))"

text \<open>A loader's answer to \<^verbatim>\<open>load\<close>; a null handle names no module.\<close>

definition note_load :: "string \<Rightarrow> LoadedModuleHandle \<Rightarrow> 'p Impl \<Rightarrow> 'p Impl" where
  "note_load b h s = (case h of None \<Rightarrow> s | Some m \<Rightarrow> s\<lparr>module_calls := module_calls s @ [Loaded b m]\<rparr>)"

definition note_unload :: "string \<Rightarrow> LoadedModule \<Rightarrow> 'p Impl \<Rightarrow> 'p Impl" where
  "note_unload b m s = s\<lparr>module_calls := module_calls s @ [Unloaded b m]\<rparr>"

subsection \<open>Index operations\<close>

text \<open>The digest under which the key index files a key; reading it finalizes the key.\<close>

definition key_digest :: "KernelCompatibilityKey \<Rightarrow> bytes" where
  "key_digest k = k_digest (ensure_finalized k)"

definition ids_of :: "'k \<Rightarrow> ('k \<times> ArtifactId list) list \<Rightarrow> ArtifactId list" where
  "ids_of k m = (case map_of m k of Some ids \<Rightarrow> ids | None \<Rightarrow> [])"

definition index_push :: "'k \<Rightarrow> ArtifactId \<Rightarrow> ('k \<times> ArtifactId list) list \<Rightarrow> ('k \<times> ArtifactId list) list" where
  "index_push k i m = AList.update k (ids_of k m @ [i]) m"

text \<open>\<^verbatim>\<open>by_key[r->key]\<close> hashes the key of the shared record, which finalizes it in place.\<close>

definition insert_index_locked :: "ArtifactRecord \<Rightarrow> 'p Impl \<Rightarrow> 'p Impl" where
  "insert_index_locked r s =
     (let r' = r\<lparr>rec_key := ensure_finalized (rec_key r)\<rparr>
      in s\<lparr>by_id := AList.update (rec_id r) r' (by_id s),
           by_key := index_push (key_digest (rec_key r)) (rec_id r) (by_key s),
           by_operation := index_push (rec_operation r) (rec_id r) (by_operation s)\<rparr>)"

definition index_erase :: "'k \<Rightarrow> ArtifactId \<Rightarrow> ('k \<times> ArtifactId list) list \<Rightarrow> ('k \<times> ArtifactId list) list" where
  "index_erase k i m =
     (let ids = removeAll i (ids_of k m)
      in if ids = [] then AList.delete k m else AList.update k ids m)"

definition remove_index_locked :: "ArtifactRecord \<Rightarrow> 'p Impl \<Rightarrow> 'p Impl" where
  "remove_index_locked r s =
     s\<lparr>by_id := AList.delete (rec_id r) (by_id s),
       by_key := index_erase (key_digest (rec_key r)) (rec_id r) (by_key s),
       by_operation := index_erase (rec_operation r) (rec_id r) (by_operation s)\<rparr>"

text \<open>\<^verbatim>\<open>src/index.cpp\<close>.\<close>

definition key_index_members :: "(bytes \<times> ArtifactId list) list \<Rightarrow> nat" where
  "key_index_members m = fold (\<lambda>(k, v) n. n + length v) m 0"

definition query_by_key :: "(bytes \<times> ArtifactId list) list \<Rightarrow> KernelCompatibilityKey \<Rightarrow> ArtifactId list" where
  "query_by_key m k = (case map_of m (key_digest k) of None \<Rightarrow> [] | Some ids \<Rightarrow> ids)"

text \<open>
  \<^verbatim>\<open>check_index_consistency\<close> (\<^verbatim>\<open>src/artifact_store.cpp\<close>): the error texts of the three loops in the
  order they are found; the verdict is that there are none and the detail is the first of them.
\<close>

definition key_entry_errors :: "index \<Rightarrow> bytes \<Rightarrow> ArtifactId list \<Rightarrow> ArtifactId \<Rightarrow> string list" where
  "key_entry_errors m d ids i =
     (case map_of m i of
        None \<Rightarrow> [''key index references unknown artifact '' @ str i]
      | Some r \<Rightarrow>
          (if key_digest (rec_key r) \<noteq> d
           then [''key index entry disagrees with artifact key for '' @ str i] else [])
          @ (if count_list ids i \<noteq> 1 then [''duplicate key-index entry for '' @ str i] else []))"

definition op_entry_errors :: "index \<Rightarrow> string \<Rightarrow> ArtifactId \<Rightarrow> string list" where
  "op_entry_errors m op i =
     (case map_of m i of
        None \<Rightarrow> [''op index references unknown artifact '' @ str i]
      | Some r \<Rightarrow> (if rec_operation r \<noteq> op then [''op index disagrees for '' @ str i] else []))"

definition missing_errors :: "(bytes \<times> ArtifactId list) list \<Rightarrow> ArtifactId \<times> ArtifactRecord \<Rightarrow> string list" where
  "missing_errors bk e =
     (if \<exists>(d, ids) \<in> set bk. d = key_digest (rec_key (snd e)) \<and> fst e \<in> set ids then []
      else [''artifact '' @ str (fst e) @ '' missing from key index''])"

definition check_index_consistency ::
  "index \<Rightarrow> (bytes \<times> ArtifactId list) list \<Rightarrow> (string \<times> ArtifactId list) list \<Rightarrow> bool \<times> string" where
  "check_index_consistency m bk bo =
     (let errs = concat (map (\<lambda>(d, ids). concat (map (key_entry_errors m d ids) ids)) bk)
                 @ concat (map (\<lambda>(op, ids). concat (map (op_entry_errors m op) ids)) bo)
                 @ concat (map (missing_errors bk) m)
      in (errs = [], if errs = [] then [] else hd errs))"

text \<open>A change to the record an id stands for.\<close>

definition modify :: "ArtifactId \<Rightarrow> (ArtifactRecord \<Rightarrow> ArtifactRecord) \<Rightarrow> 'p Impl \<Rightarrow> 'p Impl" where
  "modify i f s = s\<lparr>by_id := AList.map_entry i f (by_id s)\<rparr>"

definition find_rec :: "ArtifactId \<Rightarrow> 'p Impl \<Rightarrow> ArtifactRecord option" where
  "find_rec i s = map_of (by_id s) i"

text \<open>
  The unload between the two locked sections of \<^verbatim>\<open>evict_impl\<close> and in \<^verbatim>\<open>unload\<close>: the loader that
  \<^verbatim>\<open>find_backend\<close> gives now is asked to unload the record's module, and its answer is dropped.
\<close>

definition unload_module :: "ArtifactId \<Rightarrow> 'p Impl \<Rightarrow> 'p Impl" where
  "unload_module i s =
     (case find_rec i s of
        None \<Rightarrow> s
      | Some r \<Rightarrow>
          (case (device_loader (rec_key r) s, native_handle r) of
             (Some (b, ld), Some m) \<Rightarrow> note_unload b m s
           | _ \<Rightarrow> s))"

subsection \<open>The index invariant\<close>

text \<open>
  One secondary index is right for a map of records when it lists each record exactly once,
  under the record's own key.
\<close>

definition indexes :: "(ArtifactRecord \<Rightarrow> 'k) \<Rightarrow> index \<Rightarrow> ('k \<times> ArtifactId list) list \<Rightarrow> bool" where
  "indexes g m ix \<longleftrightarrow>
     distinct (map fst ix) \<and>
     (\<forall>(k, ids) \<in> set ix. distinct ids) \<and>
     (\<forall>k i. i \<in> set (ids_of k ix) \<longleftrightarrow> (\<exists>r. map_of m i = Some r \<and> g r = k))"

definition index_inv :: "'p Impl \<Rightarrow> bool" where
  "index_inv s \<longleftrightarrow>
     distinct (map fst (by_id s)) \<and>
     (\<forall>(i, r) \<in> set (by_id s). rec_id r = i \<and> rec_ok r) \<and>
     indexes (\<lambda>r. key_digest (rec_key r)) (by_id s) (by_key s) \<and>
     indexes rec_operation (by_id s) (by_operation s)"

lemma ids_of_index_push:
  "ids_of k (index_push k' i m) = (if k = k' then ids_of k m @ [i] else ids_of k m)"
  by (simp add: ids_of_def index_push_def update_conv')

lemma set_index_push:
  "distinct (map fst m) \<Longrightarrow> (k, ids) \<in> set (index_push k' i m) \<Longrightarrow>
    ids = (if k = k' then ids_of k m @ [i] else ids_of k m)"
  unfolding index_push_def
  by (metis distinct_update ids_of_def ids_of_index_push index_push_def map_of_is_SomeI option.simps(5))

lemma distinct_ids_of: "indexes g m ix \<Longrightarrow> distinct (ids_of k ix)"
  by (auto simp: indexes_def ids_of_def split: option.splits dest: map_of_SomeD)

lemma indexes_push:
  assumes ix: "indexes g m ix" and fresh: "i \<notin> dom (map_of m)"
  shows "indexes g (AList.update i r m) (index_push (g r) i ix)"
proof -
  have "i \<notin> set (ids_of k ix)" for k
    using ix fresh by (auto simp: indexes_def)
  moreover have "distinct (map fst (index_push (g r) i ix))"
    using ix by (simp add: indexes_def index_push_def distinct_update)
  ultimately show ?thesis
    using ix distinct_ids_of [OF ix]
    by (auto simp: indexes_def ids_of_index_push update_conv' fresh split: if_splits
        dest!: set_index_push [rotated] intro: domI)
qed

lemma indexes_map_entry:
  assumes "indexes g m ix" and "\<And>r. g (f r) = g r"
  shows "indexes g (AList.map_entry i f m) ix"
  using assms by (auto simp: indexes_def map_of_map_entry split: option.splits)


lemma ensure_finalized_idem [simp]: "ensure_finalized (ensure_finalized k) = ensure_finalized k"
  by (simp add: ensure_finalized_def finalize_eq)

lemma key_digest_ensure [simp]: "key_digest (ensure_finalized k) = key_digest k"
  by (simp add: key_digest_def)

text \<open>What the state keeps of its index is read off these selectors.\<close>

lemma modify_frame [simp, rec_frame]:
  "cfg (modify i f s) = cfg s" "by_key (modify i f s) = by_key s"
  "by_operation (modify i f s) = by_operation s" "cache_generation (modify i f s) = cache_generation s"
  "next_generation (modify i f s) = next_generation s" "in_flight (modify i f s) = in_flight s"
  "fences (modify i f s) = fences s" "backends (modify i f s) = backends s"
  "persistence (modify i f s) = persistence s" "persistence_open (modify i f s) = persistence_open s"
  "stats (modify i f s) = stats s" "event_log (modify i f s) = event_log s" "ticks (modify i f s) = ticks s"
  "module_calls (modify i f s) = module_calls s"
  by (simp_all add: modify_def)

lemma note_frame [simp, rec_frame]:
  "cfg (note_load b h s) = cfg s" "by_id (note_load b h s) = by_id s" "by_key (note_load b h s) = by_key s"
  "by_operation (note_load b h s) = by_operation s" "cache_generation (note_load b h s) = cache_generation s"
  "next_generation (note_load b h s) = next_generation s" "in_flight (note_load b h s) = in_flight s"
  "fences (note_load b h s) = fences s" "backends (note_load b h s) = backends s"
  "persistence (note_load b h s) = persistence s" "persistence_open (note_load b h s) = persistence_open s"
  "stats (note_load b h s) = stats s" "event_log (note_load b h s) = event_log s" "ticks (note_load b h s) = ticks s"
  by (simp_all add: note_load_def split: option.split)

lemma unload_module_frame [simp, rec_frame]:
  "cfg (unload_module i s) = cfg s" "by_id (unload_module i s) = by_id s" "by_key (unload_module i s) = by_key s"
  "by_operation (unload_module i s) = by_operation s" "cache_generation (unload_module i s) = cache_generation s"
  "next_generation (unload_module i s) = next_generation s" "in_flight (unload_module i s) = in_flight s"
  "fences (unload_module i s) = fences s" "backends (unload_module i s) = backends s"
  "persistence (unload_module i s) = persistence s" "persistence_open (unload_module i s) = persistence_open s"
  "stats (unload_module i s) = stats s" "event_log (unload_module i s) = event_log s" "ticks (unload_module i s) = ticks s"
  by (simp_all add: unload_module_def note_unload_def split: option.split)

lemma find_rec_modify [simp]:
  "find_rec j (modify i f s) = (if j = i then map_option f (find_rec i s) else find_rec j s)"
  by (simp add: find_rec_def modify_def map_of_map_entry split: option.splits)

lemma bump_frame [simp, rec_frame]:
  "cfg (bump f s) = cfg s" "by_id (bump f s) = by_id s" "by_key (bump f s) = by_key s"
  "by_operation (bump f s) = by_operation s" "cache_generation (bump f s) = cache_generation s"
  "next_generation (bump f s) = next_generation s" "in_flight (bump f s) = in_flight s"
  "fences (bump f s) = fences s" "backends (bump f s) = backends s"
  "persistence (bump f s) = persistence s" "persistence_open (bump f s) = persistence_open s"
  "event_log (bump f s) = event_log s" "ticks (bump f s) = ticks s"
  "module_calls (bump f s) = module_calls s"
  by (simp_all add: bump_def)

lemma record_event_frame [simp, rec_frame]:
  "cfg (record_event env t m s) = cfg s" "by_id (record_event env t m s) = by_id s"
  "by_key (record_event env t m s) = by_key s" "by_operation (record_event env t m s) = by_operation s"
  "cache_generation (record_event env t m s) = cache_generation s"
  "next_generation (record_event env t m s) = next_generation s"
  "in_flight (record_event env t m s) = in_flight s" "fences (record_event env t m s) = fences s"
  "backends (record_event env t m s) = backends s" "persistence (record_event env t m s) = persistence s"
  "persistence_open (record_event env t m s) = persistence_open s"
  "stats (record_event env t m s) = stats s" "module_calls (record_event env t m s) = module_calls s"
  by (simp_all add: record_event_def now_ns_def)

lemma find_rec_cong: "by_id s = by_id t \<Longrightarrow> find_rec i s = find_rec i t"
  by (simp add: find_rec_def)

lemma find_rec_frame [simp]:
  "find_rec i (bump f s) = find_rec i s" "find_rec i (record_event env t m s) = find_rec i s"
  "find_rec i (s\<lparr>ticks := n\<rparr>) = find_rec i s" "find_rec i (s\<lparr>persistence := ps\<rparr>) = find_rec i s"
  "find_rec i (s\<lparr>in_flight := fl\<rparr>) = find_rec i s" "find_rec i (s\<lparr>fences := fs\<rparr>) = find_rec i s"
  "find_rec i (s\<lparr>next_generation := g\<rparr>) = find_rec i s" "find_rec i (s\<lparr>cache_generation := g\<rparr>) = find_rec i s"
  "find_rec i (s\<lparr>backends := bs\<rparr>) = find_rec i s"
  "find_rec i (note_load b h s) = find_rec i s" "find_rec i (unload_module j s) = find_rec i s"
  by (simp_all add: find_rec_def)

lemma find_backend_frame [simp]:
  "find_backend k (bump f s) = find_backend k s" "find_backend k (record_event env t m s) = find_backend k s"
  "find_backend k (modify i f' s) = find_backend k s" "find_backend k (s\<lparr>ticks := n\<rparr>) = find_backend k s"
  "find_backend k (note_load b h s) = find_backend k s" "find_backend k (unload_module j s) = find_backend k s"
  by (simp_all add: find_backend_def split: option.split)

lemma device_loader_frame [simp]:
  "device_loader k (bump f s) = device_loader k s" "device_loader k (record_event env t m s) = device_loader k s"
  "device_loader k (modify i f' s) = device_loader k s" "device_loader k (s\<lparr>ticks := n\<rparr>) = device_loader k s"
  "device_loader k (note_load b h s) = device_loader k s" "device_loader k (unload_module j s) = device_loader k s"
  by (simp_all add: device_loader_def)

lemma index_inv_cong:
  "by_id s = by_id t \<Longrightarrow> by_key s = by_key t \<Longrightarrow> by_operation s = by_operation t \<Longrightarrow>
    index_inv s = index_inv t"
  by (simp add: index_inv_def)

lemma index_inv_frame [simp]:
  "index_inv (bump f s) = index_inv s" "index_inv (record_event env t m s) = index_inv s"
  "index_inv (s\<lparr>ticks := n\<rparr>) = index_inv s" "index_inv (s\<lparr>persistence := ps\<rparr>) = index_inv s"
  "index_inv (s\<lparr>in_flight := fl\<rparr>) = index_inv s" "index_inv (s\<lparr>fences := fs\<rparr>) = index_inv s"
  "index_inv (s\<lparr>next_generation := g\<rparr>) = index_inv s" "index_inv (s\<lparr>cache_generation := g\<rparr>) = index_inv s"
  "index_inv (s\<lparr>backends := bs\<rparr>) = index_inv s"
  "index_inv (note_load b h s) = index_inv s" "index_inv (unload_module j s) = index_inv s"
  by (rule index_inv_cong; simp)+

lemma index_inv_find:
  "index_inv s \<Longrightarrow> find_rec i s = Some r \<Longrightarrow> rec_id r = i \<and> rec_ok r"
  by (auto simp: index_inv_def find_rec_def dest!: map_of_SomeD)

lemma index_inv_new: "index_inv (Impl_new c)"
  by (simp add: index_inv_def Impl_new_def indexes_def ids_of_def)

lemma count_list_distinct: "distinct xs \<Longrightarrow> x \<in> set xs \<Longrightarrow> count_list xs x = 1"
  by (induction xs) (auto simp: count_list_0_iff)

lemma set_update_distinct:
  assumes "distinct (map fst m)" and "(i, x) \<in> set (AList.update k v m)"
  shows "(i, x) = (k, v) \<or> (i, x) \<in> set m"
proof -
  have "map_of (AList.update k v m) i = Some x"
    using assms by (simp add: distinct_update)
  then show ?thesis by (auto simp: update_conv' split: if_splits dest: map_of_SomeD)
qed

lemma set_map_entry:
  "distinct (map fst m) \<Longrightarrow> (j, r) \<in> set (AList.map_entry i f m) \<Longrightarrow>
    \<exists>r'. (j, r') \<in> set m \<and> r = (if j = i then f r' else r')"
proof (induction m)
  case (Cons e m)
  then show ?case by (cases e) (auto split: if_splits intro: rev_image_eqI)
qed simp

context record_update
begin

lemma index_inv_modify:
  assumes inv: "index_inv s"
  shows "index_inv (modify i f s)"
proof -
  have "rec_id r = j \<and> rec_ok r" if "(j, r) \<in> set (AList.map_entry i f (by_id s))" for j r
    using set_map_entry [OF _ that] inv keeps_ok by (auto simp: index_inv_def same_id)
  then show ?thesis
    using inv by (auto simp: index_inv_def modify_def contract distinct_map_entry intro!: indexes_map_entry)
qed

lemma usable_modify:
  assumes "index_inv s" "find_rec j s = Some r" "\<not> usable r"
  shows "\<exists>r'. find_rec j (modify i f s) = Some r' \<and> \<not> usable r' \<and> (invalidated r \<longrightarrow> invalidated r')"
  using assms index_inv_find [OF assms(1,2)] keeps_dead keeps_invalidated by auto

end

lemma index_inv_insert:
  assumes inv: "index_inv s" and fresh: "find_rec (rec_id r) s = None" and ok: "rec_ok r"
  shows "index_inv (insert_index_locked r s)"
proof -
  let ?r = "r\<lparr>rec_key := ensure_finalized (rec_key r)\<rparr>"
  have dom: "rec_id r \<notin> dom (map_of (by_id s))" using fresh by (simp add: find_rec_def dom_def)
  have "indexes (\<lambda>r. key_digest (rec_key r)) (AList.update (rec_id r) ?r (by_id s))
      (index_push (key_digest (rec_key ?r)) (rec_id r) (by_key s))"
    using inv dom by (intro indexes_push) (simp_all add: index_inv_def)
  moreover have "indexes rec_operation (AList.update (rec_id r) ?r (by_id s))
      (index_push (rec_operation ?r) (rec_id r) (by_operation s))"
    using inv dom by (intro indexes_push) (simp_all add: index_inv_def)
  moreover have "rec_ok ?r" using ok by (simp add: rec_ok_def)
  moreover have "(i, x) \<in> set (AList.update (rec_id r) ?r (by_id s)) \<Longrightarrow> (i, x) = (rec_id r, ?r) \<or> (i, x) \<in> set (by_id s)" for i x
    using inv set_update_distinct [of "by_id s"] by (auto simp: index_inv_def)
  ultimately show ?thesis
    using inv by (fastforce simp: index_inv_def insert_index_locked_def distinct_update Let_def)
qed

lemma find_rec_insert:
  "find_rec i (insert_index_locked r s) =
     (if i = rec_id r then Some (r\<lparr>rec_key := ensure_finalized (rec_key r)\<rparr>) else find_rec i s)"
  by (simp add: find_rec_def insert_index_locked_def update_conv' Let_def)

lemma insert_frame [simp, rec_frame]:
  "cfg (insert_index_locked r s) = cfg s" "next_generation (insert_index_locked r s) = next_generation s"
  "in_flight (insert_index_locked r s) = in_flight s" "fences (insert_index_locked r s) = fences s"
  "backends (insert_index_locked r s) = backends s" "persistence (insert_index_locked r s) = persistence s"
  "persistence_open (insert_index_locked r s) = persistence_open s" "stats (insert_index_locked r s) = stats s"
  "event_log (insert_index_locked r s) = event_log s" "ticks (insert_index_locked r s) = ticks s"
  "cache_generation (insert_index_locked r s) = cache_generation s"
  "module_calls (insert_index_locked r s) = module_calls s"
  by (simp_all add: insert_index_locked_def Let_def)

subsection \<open>The invariant implies the verdict of the checker\<close>

lemma indexes_entry:
  "indexes g m ix \<Longrightarrow> (k, ids) \<in> set ix \<Longrightarrow> i \<in> set ids \<Longrightarrow>
    \<exists>r. map_of m i = Some r \<and> g r = k \<and> count_list ids i = 1"
proof -
  assume ix: "indexes g m ix" and k: "(k, ids) \<in> set ix" and i: "i \<in> set ids"
  then have "ids_of k ix = ids" "distinct ids"
    by (auto simp: indexes_def ids_of_def map_of_is_SomeI)
  then show ?thesis using ix i by (auto simp: indexes_def count_list_distinct)
qed

lemma indexes_listed:
  "indexes g m ix \<Longrightarrow> map_of m i = Some r \<Longrightarrow> \<exists>ids. (g r, ids) \<in> set ix \<and> i \<in> set ids"
proof -
  assume "indexes g m ix" "map_of m i = Some r"
  then have "i \<in> set (ids_of (g r) ix)" by (auto simp: indexes_def)
  then show ?thesis
    by (cases "map_of ix (g r)") (auto simp: ids_of_def dest: map_of_SomeD)
qed

lemma index_inv_consistent:
  assumes "index_inv s"
  shows "check_index_consistency (by_id s) (by_key s) (by_operation s) = (True, [])"
proof -
  have k: "indexes (\<lambda>r. key_digest (rec_key r)) (by_id s) (by_key s)"
    and o: "indexes rec_operation (by_id s) (by_operation s)" and d: "distinct (map fst (by_id s))"
    using assms by (simp_all add: index_inv_def)
  have "key_entry_errors (by_id s) d ids i = []" if "(d, ids) \<in> set (by_key s)" "i \<in> set ids" for d ids i
    using indexes_entry [OF k that] by (auto simp: key_entry_errors_def)
  moreover have "op_entry_errors (by_id s) op i = []" if "(op, ids) \<in> set (by_operation s)" "i \<in> set ids" for op ids i
    using indexes_entry [OF o that] by (auto simp: op_entry_errors_def)
  moreover have "missing_errors (by_key s) e = []" if "e \<in> set (by_id s)" for e
    using indexes_listed [OF k, of "fst e" "snd e"] d that by (fastforce simp: missing_errors_def)
  ultimately show ?thesis by (auto simp: check_index_consistency_def Let_def)
qed


subsection \<open>How operations change the cache\<close>

text \<open>
  Every operation of the cache relates the state before and after in this way: the index
  invariant is kept, no record is lost or changes its identity, and no record that cannot be
  leased becomes leasable again.
\<close>

definition record_evolves :: "ArtifactRecord \<Rightarrow> ArtifactRecord \<Rightarrow> bool" where
  "record_evolves r r' \<longleftrightarrow> rec_id r' = rec_id r \<and> rec_key r' = rec_key r \<and>
     rec_operation r' = rec_operation r \<and> rec_generation r' = rec_generation r \<and>
     (usable r' \<longrightarrow> usable r) \<and> (invalidated r \<longrightarrow> invalidated r')"

definition evolves :: "'p Impl \<Rightarrow> 'p Impl \<Rightarrow> bool" where
  "evolves s s' \<longleftrightarrow> (index_inv s \<longrightarrow> index_inv s' \<and>
     (\<forall>i r. find_rec i s = Some r \<longrightarrow> (\<exists>r'. find_rec i s' = Some r' \<and> record_evolves r r')))"

lemma record_evolves_refl [simp]: "record_evolves r r"
  by (simp add: record_evolves_def)

lemma record_evolves_trans: "record_evolves a b \<Longrightarrow> record_evolves b c \<Longrightarrow> record_evolves a c"
  by (auto simp: record_evolves_def)

lemma evolves_refl [simp]: "evolves s s"
  by (simp add: evolves_def)

lemma evolves_trans [trans]: "evolves s t \<Longrightarrow> evolves t u \<Longrightarrow> evolves s u"
  unfolding evolves_def using record_evolves_trans by blast

lemma evolves_same:
  "by_id t = by_id s \<Longrightarrow> by_key t = by_key s \<Longrightarrow> by_operation t = by_operation s \<Longrightarrow> evolves s t"
  by (simp add: evolves_def index_inv_cong [of t s] find_rec_cong [of t s])

lemma evolves_after_frame [simp]:
  "evolves s (bump f t) = evolves s t" "evolves s (record_event env ty m t) = evolves s t"
  "evolves s (t\<lparr>ticks := n\<rparr>) = evolves s t" "evolves s (t\<lparr>persistence := ps\<rparr>) = evolves s t"
  "evolves s (t\<lparr>in_flight := fl\<rparr>) = evolves s t" "evolves s (t\<lparr>fences := fs\<rparr>) = evolves s t"
  "evolves s (t\<lparr>next_generation := g\<rparr>) = evolves s t" "evolves s (t\<lparr>cache_generation := g\<rparr>) = evolves s t"
  "evolves s (t\<lparr>backends := bs\<rparr>) = evolves s t"
  "evolves s (note_load b h t) = evolves s t" "evolves s (unload_module j t) = evolves s t"
  by (simp_all add: evolves_def)

context record_update
begin

lemma evolves_modify: "evolves s (modify i f s)"
proof -
  have "record_evolves r (f r)" if "index_inv s" "find_rec i s = Some r" for r
    using index_inv_find [OF that] usable_before keeps_invalidated
    by (auto simp: record_evolves_def contract)
  then show ?thesis by (auto simp: evolves_def index_inv_modify)
qed

lemma evolves_modify_after: "evolves s t \<Longrightarrow> evolves s (modify i f t)"
  using evolves_modify evolves_trans by blast

end

lemmas evolves_intros =
  grant.evolves_modify_after release.evolves_modify_after touch.evolves_modify_after
  reload.evolves_modify_after device.evolves_modify_after host.evolves_modify_after
  invalidate.evolves_modify_after evict_begin.evolves_modify_after evict_end.evolves_modify_after
  pin.evolves_modify_after unpin.evolves_modify_after verdict.evolves_modify_after
  no_verdict.evolves_modify_after unload.evolves_modify_after persisted.evolves_modify_after

lemma evolves_insert:
  assumes "find_rec (rec_id r) s = None" and "rec_ok r"
  shows "evolves s (insert_index_locked r s)"
  using assms index_inv_insert by (auto simp: evolves_def find_rec_insert)

lemma evolves_insert_after:
  "evolves s t \<Longrightarrow> find_rec (rec_id r) t = None \<Longrightarrow> rec_ok r \<Longrightarrow> evolves s (insert_index_locked r t)"
  using evolves_insert evolves_trans by blast

lemma rec_ok_make_record [simp]: "rec_ok (make_record d b t)"
  by (simp add: make_record_def rec_ok_def published_state_def)

lemma rec_id_make_record [simp]: "rec_id (make_record d b t) = ad_id d"
  by (simp add: make_record_def)


text \<open>The parts of the state outside the records, the counters and the event log.\<close>

definition same_outer :: "'p Impl \<Rightarrow> 'p Impl \<Rightarrow> bool" where
  "same_outer s s' \<longleftrightarrow> cfg s' = cfg s \<and> backends s' = backends s \<and> persistence s' = persistence s \<and>
     persistence_open s' = persistence_open s \<and> next_generation s' = next_generation s \<and>
     in_flight s' = in_flight s \<and> fences s' = fences s \<and> cache_generation s' = cache_generation s"

lemma same_outer_refl [simp]: "same_outer s s"
  by (simp add: same_outer_def)

lemma same_outer_trans [trans]: "same_outer s t \<Longrightarrow> same_outer t u \<Longrightarrow> same_outer s u"
  by (simp add: same_outer_def)

lemma same_outer_frame [simp]:
  "same_outer s (bump f t) = same_outer s t" "same_outer s (record_event env ty m t) = same_outer s t"
  "same_outer s (modify i g t) = same_outer s t" "same_outer s (t\<lparr>ticks := n\<rparr>) = same_outer s t"
  "same_outer s (insert_index_locked r t) = same_outer s t"
  "same_outer s (note_load b h t) = same_outer s t" "same_outer s (unload_module j t) = same_outer s t"
  by (simp_all add: same_outer_def)

text \<open>No change to the records at all.\<close>

definition same_records :: "'p Impl \<Rightarrow> 'p Impl \<Rightarrow> bool" where
  "same_records s s' \<longleftrightarrow> by_id s' = by_id s \<and> by_key s' = by_key s \<and> by_operation s' = by_operation s"

lemma same_records_evolves: "same_records s s' \<Longrightarrow> evolves s s'"
  by (simp add: same_records_def evolves_same)

lemma same_records_find: "same_records s s' \<Longrightarrow> find_rec i s' = find_rec i s"
  by (simp add: same_records_def find_rec_def)


text \<open>The number of leases out on an artifact.\<close>

definition leases_of :: "ArtifactId \<Rightarrow> 'p Impl \<Rightarrow> u64" where
  "leases_of i s = (case find_rec i s of None \<Rightarrow> 0 | Some r \<Rightarrow> lease_count r)"

definition same_leases :: "'p Impl \<Rightarrow> 'p Impl \<Rightarrow> bool" where
  "same_leases s s' \<longleftrightarrow> (\<forall>i. leases_of i s' = leases_of i s)"

lemma same_leases_refl [simp]: "same_leases s s"
  by (simp add: same_leases_def)

lemma same_leases_trans [trans]: "same_leases s t \<Longrightarrow> same_leases t u \<Longrightarrow> same_leases s u"
  by (simp add: same_leases_def)

lemma same_leases_frame [simp]:
  "same_leases s (bump f t) = same_leases s t" "same_leases s (record_event env ty m t) = same_leases s t"
  "same_leases s (t\<lparr>ticks := n\<rparr>) = same_leases s t" "same_leases s (t\<lparr>persistence := ps\<rparr>) = same_leases s t"
  "same_leases s (t\<lparr>cache_generation := g\<rparr>) = same_leases s t" "same_leases s (t\<lparr>backends := bs\<rparr>) = same_leases s t"
  "same_leases s (note_load b h t) = same_leases s t" "same_leases s (unload_module j t) = same_leases s t"
  by (simp_all add: same_leases_def leases_of_def)

lemma same_records_leases: "same_records s s' \<Longrightarrow> same_leases s s'"
  by (simp add: same_leases_def leases_of_def same_records_find)

context lease_neutral
begin

lemma leases_modify: "leases_of j (modify i f s) = leases_of j s"
  by (simp add: leases_of_def same_leases split: option.split)

lemma same_leases_modify: "same_leases s t \<Longrightarrow> same_leases s (modify i f t)"
  by (simp add: same_leases_def leases_modify)

end

lemmas same_leases_intros =
  touch.same_leases_modify reload.same_leases_modify device.same_leases_modify host.same_leases_modify
  invalidate.same_leases_modify evict_begin.same_leases_modify evict_end.same_leases_modify
  pin.same_leases_modify unpin.same_leases_modify verdict.same_leases_modify
  no_verdict.same_leases_modify unload.same_leases_modify persisted.same_leases_modify

lemma same_leases_insert:
  "same_leases s t \<Longrightarrow> find_rec (rec_id r) t = None \<Longrightarrow> lease_count r = 0 \<Longrightarrow>
    same_leases s (insert_index_locked r t)"
proof -
  assume a: "same_leases s t" "find_rec (rec_id r) t = None" "lease_count r = 0"
  then have "leases_of i (insert_index_locked r t) = leases_of i t" for i
    by (auto simp: leases_of_def find_rec_insert)
  then show ?thesis using a(1) by (simp add: same_leases_def)
qed

lemma lease_count_make_record [simp]: "lease_count (make_record d b t) = 0"
  by (simp add: make_record_def)

lemma evolves_find:
  assumes "evolves s s'" "index_inv s" "find_rec i s = Some r" "find_rec i s' = Some r'"
  shows "record_evolves r r'"
proof -
  from assms obtain r'' where "find_rec i s' = Some r''" "record_evolves r r''"
    unfolding evolves_def by blast
  with assms(4) show ?thesis by simp
qed

lemma find_backend_ticks: "find_backend k (s\<lparr>ticks := t\<rparr>) = find_backend k s"
  by (simp add: find_backend_def split: option.split)

end
