(* ===== verification/KC_Lookup.thy ===== *)
theory KC_Lookup
  imports KC_Index
begin

text \<open>
  Candidate gathering and lookup (\<^verbatim>\<open>src/cache.cpp\<close>, \<^verbatim>\<open>collect_candidates\<close> and \<^verbatim>\<open>lookup_impl\<close>). The
  lookup returns a healthy, eligible, compatible artifact of least distance whenever the
  candidates hold one, and it never changes the index.
\<close>

record CandidateSnapshot =
  c_rec :: ArtifactId
  c_key :: KernelCompatibilityKey
  c_gen :: u64
  c_state :: ArtifactState
  c_tier :: ResidencyTier
  c_persistent :: bool
  c_validated :: bool
  c_invalidated :: bool
  c_corrupt :: bool
  c_operation :: string
  c_backend :: string
  c_decision :: KernelCompatibilityDecision

definition emit :: "ArtifactRecord \<Rightarrow> CandidateSnapshot" where
  "emit r = \<lparr>c_rec = rec_id r, c_key = rec_key r, c_gen = rec_generation r, c_state = rec_state r,
     c_tier = rec_tier r, c_persistent = persistent r, c_validated = validated r,
     c_invalidated = invalidated r, c_corrupt = corrupt r, c_operation = rec_operation r,
     c_backend = rec_backend r, c_decision = KernelCompatibilityDecision_new\<rparr>"

fun emit_all :: "'p Impl \<Rightarrow> ArtifactId list \<Rightarrow> CandidateSnapshot list" where
  "emit_all s [] = []"
| "emit_all s (i # is) =
     (case find_rec i s of Some r \<Rightarrow> emit r # emit_all s is | None \<Rightarrow> emit_all s is)"

text \<open>The exact key first; the scan over the operation only when that yields nothing.\<close>

definition collect_candidates :: "KernelCompatibilityKey \<Rightarrow> 'p Impl \<Rightarrow> CandidateSnapshot list" where
  "collect_candidates request s =
     (let out = emit_all s (ids_of (key_digest request) (by_key s))
      in if out = [] \<and> operation request \<noteq> []
         then emit_all s (ids_of (operation request) (by_operation s))
         else out)"

text \<open>\<^verbatim>\<open>std::min_element\<close>: the first element that no other one is smaller than.\<close>

fun min_element :: "('a \<Rightarrow> int) \<Rightarrow> 'a list \<Rightarrow> 'a option" where
  "min_element d [] = None"
| "min_element d (x # xs) =
     (case min_element d xs of
        None \<Rightarrow> Some x
      | Some y \<Rightarrow> if d y < d x then Some y else Some x)"

definition healthy :: "CandidateSnapshot \<Rightarrow> bool" where
  "healthy c \<longleftrightarrow> \<not> (c_invalidated c \<or> c_corrupt c \<or> \<not> c_validated c)"

definition decide ::
  "KernelLookupRequest \<Rightarrow> CandidateSnapshot \<Rightarrow> CandidateSnapshot" where
  "decide req c = c\<lparr>c_decision := evaluate_compatibility (req_key req) (c_key c) (req_policy req)\<rparr>"

definition compatible_candidates ::
  "KernelLookupRequest \<Rightarrow> CandidateSnapshot list \<Rightarrow> CandidateSnapshot list" where
  "compatible_candidates req cs =
     filter (\<lambda>c. compatible (c_decision c))
       (map (decide req) (filter (\<lambda>c. healthy c \<and> is_eligible (c_state c)) cs))"

definition candidate_distance :: "CandidateSnapshot \<Rightarrow> int" where
  "candidate_distance c = compatibility_distance (c_decision c)"

definition hit_kind :: "CandidateSnapshot \<Rightarrow> LookupOutcome" where
  "hit_kind c =
     (case c_tier c of
        RT_DeviceResident \<Rightarrow> LO_DeviceResidentHit
      | RT_HostResident \<Rightarrow> LO_HostResidentHit
      | RT_PersistentStorage \<Rightarrow> LO_PersistedHit
      | _ \<Rightarrow> if is_exact (c_decision c) then LO_ExactHit else LO_CompatibleHit)"

definition count_hit :: "LookupOutcome \<Rightarrow> Stats \<Rightarrow> Stats" where
  "count_hit kind st =
     (let st = st\<lparr>lookups := lookups st + 1\<rparr>
      in if kind = LO_ExactHit then st\<lparr>exact_hits := exact_hits st + 1\<rparr>
         else if kind = LO_CompatibleHit then st\<lparr>compatible_hits := compatible_hits st + 1\<rparr>
         else if kind = LO_PersistedHit then st\<lparr>persistent_hits := persistent_hits st + 1\<rparr>
         else if kind = LO_HostResidentHit then st\<lparr>host_hits := host_hits st + 1\<rparr>
         else if kind = LO_DeviceResidentHit then st\<lparr>device_hits := device_hits st + 1\<rparr>
         else st)"

definition default_namespace :: "'p Impl \<Rightarrow> KernelLookupRequest \<Rightarrow> KernelLookupRequest" where
  "default_namespace s req =
     (if req_namespace req = [] then req\<lparr>req_namespace := cfg_namespace (cfg s)\<rparr> else req)"

definition lookup_miss ::
  "'p Env \<Rightarrow> KernelLookupRequest \<Rightarrow> CandidateSnapshot list \<Rightarrow> u64 \<Rightarrow> 'p Impl \<Rightarrow> KernelLookupResult \<times> 'p Impl" where
  "lookup_miss env req cs ns s =
     (let res = (if cs \<noteq> [] \<and> \<not> list_ex healthy cs
                 then KernelLookupResult_new\<lparr>outcome := LO_MissInvalidated,
                        lr_notes := [''all candidates invalidated/corrupt'']\<rparr>
                 else KernelLookupResult_new\<lparr>outcome := LO_MissRequiresBuild\<rparr>);
          res = res\<lparr>lr_lookup_ns := ns, lr_notes := lr_notes res @ [''no compatible eligible candidate'']\<rparr>;
          s = bump (\<lambda>st. st\<lparr>lookups := lookups st + 1, misses := misses st + 1\<rparr>) s;
          s = record_event env ''lookup'' (''miss '' @ lookup_outcome_name (outcome res) @ '' op=''
                @ operation (req_key req)) s
      in (res, s))"

definition lookup_hit ::
  "'p Env \<Rightarrow> KernelLookupRequest \<Rightarrow> CandidateSnapshot \<Rightarrow> u64 \<Rightarrow> 'p Impl \<Rightarrow> KernelLookupResult \<times> 'p Impl" where
  "lookup_hit env req chosen ns s =
     (let kind = hit_kind chosen;
          res = \<lparr>outcome = kind, lr_artifact = Some (c_rec chosen), lr_generation = Some (c_gen chosen),
                 lr_decision = c_decision chosen, lr_notes = [decision_summary (c_decision chosen)],
                 lr_lookup_ns = ns, from_cache = True\<rparr>;
          s = bump (count_hit kind) s;
          s = record_event env ''lookup'' (''hit '' @ lookup_outcome_name kind @ '' op=''
                @ operation (req_key req)) s
      in (res, s))"

definition lookup_impl ::
  "'p Env \<Rightarrow> KernelLookupRequest \<Rightarrow> 'p Impl \<Rightarrow> KernelLookupResult result \<times> 'p Impl" where
  "lookup_impl env req s =
     (let (t0, s) = now_ns env s;
          req = req\<lparr>req_key := finalized (req_key req)\<rparr>
      in if \<not> k_finalized (req_key req) then (fail EC_InvalidArgument ''key not finalizable'', s)
         else
           let req = default_namespace s req;
               candidates = collect_candidates (req_key req) s;
               best = min_element candidate_distance (compatible_candidates req candidates);
               (t1, s) = now_ns env s
           in case best of
                None \<Rightarrow> (let (r, s) = lookup_miss env req candidates (t1 - t0) s in (Inr r, s))
              | Some chosen \<Rightarrow> (let (r, s) = lookup_hit env req chosen (t1 - t0) s in (Inr r, s)))"

subsection \<open>Lemmas\<close>

lemma min_element_None [simp]: "min_element d xs = None \<longleftrightarrow> xs = []"
  by (cases xs) (auto split: option.splits)

lemma min_element_Some:
  "min_element d xs = Some x \<Longrightarrow> x \<in> set xs \<and> (\<forall>y \<in> set xs. d x \<le> d y)"
proof (induction xs arbitrary: x)
  case (Cons a xs)
  then show ?case
    by (cases "min_element d xs") (force split: if_splits)+
qed simp

lemma emit_all_eq: "emit_all s is = map emit (List.map_filter (\<lambda>i. find_rec i s) is)"
  by (induction "is") (simp_all add: List.map_filter_def split: option.splits)

lemma set_emit_all: "c \<in> set (emit_all s is) \<longleftrightarrow> (\<exists>i \<in> set is. \<exists>r. find_rec i s = Some r \<and> c = emit r)"
  by (induction "is") (auto split: option.splits)

lemma emit_all_cong: "by_id s = by_id t \<Longrightarrow> emit_all s is = emit_all t is"
  by (simp add: emit_all_eq find_rec_def)

lemma collect_cong:
  "by_id s = by_id t \<Longrightarrow> by_key s = by_key t \<Longrightarrow> by_operation s = by_operation t \<Longrightarrow>
    collect_candidates k s = collect_candidates k t"
  by (simp add: collect_candidates_def emit_all_cong [of s t] Let_def)

lemma emit_sel [simp]:
  "c_rec (emit r) = rec_id r" "c_key (emit r) = rec_key r" "c_gen (emit r) = rec_generation r"
  "c_state (emit r) = rec_state r" "c_tier (emit r) = rec_tier r" "c_validated (emit r) = validated r"
  "c_invalidated (emit r) = invalidated r" "c_corrupt (emit r) = corrupt r"
  by (simp_all add: emit_def)

lemma default_namespace_key [simp]:
  "req_key (default_namespace s req) = req_key req" "req_policy (default_namespace s req) = req_policy req"
  by (simp_all add: default_namespace_def)

text \<open>The records that the lookup of a key considers.\<close>

definition candidate_records :: "KernelCompatibilityKey \<Rightarrow> 'p Impl \<Rightarrow> ArtifactRecord set" where
  "candidate_records k s = {r. emit r \<in> set (collect_candidates k s) \<and> find_rec (rec_id r) s = Some r}"

lemma candidate_emit:
  assumes "index_inv s" and "c \<in> set (collect_candidates k s)"
  shows "\<exists>r. c = emit r \<and> find_rec (rec_id r) s = Some r"
proof -
  obtain i r where "find_rec i s = Some r" "c = emit r"
    using assms(2) by (auto simp: collect_candidates_def set_emit_all Let_def split: if_splits)
  then show ?thesis using index_inv_find [OF assms(1)] by blast
qed

text \<open>A record the lookup may return for a request.\<close>

definition acceptable :: "KernelLookupRequest \<Rightarrow> ArtifactRecord \<Rightarrow> bool" where
  "acceptable req r \<longleftrightarrow> usable r \<and> validated r \<and>
     compatible (evaluate_compatibility (finalized (req_key req)) (rec_key r) (req_policy req))"

definition distance_to :: "KernelLookupRequest \<Rightarrow> ArtifactRecord \<Rightarrow> int" where
  "distance_to req r =
     compatibility_distance (evaluate_compatibility (finalized (req_key req)) (rec_key r) (req_policy req))"

lemma set_compatible_candidates:
  "x \<in> set (compatible_candidates req cs) \<longleftrightarrow>
    (\<exists>c \<in> set cs. x = decide req c \<and> healthy c \<and> is_eligible (c_state c) \<and>
      compatible (evaluate_compatibility (req_key req) (c_key c) (req_policy req)))"
  by (auto simp: compatible_candidates_def decide_def)

lemma compatible_candidates_iff:
  assumes "index_inv s"
  shows "c \<in> set (compatible_candidates req (collect_candidates k s)) \<longleftrightarrow>
    (\<exists>r \<in> candidate_records k s. c = decide req (emit r) \<and> usable r \<and> validated r \<and>
      compatible (evaluate_compatibility (req_key req) (rec_key r) (req_policy req)))"
  (is "?L \<longleftrightarrow> ?R")
proof
  assume ?L
  then obtain d where d: "d \<in> set (collect_candidates k s)" "c = decide req d" "healthy d"
    "is_eligible (c_state d)" "compatible (evaluate_compatibility (req_key req) (c_key d) (req_policy req))"
    unfolding set_compatible_candidates by blast
  from candidate_emit [OF assms d(1)] obtain r where "d = emit r" "find_rec (rec_id r) s = Some r" by blast
  with d show ?R by (intro bexI [of _ r]) (simp_all add: candidate_records_def healthy_def usable_def)
next
  assume ?R
  then obtain r where "emit r \<in> set (collect_candidates k s)" "c = decide req (emit r)" "usable r" "validated r"
    "compatible (evaluate_compatibility (req_key req) (rec_key r) (req_policy req))"
    unfolding candidate_records_def by blast
  then show ?L
    unfolding set_compatible_candidates
    by (intro bexI [of _ "emit r"]) (simp_all add: healthy_def usable_def)
qed

lemma is_hit_hit_kind [simp]:
  "is_hit \<lparr>outcome = hit_kind c, lr_artifact = a, lr_generation = g, lr_decision = d, lr_notes = n,
     lr_lookup_ns = t, from_cache = b\<rparr>"
  by (auto simp: hit_kind_def is_hit_def split: ResidencyTier.splits)

lemma lookup_frame: "lookup_impl env req s = (res, s') \<Longrightarrow> same_records s s' \<and> same_outer s s'"
  by (auto simp: lookup_impl_def lookup_miss_def lookup_hit_def now_ns_def Let_def same_records_def
      split: if_splits option.splits)

text \<open>The whole behaviour of a lookup with a finalizable key.\<close>

lemma lookup_cases:
  assumes inv: "index_inv s" and key: "structure_ok (req_key req)"
    and run: "lookup_impl env req s = (res, s')"
  shows "(\<exists>r \<in> candidate_records (finalized (req_key req)) s. acceptable req r \<and>
      (\<forall>r' \<in> candidate_records (finalized (req_key req)) s. acceptable req r' \<longrightarrow> distance_to req r \<le> distance_to req r') \<and>
      (\<exists>lr. res = Inr lr \<and> is_hit lr \<and> lr_artifact lr = Some (rec_id r) \<and> lr_generation lr = Some (rec_generation r) \<and>
        lr_decision lr = evaluate_compatibility (finalized (req_key req)) (rec_key r) (req_policy req)))
    \<or> (\<forall>r \<in> candidate_records (finalized (req_key req)) s. \<not> acceptable req r) \<and>
      (\<exists>lr. res = Inr lr \<and> \<not> is_hit lr \<and> lr_artifact lr = None)"
proof -
  define k where "k = finalized (req_key req)"
  define s1 where "s1 = s\<lparr>ticks := Suc (ticks s)\<rparr>"
  define rq where "rq = default_namespace s1 (req\<lparr>req_key := k\<rparr>)"
  define cs where "cs = collect_candidates k s"
  have kf: "k_finalized k" using key by (simp add: k_def finalize_eq)
  have cs1: "collect_candidates k s1 = cs" unfolding cs_def by (rule collect_cong) (simp_all add: s1_def)
  have rqk: "req_key rq = k" "req_policy rq = req_policy req" by (simp_all add: rq_def)
  note iff = compatible_candidates_iff [OF inv, of _ rq k, folded cs_def, unfolded rqk]
  show ?thesis
  proof (cases "min_element candidate_distance (compatible_candidates rq cs)")
    case None
    then have "compatible_candidates rq cs = []" by simp
    then have "\<forall>r \<in> candidate_records k s. \<not> acceptable req r"
      using iff by (auto simp: acceptable_def k_def)
    moreover have "\<exists>lr. res = Inr lr \<and> \<not> is_hit lr \<and> lr_artifact lr = None"
      using run None kf unfolding lookup_impl_def
      by (auto simp: now_ns_def Let_def k_def [symmetric] s1_def [symmetric] rq_def [symmetric] rqk cs1
          lookup_miss_def is_hit_def KernelLookupResult_new_def split: if_splits)
    ultimately show ?thesis unfolding k_def by blast
  next
    case (Some c)
    then have c: "c \<in> set (compatible_candidates rq cs)"
      and least: "\<forall>d \<in> set (compatible_candidates rq cs). candidate_distance c \<le> candidate_distance d"
      by (auto dest: min_element_Some)
    from c iff obtain r where r: "r \<in> candidate_records k s" and cr: "c = decide rq (emit r)"
      and acc: "acceptable req r"
      by (auto simp: acceptable_def k_def)
    have dist: "candidate_distance (decide rq (emit r')) = distance_to req r'" for r'
      by (simp add: candidate_distance_def decide_def distance_to_def rqk k_def)
    have "\<forall>r' \<in> candidate_records k s. acceptable req r' \<longrightarrow> distance_to req r \<le> distance_to req r'"
      using least iff unfolding cr dist by (metis acceptable_def dist k_def)
    moreover have "\<exists>lr. res = Inr lr \<and> is_hit lr \<and> lr_artifact lr = Some (rec_id r) \<and>
        lr_generation lr = Some (rec_generation r) \<and>
        lr_decision lr = evaluate_compatibility k (rec_key r) (req_policy req)"
      using run Some kf unfolding lookup_impl_def
      by (auto simp: now_ns_def Let_def k_def [symmetric] s1_def [symmetric] rq_def [symmetric] rqk cs1
          lookup_hit_def cr decide_def)
    ultimately show ?thesis using r acc unfolding k_def by blast
  qed
qed

lemma acceptable_finalized [simp]:
  "acceptable (q\<lparr>req_key := finalized (req_key q)\<rparr>) r = acceptable q r"
  by (simp add: acceptable_def)

lemma candidate_exactI:
  assumes inv: "index_inv s" and r: "find_rec i s = Some r" and d: "key_digest (rec_key r) = key_digest k"
  shows "r \<in> candidate_records k s"
proof -
  have id: "rec_id r = i" using index_inv_find [OF inv r] by simp
  have "i \<in> set (ids_of (key_digest k) (by_key s))"
    using inv r d by (auto simp: index_inv_def indexes_def find_rec_def)
  then have "emit r \<in> set (emit_all s (ids_of (key_digest k) (by_key s)))"
    using r by (auto simp: set_emit_all)
  then show ?thesis
    using r id by (auto simp: candidate_records_def collect_candidates_def Let_def)
qed

text \<open>A usable, validated record with exactly the requested key makes the lookup an exact hit.\<close>

lemma lookup_exact:
  assumes inv: "index_inv s" and r: "find_rec i s = Some r" "usable r" "validated r"
    and k: "rec_key r = k" "finalize k = (True, k)" "req_key q = k" and l: "lookup_impl env q s = (res, s')"
  shows "\<exists>lr. res = Inr lr \<and> is_hit lr \<and> is_exact (lr_decision lr)"
proof -
  have ok: "structure_ok k" "finalized k = k" using k(2) by (auto simp: finalize_eq split: if_splits)
  have cand: "r \<in> candidate_records k s" using k by (intro candidate_exactI [OF inv r(1)]) simp
  have acc: "acceptable q r" "distance_to q r = 0"
    using evaluate_same [of k k "req_policy q"] k ok r by (simp_all add: acceptable_def distance_to_def)
  from lookup_cases [OF inv _ l] k ok cand acc obtain r' lr where
    "distance_to q r' \<le> 0" "res = Inr lr" "is_hit lr"
    "lr_decision lr = evaluate_compatibility k (rec_key r') (req_policy q)"
    by fastforce
  then show ?thesis using k ok by (auto simp: distance_to_def distance_exact)
qed

end
