(* ===== verification/KC_Residency.thy ===== *)
theory KC_Residency
  imports KC_Index "HOL-Library.Product_Lexorder"
begin

text \<open>
  Residency and eviction (\<^verbatim>\<open>src/residency.cpp\<close>, \<^verbatim>\<open>evict_impl\<close> and the pin operations of
  \<^verbatim>\<open>src/cache.cpp\<close>). A call that may not return is a value of option type, where \<^const>\<open>None\<close> is
  not returning; the eviction loop is shown to return.
\<close>

subsection \<open>Operations\<close>

text \<open>
  \<^verbatim>\<open>ensure_bytes\<close>. The record pointer is never dangling: the branch for an unknown id is never
  taken from the callers.
\<close>

definition ensure_bytes :: "'p Env \<Rightarrow> ArtifactId \<Rightarrow> 'p Impl \<Rightarrow> bytes result \<times> 'p Impl" where
  "ensure_bytes env i s =
     (case find_rec i s of
        None \<Rightarrow> (fail EC_NotFound ''artifact not found'', s)
      | Some r \<Rightarrow>
          if rec_bytes r \<noteq> [] then (Inr (rec_bytes r), s)
          else case (persistence_open s, persistence s) of
                 (True, Some p) \<Rightarrow>
                   (case ps_get (store env) p i of
                      Inr sa \<Rightarrow> (Inr (sa_bytes sa), modify i (reload_update (sa_bytes sa)) s)
                    | Inl e \<Rightarrow> (Inl e, s))
               | _ \<Rightarrow> (fail EC_NotFound ''bytes absent and no persistence to reload from'', s))"

definition evict_impl :: "'p Env \<Rightarrow> ArtifactId \<Rightarrow> bool \<Rightarrow> 'p Impl \<Rightarrow> unit result \<times> 'p Impl" where
  "evict_impl env i force s =
     (case find_rec i s of
        None \<Rightarrow> (fail EC_NotFound ''artifact not found'', s)
      | Some r \<Rightarrow>
          if lease_count r > 0 \<or> pin_count r > 0 then
            (if \<not> force then (fail EC_EvictionForbidden ''leased or pinned artifact'', s)
             else (fail EC_EvictionForbidden ''cannot evict an actively leased/pinned artifact'', s))
          else
            let s = modify i evict_begin_update s;
                s = unload_module i s;
                s = modify i evict_end_update s;
                s = bump (\<lambda>st. st\<lparr>evictions := evictions st + 1\<rparr>) s;
                s = record_event env ''evict'' (''id='' @ str i) s
            in (ok, s))"

definition pin_impl :: "ArtifactId \<Rightarrow> 'p Impl \<Rightarrow> unit result \<times> 'p Impl" where
  "pin_impl i s =
     (case find_rec i s of
        None \<Rightarrow> (fail EC_NotFound ''artifact not found'', s)
      | Some r \<Rightarrow> (ok, modify i pin_update s))"

definition unpin_impl :: "ArtifactId \<Rightarrow> 'p Impl \<Rightarrow> unit result \<times> 'p Impl" where
  "unpin_impl i s =
     (case find_rec i s of
        None \<Rightarrow> (fail EC_NotFound ''artifact not found'', s)
      | Some r \<Rightarrow> (ok, modify i unpin_update s))"

record EvictionScore =
  recency :: rat
  frequency :: rat
  compile_cost :: rat
  reload_cost :: rat
  size_cost :: rat
  sc_device_footprint :: rat
  pin_penalty :: rat
  expected_reuse :: rat
  namespace_priority :: rat
  total :: rat

definition clamp01 :: "rat \<Rightarrow> rat" where
  "clamp01 x = (if x < 0 then 0 else if x > 1 then 1 else x)"

definition rat_of :: "u64 \<Rightarrow> rat" where
  "rat_of w = of_nat (unat w)"

definition compute_eviction_score :: "ArtifactRecord \<Rightarrow> u64 \<Rightarrow> ResidencyPolicy \<Rightarrow> EvictionScore" where
  "compute_eviction_score r now pol =
     (let age = (if now > last_access_ns r then now - last_access_ns r else 0);
          last_access_sec = rat_of age / 10 ^ 9;
          rc = clamp01 (last_access_sec / 3600) * 1;
          fq = clamp01 (rat_of (access_count r) / 100) * - 1;
          cc = - rat_of (compile_cost_ns r) / 10 ^ 9;
          rl = - rat_of (reload_cost_ns r) / 10 ^ 9;
          sz = rat_of (host_bytes (ad_sizes (rec_desc r))) / (1024 * 1024);
          df = rat_of (device_footprint r) / (1024 * 1024);
          pp = rat_of (pin_count r) * - 100;
          er = rat_of (rec_reuse_count r) * - (1 / 100);
          np = rp_namespace_priority pol * - 1
      in \<lparr>recency = rc, frequency = fq, compile_cost = cc, reload_cost = rl, size_cost = sz,
          sc_device_footprint = df, pin_penalty = pp, expected_reuse = er, namespace_priority = np,
          total = max 0 (rc + fq + (if compile_cost_aware pol then cc else 0)
            + (if reload_cost_aware pol then rl else 0) + (if size_aware pol then sz else 0)
            + pp + er + np)\<rparr>)"

text \<open>
  One pass of the loop of \<^verbatim>\<open>evict_to_fit\<close> over the records: the bytes in use, the best victim so
  far with its score, and the number of clock readings.
\<close>

record VictimScan =
  used :: u64
  victim :: "ArtifactId option"
  best_score :: rat
  readings :: nat

definition skip_record :: "ArtifactRecord \<Rightarrow> bool" where
  "skip_record r \<longleftrightarrow> pin_count r > 0 \<or> lease_count r > 0 \<or> invalidated r \<or> corrupt r"

definition resident_for :: "ResidencyTier \<Rightarrow> ArtifactRecord \<Rightarrow> bool" where
  "resident_for tier r \<longleftrightarrow>
     (if tier = RT_DeviceResident then rec_tier r = RT_DeviceResident
      else rec_tier r = RT_HostResident \<or> rec_tier r = RT_DeviceResident)"

definition scan_one ::
  "'p Env \<Rightarrow> ResidencyTier \<Rightarrow> ResidencyPolicy \<Rightarrow> ArtifactId \<times> ArtifactRecord \<Rightarrow> VictimScan \<Rightarrow> VictimScan" where
  "scan_one env tier pol e v =
     (let (i, r) = e
      in if skip_record r then v
         else
           let v = (if tier = RT_DeviceResident then v\<lparr>used := used v + device_footprint r\<rparr>
                    else if resident_for tier r then v\<lparr>used := used v + host_bytes (ad_sizes (rec_desc r))\<rparr>
                    else v)
           in if \<not> resident_for tier r then v
              else
                let sc = total (compute_eviction_score r (clk env (readings v)) pol);
                    v = v\<lparr>readings := Suc (readings v)\<rparr>
                in if sc > best_score v then v\<lparr>best_score := sc, victim := Some i\<rparr> else v)"

definition scan_victims :: "'p Env \<Rightarrow> ResidencyTier \<Rightarrow> 'p Impl \<Rightarrow> VictimScan" where
  "scan_victims env tier s =
     fold (scan_one env tier (residency (cfg s))) (by_id s)
       \<lparr>used = 0, victim = None, best_score = - (10 ^ 300), readings = ticks s\<rparr>"

definition budget_for :: "ResidencyTier \<Rightarrow> 'p Impl \<Rightarrow> u64" where
  "budget_for tier s =
     (if tier = RT_DeviceResident then device_budget_bytes (residency (cfg s))
      else host_budget_bytes (residency (cfg s)))"

definition applies :: "ResidencyTier \<Rightarrow> 'p Impl \<Rightarrow> bool" where
  "applies tier s =
     (if tier = RT_DeviceResident then apply_device_budget (residency (cfg s))
      else apply_host_budget (residency (cfg s)))"

partial_function (option) evict_to_fit :: "'p Env \<Rightarrow> ResidencyTier \<Rightarrow> 'p Impl \<Rightarrow> 'p Impl option" where
  [code]: "evict_to_fit env tier s =
     (if \<not> applies tier s then Some s
      else
        let v = scan_victims env tier s;
            s' = s\<lparr>ticks := readings v\<rparr>
        in case victim v of
             None \<Rightarrow> Some s'
           | Some i \<Rightarrow>
               if used v \<le> budget_for tier s then Some s'
               else evict_to_fit env tier (snd (evict_impl env i False s')))"

text \<open>The block of \<^verbatim>\<open>promote_to_tier\<close> after a successful load, up to the eviction it triggers.\<close>

definition install_device ::
  "'p Env \<Rightarrow> ArtifactId \<Rightarrow> LoadedModuleHandle \<Rightarrow> u64 \<times> bool \<Rightarrow> 'p Impl \<Rightarrow> 'p Impl" where
  "install_device env i h fp s =
     (let s = modify i (device_update h fp) s;
          s = bump (\<lambda>st. st\<lparr>active_device_loads := active_device_loads st + 1\<rparr>) s
      in record_event env ''promote'' (''id='' @ str i @ '' to device'') s)"

definition promote_to_tier ::
  "'p Env \<Rightarrow> ArtifactId \<Rightarrow> ResidencyTier \<Rightarrow> DeviceDescriptor \<Rightarrow> 'p Impl \<Rightarrow> (unit result \<times> 'p Impl) option" where
  "promote_to_tier env i desired device s =
     (case find_rec i s of
        None \<Rightarrow> Some (fail EC_NotFound ''artifact not found'', s)
      | Some r \<Rightarrow>
          if desired = RT_None then Some (ok, s)
          else if rec_tier r \<ge> desired then Some (ok, s)
          else if desired = RT_DeviceResident then
            (case ensure_bytes env i s of
               (Inl e, s) \<Rightarrow> Some (Inl e, s)
             | (Inr b, s) \<Rightarrow>
                 (case device_loader (rec_key r) s of
                    None \<Rightarrow> Some (fail EC_NotSupported ''no loader for host->device promotion'', s)
                  | Some (be, ld) \<Rightarrow>
                      (case load_fn ld (rec_key r) b device of
                         Inl e \<Rightarrow> Some (Inl e, s)
                       | Inr h \<Rightarrow>
                           map_option (\<lambda>s. (ok, s)) (evict_to_fit env RT_DeviceResident
                             (install_device env i h (resident_footprint ld h) (note_load be h s))))))
          else if desired = RT_HostResident then
            (case ensure_bytes env i s of
               (Inl e, s) \<Rightarrow> Some (Inl e, s)
             | (Inr b, s) \<Rightarrow> Some (ok, modify i host_update s))
          else Some (ok, s))"

record EvictionCandidate =
  ec_artifact_lo :: u64
  ec_artifact_hi :: u64
  score :: EvictionScore
  ec_tier :: string
  ec_reason :: string

definition score_reason :: "(rat \<Rightarrow> string) \<Rightarrow> EvictionScore \<Rightarrow> string" where
  "score_reason fmt sc =
     ''recency='' @ fmt (recency sc) @ '' freq='' @ fmt (frequency sc) @ '' compile='' @ fmt (compile_cost sc)
     @ '' reload='' @ fmt (reload_cost sc) @ '' size='' @ fmt (size_cost sc) @ '' pin='' @ fmt (pin_penalty sc)"

text \<open>\<^verbatim>\<open>eviction_candidates_impl\<close>: highest score first, ties by descending id.\<close>

fun score_candidates ::
  "'p Env \<Rightarrow> ResidencyPolicy \<Rightarrow> nat \<Rightarrow> index \<Rightarrow> EvictionCandidate list \<times> nat" where
  "score_candidates env pol n [] = ([], n)"
| "score_candidates env pol n ((i, r) # rs) =
     (if skip_record r then score_candidates env pol n rs
      else let (cs, m) = score_candidates env pol (Suc n) rs;
               sc = compute_eviction_score r (clk env n) pol
           in (\<lparr>ec_artifact_lo = id_lo i, ec_artifact_hi = id_hi i, score = sc,
                ec_tier = residency_tier_name (rec_tier r), ec_reason = score_reason (show_double env) sc\<rparr> # cs, m))"

definition candidate_rank :: "EvictionCandidate \<Rightarrow> rat \<times> int \<times> int" where
  "candidate_rank c = (- total (score c), - uint (ec_artifact_hi c), - uint (ec_artifact_lo c))"

definition eviction_candidates_impl ::
  "'p Env \<Rightarrow> u32 \<Rightarrow> 'p Impl \<Rightarrow> EvictionCandidate list result \<times> 'p Impl" where
  "eviction_candidates_impl env top_n s =
     (let (out, n) = score_candidates env (residency (cfg s)) (ticks s) (by_id s);
          out = sort_key candidate_rank out
      in (Inr (if length out > unat top_n then take (unat top_n) out else out), s\<lparr>ticks := n\<rparr>))"


subsection \<open>Eviction keeps the invariant and spares records in use\<close>

text \<open>Every branch of these operations is a chain of record updates and frame changes.\<close>

lemma evolves_ensure_bytes: "ensure_bytes env i s = (res, s') \<Longrightarrow> evolves s s'"
  by (auto simp: ensure_bytes_def intro!: evolves_intros split: option.splits if_splits sum.splits bool.splits prod.splits)

lemma evolves_evict: "evict_impl env i force s = (res, s') \<Longrightarrow> evolves s s'"
  by (auto simp: evict_impl_def Let_def intro!: evolves_intros split: option.splits if_splits)

lemma evolves_pin: "pin_impl i s = (res, s') \<Longrightarrow> evolves s s'"
  by (auto simp: pin_impl_def intro!: evolves_intros split: option.splits)

lemma evolves_unpin: "unpin_impl i s = (res, s') \<Longrightarrow> evolves s s'"
  by (auto simp: unpin_impl_def intro!: evolves_intros split: option.splits)

text \<open>Records that are leased or pinned, and what an operation leaves of them.\<close>

definition held :: "ArtifactRecord \<Rightarrow> bool" where
  "held r \<longleftrightarrow> lease_count r > 0 \<or> pin_count r > 0"

definition spares_held :: "'p Impl \<Rightarrow> 'p Impl \<Rightarrow> bool" where
  "spares_held s s' \<longleftrightarrow> (\<forall>i r. find_rec i s = Some r \<and> held r \<longrightarrow> find_rec i s' = Some r)"

lemma spares_held_refl [simp]: "spares_held s s"
  by (simp add: spares_held_def)

lemma spares_held_trans [trans]: "spares_held s t \<Longrightarrow> spares_held t u \<Longrightarrow> spares_held s u"
  by (auto simp: spares_held_def)

lemma spares_held_frame [simp]:
  "spares_held s (t\<lparr>ticks := n\<rparr>) = spares_held s t" "spares_held (s\<lparr>ticks := n\<rparr>) t = spares_held s t"
  by (simp_all add: spares_held_def)

lemma spares_held_evict: "evict_impl env i force s = (res, s') \<Longrightarrow> spares_held s s'"
  by (auto simp: evict_impl_def spares_held_def held_def Let_def split: option.splits if_splits)

lemma same_leases_evict: "evict_impl env i force s = (res, s') \<Longrightarrow> same_leases s s'"
  by (auto simp: evict_impl_def Let_def intro!: same_leases_intros split: option.splits if_splits)

lemma same_leases_ensure_bytes: "ensure_bytes env i s = (res, s') \<Longrightarrow> same_leases s s'"
  by (auto simp: ensure_bytes_def intro!: same_leases_intros split: option.splits if_splits sum.splits bool.splits prod.splits)

lemma same_leases_pin: "pin_impl i s = (res, s') \<Longrightarrow> same_leases s s'"
  by (auto simp: pin_impl_def intro!: same_leases_intros split: option.splits)

lemma same_leases_unpin: "unpin_impl i s = (res, s') \<Longrightarrow> same_leases s s'"
  by (auto simp: unpin_impl_def intro!: same_leases_intros split: option.splits)

lemma evict_frame: "evict_impl env i force s = (res, s') \<Longrightarrow> same_outer s s'"
  by (auto simp: evict_impl_def Let_def split: option.splits if_splits)

text \<open>What one eviction does to the record it evicts.\<close>

definition evicted :: "ArtifactRecord \<Rightarrow> ArtifactRecord" where
  "evicted r = evict_end_update (evict_begin_update r)"

lemma map_entry_twice: "AList.map_entry i f (AList.map_entry i g m) = AList.map_entry i (f \<circ> g) m"
  by (induction m) auto

lemma evicted_eq: "(\<lambda>r. evict_end_update (evict_begin_update r)) = evicted"
  by (simp add: fun_eq_iff evicted_def)

lemma evict_success:
  "find_rec i s = Some r \<Longrightarrow> \<not> held r \<Longrightarrow>
    fst (evict_impl env i force s) = ok \<and> find_rec i (snd (evict_impl env i force s)) = Some (evicted r) \<and>
    by_id (snd (evict_impl env i force s)) = AList.map_entry i evicted (by_id s)"
  by (auto simp: evict_impl_def held_def evicted_eq Let_def modify_def map_entry_twice comp_def
      find_rec_def map_of_map_entry)

lemma evicted_tier: "rec_tier (evicted r) \<in> {RT_MetadataOnly, RT_PersistentStorage}"
  by (auto simp: evicted_def evict_end_update_def evict_begin_update_def demoted_tier_def Let_def)

subsection \<open>The eviction loop returns\<close>

definition evictable :: "ResidencyTier \<Rightarrow> ArtifactRecord \<Rightarrow> bool" where
  "evictable tier r \<longleftrightarrow> \<not> skip_record r \<and> resident_for tier r"

lemma evictable_not_held: "evictable tier r \<Longrightarrow> \<not> held r"
  by (auto simp: evictable_def skip_record_def held_def)

definition load_of :: "ResidencyTier \<Rightarrow> ArtifactRecord \<Rightarrow> u64" where
  "load_of tier r =
     (if skip_record r then 0
      else if tier = RT_DeviceResident then device_footprint r
      else if resident_for tier r then host_bytes (ad_sizes (rec_desc r)) else 0)"

text \<open>The bytes that count against a budget: records in use are not counted by the code.\<close>

definition used_bytes :: "ResidencyTier \<Rightarrow> 'p Impl \<Rightarrow> u64" where
  "used_bytes tier s = sum_list (map (load_of tier \<circ> snd) (by_id s))"

lemma total_nonneg: "total (compute_eviction_score r now pol) \<ge> 0"
  by (simp add: compute_eviction_score_def Let_def)

lemma scan_one_used:
  "used (scan_one env tier pol e v) = used v + load_of tier (snd e)"
  by (cases e) (simp add: scan_one_def load_of_def evictable_def Let_def)

lemma fold_scan_used:
  "used (fold (scan_one env tier pol) es v) = used v + sum_list (map (load_of tier \<circ> snd) es)"
  by (induction es arbitrary: v) (simp_all add: scan_one_used add.assoc)

definition scan_inv :: "ResidencyTier \<Rightarrow> (ArtifactId \<times> ArtifactRecord) set \<Rightarrow> VictimScan \<Rightarrow> bool" where
  "scan_inv tier E v \<longleftrightarrow>
     (case victim v of
        None \<Rightarrow> best_score v < 0 \<and> (\<forall>e \<in> E. \<not> evictable tier (snd e))
      | Some i \<Rightarrow> \<exists>r. (i, r) \<in> E \<and> evictable tier r)"

lemma scan_one_victim:
  fixes i r v env pol
  defines "sc \<equiv> total (compute_eviction_score r (clk env (readings v)) pol)"
  shows "victim (scan_one env tier pol (i, r) v) =
      (if evictable tier r \<and> sc > best_score v then Some i else victim v)"
    and "best_score (scan_one env tier pol (i, r) v) =
      (if evictable tier r \<and> sc > best_score v then sc else best_score v)"
  by (auto simp: scan_one_def evictable_def Let_def sc_def)

lemma scan_one_inv:
  assumes "scan_inv tier E v"
  shows "scan_inv tier (insert e E) (scan_one env tier pol e v)"
proof (cases e)
  case (Pair i r)
  show ?thesis
    using assms total_nonneg [of r "clk env (readings v)" pol]
    by (cases "victim v") (auto simp: Pair scan_inv_def scan_one_victim)
qed

lemma fold_scan_inv:
  "scan_inv tier E v \<Longrightarrow> scan_inv tier (E \<union> set es) (fold (scan_one env tier pol) es v)"
proof (induction es arbitrary: E v)
  case (Cons e es)
  then show ?case using Cons.IH [OF scan_one_inv [OF Cons.prems]] by simp
qed simp

lemma scan_victims_inv: "scan_inv tier (set (by_id s)) (scan_victims env tier s)"
proof -
  have "scan_inv tier {} \<lparr>used = 0, victim = None, best_score = - (10 ^ 300), readings = ticks s\<rparr>"
    by (simp add: scan_inv_def)
  from fold_scan_inv [OF this, of "by_id s" env "residency (cfg s)"] show ?thesis
    by (simp only: scan_victims_def sup_bot_left Un_empty_left)
qed

lemma scan_victims_used: "used (scan_victims env tier s) = used_bytes tier s"
  by (simp add: scan_victims_def fold_scan_used used_bytes_def)

text \<open>The measure: records resident on host or device.\<close>

definition residents :: "'p Impl \<Rightarrow> nat" where
  "residents s = length (filter (\<lambda>e. rec_tier (snd e) > RT_PersistentStorage) (by_id s))"

lemma filter_map_entry_less:
  "distinct (map fst m) \<Longrightarrow> (i, r) \<in> set m \<Longrightarrow> P r \<Longrightarrow> \<not> P (f r) \<Longrightarrow>
    length (filter (P \<circ> snd) (AList.map_entry i f m)) < length (filter (P \<circ> snd) m)"
proof (induction m)
  case (Cons e m)
  obtain j x where e: "e = (j, x)" by (cases e)
  show ?case
  proof (cases "j = i")
    case True
    then have "x = r" using Cons.prems e by (auto simp: rev_image_eqI)
    then show ?thesis using Cons.prems e True by simp
  next
    case False
    then show ?thesis using Cons e by simp
  qed
qed simp

lemma resident_tier: "resident_for tier r \<Longrightarrow> rec_tier r > RT_PersistentStorage"
  by (auto simp: resident_for_def less_ResidencyTier_def split: if_splits)

lemma residents_evict:
  assumes inv: "index_inv s" and i: "(i, r) \<in> set (by_id s)" and r: "evictable tier r"
  shows "residents (snd (evict_impl env i force s)) < residents s"
proof -
  have d: "distinct (map fst (by_id s))" using inv by (simp add: index_inv_def)
  then have "find_rec i s = Some r" using i by (simp add: find_rec_def)
  then have "by_id (snd (evict_impl env i force s)) = AList.map_entry i evicted (by_id s)"
    using evict_success evictable_not_held [OF r] by blast
  moreover have "rec_tier r > RT_PersistentStorage" using r by (auto simp: evictable_def intro: resident_tier)
  moreover have "\<not> rec_tier (evicted r) > RT_PersistentStorage"
    using evicted_tier [of r] by (auto simp: less_ResidencyTier_def)
  ultimately show ?thesis
    using filter_map_entry_less [OF d i, of "\<lambda>r. rec_tier r > RT_PersistentStorage" evicted]
    by (simp add: residents_def comp_def)
qed

text \<open>What holds when the loop has returned.\<close>

definition fits :: "ResidencyTier \<Rightarrow> 'p Impl \<Rightarrow> bool" where
  "fits tier s \<longleftrightarrow> applies tier s \<longrightarrow>
     used_bytes tier s \<le> budget_for tier s \<or> (\<forall>(i, r) \<in> set (by_id s). \<not> evictable tier r)"

lemma evict_to_fit_returns:
  assumes "index_inv s"
  shows "\<exists>s'. evict_to_fit env tier s = Some s' \<and> evolves s s' \<and> spares_held s s' \<and> fits tier s' \<and>
    same_outer s s' \<and> same_leases s s'"
  using assms
proof (induction "residents s" arbitrary: s rule: less_induct)
  case less
  let ?v = "scan_victims env tier s"
  let ?t = "s\<lparr>ticks := readings ?v\<rparr>"
  have stop: ?case if "evict_to_fit env tier s = Some ?t" "fits tier ?t"
    using that by simp
  show ?case
  proof (cases "applies tier s")
    case False
    then show ?thesis by (subst evict_to_fit.simps) (simp add: fits_def)
  next
    case applies: True
    show ?thesis
    proof (cases "victim ?v")
      case None
      then have "fits tier ?t" using scan_victims_inv [of tier s env] by (auto simp: scan_inv_def fits_def)
      moreover have "evict_to_fit env tier s = Some ?t"
        by (subst evict_to_fit.simps) (simp add: applies None Let_def)
      ultimately show ?thesis by (intro stop)
    next
      case (Some i)
      then obtain r where r: "(i, r) \<in> set (by_id s)" "evictable tier r"
        using scan_victims_inv [of tier s env] by (auto simp: scan_inv_def)
      show ?thesis
      proof (cases "used ?v \<le> budget_for tier s")
        case True
        then have "fits tier ?t"
          by (auto simp: fits_def scan_victims_used used_bytes_def budget_for_def split: if_splits)
        moreover have "evict_to_fit env tier s = Some ?t"
          by (subst evict_to_fit.simps) (simp add: applies Some True Let_def)
        ultimately show ?thesis by (intro stop)
      next
        case False
        obtain res u where u: "evict_impl env i False ?t = (res, u)" by fastforce
        have "residents u < residents s"
          using residents_evict [of ?t i r tier env False] less.prems r u by (simp add: residents_def)
        moreover have ev: "evolves s u" using evolves_evict [OF u] evolves_trans [of s ?t u] by simp
        moreover have "index_inv u" using ev less.prems by (simp add: evolves_def)
        ultimately obtain s' where s': "evict_to_fit env tier u = Some s'" "evolves u s'" "spares_held u s'"
          "fits tier s'" "same_outer u s'" "same_leases u s'"
          using less.hyps [of u] by blast
        have "evict_to_fit env tier s = Some s'"
          by (subst evict_to_fit.simps) (simp add: applies Some False u Let_def s'(1))
        moreover have "spares_held s s'" using spares_held_evict [OF u] s'(3) spares_held_trans [of s u s'] by simp
        moreover have "evolves s s'" using ev s'(2) by (rule evolves_trans)
        moreover have "same_outer s s'" using evict_frame [OF u] s'(5) same_outer_trans [of ?t u s'] by (simp add: same_outer_def)
        moreover have "same_leases s s'"
          using same_leases_evict [OF u] s'(6) same_leases_trans [of s ?t u] same_leases_trans [of s u s'] by simp
        ultimately show ?thesis using s'(4) by blast
      qed
    qed
  qed
qed


subsection \<open>Promotion\<close>

lemma ensure_bytes_frame: "ensure_bytes env i s = (res, s') \<Longrightarrow> same_outer s s'"
  by (auto simp: ensure_bytes_def split: option.splits if_splits sum.splits bool.splits prod.splits)

lemma evict_to_fit_evolves:
  "evict_to_fit env tier s = Some s' \<Longrightarrow> evolves s s'"
  "evict_to_fit env tier s = Some s' \<Longrightarrow> index_inv s \<Longrightarrow>
    spares_held s s' \<and> fits tier s' \<and> same_outer s s' \<and> same_leases s s'"
  using evict_to_fit_returns [of s env tier] by (auto simp: evolves_def)

lemma promote_returns:
  assumes "index_inv s"
  shows "\<exists>res s'. promote_to_tier env i t d s = Some (res, s') \<and> evolves s s' \<and> same_outer s s' \<and>
    same_leases s s'"
proof -
  obtain b s1 where b: "ensure_bytes env i s = (b, s1)" by fastforce
  note ev = evolves_ensure_bytes [OF b] and fr = ensure_bytes_frame [OF b] same_leases_ensure_bytes [OF b]
  have dev: "\<exists>u. evict_to_fit env RT_DeviceResident (install_device env i h fp (note_load n h s1)) = Some u \<and>
      evolves s u \<and> same_outer s u \<and> same_leases s u" for h fp n
  proof -
    let ?t = "install_device env i h fp (note_load n h s1)"
    have v: "evolves s ?t" "same_outer s ?t" "same_leases s ?t"
      using ev fr by (auto simp: install_device_def Let_def intro!: evolves_intros same_leases_intros)
    then have "index_inv ?t" using assms by (simp add: evolves_def)
    from evict_to_fit_returns [OF this] v show ?thesis
      using evolves_trans same_outer_trans same_leases_trans by blast
  qed
  show ?thesis
    using ev fr
    by (auto simp: promote_to_tier_def b dev intro!: evolves_intros same_leases_intros
        split: option.splits sum.splits prod.splits)
qed

text \<open>Eviction of a record that was never leased takes it out of reach of every later lookup.\<close>

lemma evicted_dead:
  assumes "rec_ok r" and "rec_state r \<noteq> AS_InUse"
  shows "\<not> usable (evicted r)"
  using assms by (cases "rec_state r")
    (auto simp: evicted_def evict_end_update_def evict_begin_update_def try_state_def usable_def Let_def
      rec_ok_def published_state_def is_eligible_def successors)

end
