(* ===== verification/KC_Build.thy ===== *)
theory KC_Build
  imports KC_Lookup KC_Residency
begin

text \<open>
  Building (\<^verbatim>\<open>src/build.cpp\<close>, \<^verbatim>\<open>build_impl\<close> of \<^verbatim>\<open>src/cache.cpp\<close>). \<^verbatim>\<open>build_impl\<close> is the composition of
  the sections that the source runs under one lock each (or under none), so that the
  interleavings of several builders are built from the same functions.
\<close>

subsection \<open>The build unit\<close>

definition build_target :: "DeviceDescriptor \<Rightarrow> DeviceArchitecture \<Rightarrow> DeviceArchitecture" where
  "build_target d t = t\<lparr>da_vendor := dd_vendor d, da_family := dd_family d, da_arch_name := dd_arch_name d,
     da_compute_capability := dd_capability d\<rparr>"

definition make_build_request :: "'p Impl \<Rightarrow> KernelLookupRequest \<Rightarrow> KernelBackend \<Rightarrow> BuildRequest" where
  "make_build_request s req be =
     (let k = req_key req; d = req_device req; c = CompilationDescriptor_new
      in \<lparr>br_key = k, br_source = req_source req, br_backend = be_name be, br_device = d,
          br_compile = c\<lparr>cd_target := build_target d (cd_target c),
            cd_compiler := (cd_compiler c)\<lparr>
              ci_name := (if compiler_name k = [] then be_name be else compiler_name k),
              ci_version_major := compiler_version_major k, ci_version_minor := compiler_version_minor k,
              ci_version_patch := compiler_version_patch k\<rparr>,
            cd_codegen_flags := codegen_flags k\<rparr>,
          br_namespace = (if req_namespace req = [] then cfg_namespace (cfg s) else req_namespace req),
          logical_operation = operation k\<rparr>)"

definition failed_outcome :: "ErrorCode \<Rightarrow> string \<Rightarrow> ArtifactId \<Rightarrow> u64 \<Rightarrow> BuildOutcome" where
  "failed_outcome c m i g = BuildOutcome_new\<lparr>succeeded := False, o_error_code := c, o_error := m, o_id := i,
     o_generation := g\<rparr>"

definition make_descriptor ::
  "KernelLookupRequest \<Rightarrow> KernelBackend \<Rightarrow> BuildRequest \<Rightarrow> BuildResult \<Rightarrow> ValidationDescriptor \<Rightarrow> u64 \<Rightarrow> u64
    \<Rightarrow> ArtifactDescriptor" where
  "make_descriptor req be br res vd gen now =
     \<lparr>ad_id = derive_artifact_id (bres_bytes res) gen, ad_generation = gen, ad_key = req_key req,
      ad_format = artifact_format_name res, ad_namespace = br_namespace br, ad_backend = be_name be,
      ad_sizes = bres_sizes res,
      ad_compilation = (bres_compilation res)\<lparr>
        cd_target := build_target (br_device br) (cd_target (bres_compilation res))\<rparr>,
      ad_validation = vd, ad_provenance = bres_provenance res,
      bytes_sha256 = to_hex (digest (bres_bytes res)), published_at_ns = now,
      kernel_count = bres_kernel_count res\<rparr>"

definition complete_backend ::
  "KernelBackend option \<Rightarrow> (KernelBackend \<times> KernelBuilder \<times> KernelValidator \<times> KernelLoader) option" where
  "complete_backend b =
     do { be \<leftarrow> b; bu \<leftarrow> builder be; va \<leftarrow> validator be; ld \<leftarrow> loader be; Some (be, bu, va, ld) }"

text \<open>
  \<^verbatim>\<open>run_build\<close>, which runs with no lock held. A validator that answers \<^verbatim>\<open>NotSupported\<close> counts as
  an empty verdict, which does not pass.
\<close>

definition run_build ::
  "'p Env \<Rightarrow> KernelLookupRequest \<Rightarrow> u64 \<Rightarrow> BuildAttemptId \<Rightarrow> 'p Impl \<Rightarrow> BuildOutcome \<times> 'p Impl" where
  "run_build env req gen att s =
     (let req = req\<lparr>req_key := finalized (req_key req)\<rparr>;
          (t0, s) = now_ns env s
      in case complete_backend (find_backend (req_key req) s) of
           None \<Rightarrow> (failed_outcome EC_NotSupported
                      (''no complete backend (builder/validator/loader) for backend='' @ runtime_backend (req_key req))
                      (derive_artifact_id [] gen) gen, s)
         | Some (be, bu, va, ld) \<Rightarrow>
             let br = make_build_request s req be
             in case build_fn bu br of
                  Inl e \<Rightarrow> (failed_outcome (code e) (message e) (derive_artifact_id [] gen) gen, s)
                | Inr res \<Rightarrow>
                    let i = derive_artifact_id (bres_bytes res) gen;
                        (t1, s) = now_ns env s;
                        build_ns = t1 - t0;
                        vres = va (req_key req) (bres_bytes res) (req_device req);
                        (t2, s) = now_ns env s;
                        val_ns = t2 - t0 - build_ns
                    in (if (case vres of Inl e \<Rightarrow> code e \<noteq> EC_NotSupported | Inr _ \<Rightarrow> False)
                        then (failed_outcome (code (projl vres)) (''validation: '' @ message (projl vres)) i gen, s)
                        else
                          let vd = (case vres of Inl _ \<Rightarrow> ValidationDescriptor_new | Inr vd \<Rightarrow> vd)
                          in if \<not> all_passed vd
                            then (failed_outcome EC_ValidationFailed (''execution validation failed: ''
                                    @ (if backend_reason vd = [] then ''unspecified'' else backend_reason vd)) i gen, s)
                            else
                              let (t3, s) = now_ns env s;
                                  desc = make_descriptor req be br res vd gen t3;
                                  oc = \<lparr>o_id = i, o_generation = gen, o_bytes = bres_bytes res, o_desc = desc,
                                       o_error = [], o_error_code = EC_None, succeeded = True\<rparr>;
                                  s = bump (\<lambda>st. st\<lparr>compile_ns := compile_ns st + build_ns,
                                        validation_ns := validation_ns st + val_ns,
                                        cuda_exec_validations := cuda_exec_validations st
                                          + (if be_name be = ''cuda'' then 1 else 0)\<rparr>) s;
                                  s = record_event env ''build'' (''attempt='' @ str att @ '' id='' @ str i
                                        @ '' backend='' @ be_name be @ '' build_ms='' @ show_word (build_ns div 1000000)) s
                              in (oc, s)))"

subsection \<open>The sections of \<^verbatim>\<open>build_impl\<close>\<close>

text \<open>Under \<^verbatim>\<open>build_mtx_\<close>: join the build in flight for this key, or become its owner.\<close>

definition build_claim :: "'p Env \<Rightarrow> KernelLookupRequest \<Rightarrow> 'p Impl \<Rightarrow> (bool \<times> fence_ref) \<times> 'p Impl" where
  "build_claim env req s =
     (case map_of (in_flight s) (key_digest (req_key req)) of
        Some f \<Rightarrow> ((False, f), bump (\<lambda>st. st\<lparr>build_dedup := build_dedup st + 1\<rparr>) s)
      | None \<Rightarrow>
          let gen = next_generation s;
              s = s\<lparr>next_generation := gen + 1\<rparr>;
              (t, s) = now_ns env s;
              (x, s) = rand env s;
              att = mk_id t x;
              (t', s) = now_ns env s;
              f = length (fences s);
              s = s\<lparr>fences := fences s @ [\<lparr>attempt = att, fence_outcome = None, started_ns = t', build_generation = gen\<rparr>],
                    in_flight := (key_digest (req_key req), f) # in_flight s\<rparr>;
              s = bump (\<lambda>st. st\<lparr>active_builds := active_builds st + 1, builds := builds st + 1\<rparr>) s;
              s = record_event env ''build'' (''start attempt='' @ str att) s
          in ((True, f), s))"

text \<open>The counter and \<^verbatim>\<open>promise.set_value\<close>.\<close>

definition build_publish :: "fence_ref \<Rightarrow> BuildOutcome \<Rightarrow> 'p Impl \<Rightarrow> 'p Impl" where
  "build_publish f oc s =
     (let s = bump (\<lambda>st. if active_builds st > 0 then st\<lparr>active_builds := active_builds st - 1\<rparr> else st) s
      in s\<lparr>fences := (fences s)[f := ((fences s) ! f)\<lparr>fence_outcome := Some oc\<rparr>]\<rparr>)"

text \<open>Under \<^verbatim>\<open>build_mtx_\<close>: the fence leaves the table if it is still the one registered.\<close>

definition build_retire :: "KernelCompatibilityKey \<Rightarrow> fence_ref \<Rightarrow> 'p Impl \<Rightarrow> 'p Impl" where
  "build_retire k f s =
     (if map_of (in_flight s) (key_digest k) = Some f
      then s\<lparr>in_flight := AList.delete (key_digest k) (in_flight s)\<rparr> else s)"

text \<open>Under \<^verbatim>\<open>mtx_\<close>: the record is inserted unless its id is present.\<close>

definition build_insert :: "'p Env \<Rightarrow> BuildOutcome \<Rightarrow> 'p Impl \<Rightarrow> bool \<times> 'p Impl" where
  "build_insert env oc s =
     (case find_rec (o_id oc) s of
        Some _ \<Rightarrow> (False, s)
      | None \<Rightarrow> let (t, s) = now_ns env s
                in (True, insert_index_locked (make_record (o_desc oc) (o_bytes oc) t) s))"

definition stored_of :: "BuildOutcome \<Rightarrow> u64 \<Rightarrow> StoredArtifact" where
  "stored_of oc now =
     (let d = o_desc oc
      in \<lparr>sa_id = ad_id d, sa_generation = ad_generation d, sa_key = ad_key d, sa_bytes = o_bytes oc,
          sa_sizes = ad_sizes d, sa_provenance = ad_provenance d, sa_format = ad_format d, stored_ns = now,
          sa_sha256_hex = Some (bytes_sha256 d), sa_namespace = ad_namespace d\<rparr>)"

text \<open>
  Persisting outside the master lock. When the store reports a failure the source takes
  \<^verbatim>\<open>stats_mtx_\<close> and calls \<^verbatim>\<open>record_event\<close>, which takes the same non-recursive mutex: the
  thread never gets past it.
\<close>

definition build_persist :: "'p Env \<Rightarrow> BuildOutcome \<Rightarrow> 'p Impl \<Rightarrow> 'p Impl option" where
  "build_persist env oc s =
     (case (persistence_open s, persistence s) of
        (True, Some p) \<Rightarrow>
          (let (t, s) = now_ns env s;
               sa = stored_of oc t
           in case ps_put (store env) p sa of
                (Inr _, p') \<Rightarrow>
                  let s = s\<lparr>persistence := Some p'\<rparr>;
                      s = modify (o_id oc) persisted_update s
                  in Some (bump (\<lambda>st. st\<lparr>bytes_persisted := bytes_persisted st
                       + word_of_nat (length (sa_bytes sa))\<rparr>) s)
              | (Inl e, p') \<Rightarrow> None)
      | _ \<Rightarrow> Some s)"

text \<open>The owner after its build unit has returned.\<close>

definition build_finish ::
  "'p Env \<Rightarrow> BuildAttemptId \<Rightarrow> BuildOutcome \<Rightarrow> 'p Impl \<Rightarrow> (ArtifactDescriptor result \<times> 'p Impl) option" where
  "build_finish env att oc s =
     (if \<not> succeeded oc then
        let s = bump (\<lambda>st. st\<lparr>failed_builds := failed_builds st + 1\<rparr>) s;
            s = record_event env ''build'' (''failed attempt='' @ str att @ '' '' @ o_error oc) s
        in Some (fail (o_error_code oc) (o_error oc), s)
      else
        let s = record_event env ''build'' (''succeeded attempt='' @ str att @ '' id='' @ str (o_id oc)) s;
            (new_record, s) = build_insert env oc s
        in if new_record then map_option (\<lambda>s. (Inr (o_desc oc), s)) (build_persist env oc s)
           else Some (Inr (o_desc oc), s))"

text \<open>The waiter: \<^const>\<open>None\<close> while the future is not ready.\<close>

definition waiter_result :: "fence_ref \<Rightarrow> 'p Impl \<Rightarrow> ArtifactDescriptor result option" where
  "waiter_result f s =
     (case fence_outcome (fences s ! f) of
        None \<Rightarrow> None
      | Some oc \<Rightarrow>
          Some (if \<not> succeeded oc then fail (o_error_code oc) (''waiter observed failed build: '' @ o_error oc)
                else case find_rec (o_id oc) s of
                       None \<Rightarrow> fail EC_NotFound ''built artifact not in index''
                     | Some r \<Rightarrow> Inr (rec_desc r)))"

definition build_impl ::
  "'p Env \<Rightarrow> KernelLookupRequest \<Rightarrow> 'p Impl \<Rightarrow> ((ArtifactDescriptor result \<times> bool) \<times> 'p Impl) option" where
  "build_impl env req s =
     (let req = default_namespace s (req\<lparr>req_key := finalized (req_key req)\<rparr>)
      in case build_claim env req s of
           ((True, f), s) \<Rightarrow>
             let att = attempt (fences s ! f);
                 gen = build_generation (fences s ! f);
                 (oc, s) = run_build env req gen att s;
                 s = build_publish f oc s;
                 s = build_retire (req_key req) f s
             in map_option (\<lambda>(r, s). ((r, True), s)) (build_finish env att oc s)
         | ((False, f), s) \<Rightarrow> map_option (\<lambda>r. ((r, False), s)) (waiter_result f s))"


subsection \<open>What a build delivers\<close>

text \<open>A successful outcome is validated, carries its own checksum and is named after its bytes.\<close>

definition outcome_ok :: "BuildOutcome \<Rightarrow> bool" where
  "outcome_ok oc \<longleftrightarrow> succeeded oc \<longrightarrow>
     o_id oc = derive_artifact_id (o_bytes oc) (o_generation oc) \<and>
     ad_id (o_desc oc) = o_id oc \<and> ad_generation (o_desc oc) = o_generation oc \<and>
     all_passed (ad_validation (o_desc oc)) \<and> bytes_sha256 (o_desc oc) = to_hex (digest (o_bytes oc))"

lemma failed_outcome_sel [simp]:
  "\<not> succeeded (failed_outcome c m i g)" "o_generation (failed_outcome c m i g) = g"
  by (simp_all add: failed_outcome_def)

lemma run_build_outcome:
  "run_build env req gen att s = (oc, s') \<Longrightarrow> outcome_ok oc \<and> o_generation oc = gen"
  by (auto simp: run_build_def Let_def now_ns_def outcome_ok_def make_descriptor_def
      split: option.splits sum.splits if_splits)

lemma run_build_key:
  "run_build env req gen att s = (oc, s') \<Longrightarrow> succeeded oc \<Longrightarrow> ad_key (o_desc oc) = finalized (req_key req)"
  by (auto simp: run_build_def Let_def now_ns_def make_descriptor_def
      split: option.splits sum.splits if_splits)

lemma run_build_frame: "run_build env req gen att s = (oc, s') \<Longrightarrow> same_records s s' \<and> same_outer s s'"
  by (auto simp: run_build_def Let_def now_ns_def same_records_def
      split: option.splits sum.splits if_splits)

lemma claim_frame:
  "build_claim env req s = ((own, f), s') \<Longrightarrow> same_records s s' \<and> cfg s' = cfg s \<and> backends s' = backends s \<and>
    persistence s' = persistence s \<and> persistence_open s' = persistence_open s"
  by (auto simp: build_claim_def Let_def now_ns_def rand_def same_records_def split: option.splits)

lemma claim_owner:
  "build_claim env req s = ((True, f), s') \<Longrightarrow>
    map_of (in_flight s) (key_digest (req_key req)) = None \<and> f = length (fences s) \<and>
    next_generation s' = next_generation s + 1 \<and> in_flight s' = (key_digest (req_key req), f) # in_flight s \<and>
    (\<exists>att t. fences s' = fences s @ [\<lparr>attempt = att, fence_outcome = None, started_ns = t,
      build_generation = next_generation s\<rparr>])"
  by (auto simp: build_claim_def Let_def now_ns_def rand_def split: option.splits)

lemma claim_waiter:
  "build_claim env req s = ((False, f), s') \<Longrightarrow>
    map_of (in_flight s) (key_digest (req_key req)) = Some f \<and> same_outer s s'"
  by (auto simp: build_claim_def Let_def now_ns_def rand_def split: option.splits)

lemma publish_frame: "same_records s (build_publish f oc s)"
  by (simp add: build_publish_def same_records_def Let_def)

lemma retire_frame: "same_records s (build_retire k f s)"
  by (simp add: build_retire_def same_records_def)

lemma evolves_build_insert:
  "build_insert env oc s = (b, s') \<Longrightarrow> ad_id (o_desc oc) = o_id oc \<Longrightarrow> evolves s s'"
  by (auto simp: build_insert_def now_ns_def intro!: evolves_insert_after split: option.splits)

lemma build_insert_present:
  "build_insert env oc s = (b, s') \<Longrightarrow> ad_id (o_desc oc) = o_id oc \<Longrightarrow> \<exists>r. find_rec (o_id oc) s' = Some r"
  by (auto simp: build_insert_def now_ns_def find_rec_insert split: option.splits)

lemma evolves_persist: "build_persist env oc s = Some s' \<Longrightarrow> evolves s s'"
  by (auto simp: build_persist_def now_ns_def Let_def intro!: evolves_intros
      split: option.splits prod.splits bool.splits sum.splits)

lemma persist_present:
  "build_persist env oc s = Some s' \<Longrightarrow> find_rec i s = Some r \<Longrightarrow>
    \<exists>r'. find_rec i s' = Some r' \<and> rec_desc r' = rec_desc r \<and> rec_bytes r' = rec_bytes r"
  by (auto simp: build_persist_def now_ns_def Let_def persisted_update_def
      split: option.splits prod.splits bool.splits sum.splits)

lemma evolves_finish:
  assumes "build_finish env att oc s = Some (res, s')" and "outcome_ok oc"
  shows "evolves s s'"
proof (cases "succeeded oc")
  case True
  let ?s1 = "record_event env ''build'' (''succeeded attempt='' @ str att @ '' id='' @ str (o_id oc)) s"
  obtain b s2 where ins: "build_insert env oc ?s1 = (b, s2)" by fastforce
  have "evolves ?s1 s2" using evolves_build_insert [OF ins] assms(2) True by (simp add: outcome_ok_def)
  then have "evolves s s2" using evolves_trans [of s ?s1 s2] by simp
  then show ?thesis
    using assms(1) True ins
    by (auto simp: build_finish_def Let_def intro: evolves_trans [OF _ evolves_persist] split: if_splits)
qed (use assms in \<open>auto simp: build_finish_def Let_def\<close>)

lemma finish_success:
  assumes "build_finish env att oc s = Some (Inr d, s')" and "outcome_ok oc"
  shows "succeeded oc \<and> d = o_desc oc \<and> (\<exists>r. find_rec (ad_id d) s' = Some r)"
proof -
  have ok: "succeeded oc" "d = o_desc oc"
    using assms(1) by (auto simp: build_finish_def Let_def split: if_splits prod.splits)
  let ?s1 = "record_event env ''build'' (''succeeded attempt='' @ str att @ '' id='' @ str (o_id oc)) s"
  obtain b s2 where ins: "build_insert env oc ?s1 = (b, s2)" by fastforce
  then obtain r where r: "find_rec (ad_id d) s2 = Some r"
    using build_insert_present assms(2) ok by (fastforce simp: outcome_ok_def)
  show ?thesis
    using assms(1) ok ins r persist_present [of env oc s2 s' "ad_id d" r]
    by (auto simp: build_finish_def Let_def split: if_splits)
qed

lemma finish_failure:
  "build_finish env att oc s = Some (Inl e, s') \<Longrightarrow> \<not> succeeded oc \<and> same_records s s' \<and> same_outer s s'"
  by (auto simp: build_finish_def Let_def same_records_def split: if_splits prod.splits)

text \<open>The owner's run as a sequence of sections.\<close>

lemma build_owner:
  assumes "build_impl env req s = Some ((res, True), s')"
  obtains f s1 att gen oc s2 where
    "build_claim env (default_namespace s (req\<lparr>req_key := finalized (req_key req)\<rparr>)) s = ((True, f), s1)"
    "att = attempt (fences s1 ! f)" "gen = build_generation (fences s1 ! f)"
    "run_build env (default_namespace s (req\<lparr>req_key := finalized (req_key req)\<rparr>)) gen att s1 = (oc, s2)"
    "build_finish env att oc (build_retire (finalized (req_key req)) f (build_publish f oc s2)) = Some (res, s')"
  using assms
  by (auto simp: build_impl_def Let_def split: prod.splits bool.splits)

lemma build_owner_frame:
  assumes "build_impl env req s = Some ((res, True), s')"
  obtains oc att t where "outcome_ok oc" "o_generation oc = next_generation s" "evolves s t" "same_records s t"
    "build_finish env att oc t = Some (res, s')"
    "succeeded oc \<Longrightarrow> ad_key (o_desc oc) = finalized (finalized (req_key req))"
proof -
  from assms show thesis
  proof (rule build_owner)
    let ?rq = "default_namespace s (req\<lparr>req_key := finalized (req_key req)\<rparr>)"
    fix f :: fence_ref and s1 s2 :: "'a Impl" and att gen oc
    let ?t = "build_retire (finalized (req_key req)) f (build_publish f oc s2)"
    assume claim: "build_claim env ?rq s = ((True, f), s1)"
      and gen: "gen = build_generation (fences s1 ! f)"
      and run: "run_build env ?rq gen att s1 = (oc, s2)"
      and fin: "build_finish env att oc ?t = Some (res, s')"
    have "gen = next_generation s" using claim_owner [OF claim] gen by (auto simp: nth_append)
    moreover have rec: "same_records s ?t"
      using claim_frame [OF claim] run_build_frame [OF run] publish_frame [of s2 f oc]
        retire_frame [of "build_publish f oc s2" "finalized (req_key req)" f]
      by (simp add: same_records_def)
    ultimately show thesis
      using that [of oc ?t att] run_build_outcome [OF run] run_build_key [OF run] fin same_records_evolves [OF rec] by simp
  qed
qed

lemma evolves_build: "build_impl env req s = Some ((res, own), s') \<Longrightarrow> evolves s s'"
proof (cases own)
  case True
  assume "build_impl env req s = Some ((res, own), s')"
  then show ?thesis
    using True by (auto elim!: build_owner_frame intro: evolves_trans [OF _ evolves_finish])
next
  case False
  assume "build_impl env req s = Some ((res, own), s')"
  with False show ?thesis
    by (auto simp: build_impl_def Let_def split: prod.splits bool.splits
        dest!: claim_frame intro: same_records_evolves)
qed


subsection \<open>Building leaves the leases alone\<close>

lemma same_leases_build_insert:
  "build_insert env oc s = (b, s') \<Longrightarrow> ad_id (o_desc oc) = o_id oc \<Longrightarrow> same_leases s s'"
  by (auto simp: build_insert_def now_ns_def intro!: same_leases_insert split: option.splits)

lemma same_leases_persist: "build_persist env oc s = Some s' \<Longrightarrow> same_leases s s'"
  by (auto simp: build_persist_def now_ns_def Let_def intro!: same_leases_intros
      split: option.splits prod.splits bool.splits sum.splits)

lemma same_leases_finish:
  assumes "build_finish env att oc s = Some (res, s')" and "outcome_ok oc"
  shows "same_leases s s'"
proof (cases "succeeded oc")
  case True
  let ?s1 = "record_event env ''build'' (''succeeded attempt='' @ str att @ '' id='' @ str (o_id oc)) s"
  obtain b s2 where ins: "build_insert env oc ?s1 = (b, s2)" by fastforce
  have "same_leases ?s1 s2" using same_leases_build_insert [OF ins] assms(2) True by (simp add: outcome_ok_def)
  then have "same_leases s s2" using same_leases_trans [of s ?s1 s2] by simp
  then show ?thesis
    using assms(1) True ins
    by (auto simp: build_finish_def Let_def intro: same_leases_trans [OF _ same_leases_persist] split: if_splits)
qed (use assms in \<open>auto simp: build_finish_def Let_def\<close>)

lemma same_leases_build: "build_impl env req s = Some ((res, own), s') \<Longrightarrow> same_leases s s'"
proof (cases own)
  case True
  assume "build_impl env req s = Some ((res, own), s')"
  then show ?thesis
    using True by (auto elim!: build_owner_frame
        intro: same_leases_trans [OF same_records_leases same_leases_finish])
next
  case False
  assume "build_impl env req s = Some ((res, own), s')"
  with False show ?thesis
    by (auto simp: build_impl_def Let_def split: prod.splits bool.splits
        dest!: claim_frame intro: same_records_leases)
qed

lemma finish_record:
  assumes "build_finish env att oc s = Some (Inr d, s')" and "outcome_ok oc" and "find_rec (o_id oc) s = None"
  shows "\<exists>r. find_rec (o_id oc) s' = Some r \<and> rec_desc r = o_desc oc \<and> rec_bytes r = o_bytes oc \<and>
    usable r \<and> validated r"
proof -
  have ok: "succeeded oc" using assms(1) by (auto simp: build_finish_def Let_def split: if_splits prod.splits)
  let ?s1 = "record_event env ''build'' (''succeeded attempt='' @ str att @ '' id='' @ str (o_id oc)) s"
  obtain b s2 where ins: "build_insert env oc ?s1 = (b, s2)" by fastforce
  then obtain t where b: b and "find_rec (o_id oc) s2 =
      Some ((make_record (o_desc oc) (o_bytes oc) t)\<lparr>rec_key := ensure_finalized (ad_key (o_desc oc))\<rparr>)"
    using assms(2,3) ok
    by (auto simp: build_insert_def now_ns_def find_rec_insert outcome_ok_def make_record_def)
  then have "\<exists>r. find_rec (o_id oc) s2 = Some r \<and> rec_desc r = o_desc oc \<and> rec_bytes r = o_bytes oc \<and>
      usable r \<and> validated r"
    using assms(2) ok by (auto simp: make_record_def usable_def is_eligible_def outcome_ok_def)
  moreover have "build_persist env oc s2 = Some s'"
    using assms(1) ok ins b by (auto simp: build_finish_def Let_def)
  ultimately show ?thesis
    by (auto simp: build_persist_def now_ns_def Let_def persisted_update_def usable_def
        split: option.splits prod.splits bool.splits sum.splits)
qed

lemma retire_claim:
  "map_of (in_flight (build_retire k f s)) (key_digest k) = None"
  if "map_of (in_flight s) (key_digest k) = Some f"
  using that by (simp add: build_retire_def delete_conv')

lemma claims_free:
  assumes "map_of (in_flight s) (key_digest (req_key q)) = None"
  obtains f s1 where "build_claim env q s = ((True, f), s1)"
  using assms by (auto simp: build_claim_def Let_def now_ns_def rand_def)

text \<open>A build whose artifact is new hands its outcome to the store, in a state with the same store.\<close>

lemma build_owner_persists:
  assumes "build_impl env req s = Some ((Inr d, True), s')" and new: "find_rec (ad_id d) s = None"
  obtains oc gen att s1 s2 u where
    "run_build env (default_namespace s (req\<lparr>req_key := finalized (req_key req)\<rparr>)) gen att s1 = (oc, s2)"
    "backends s1 = backends s" "d = o_desc oc" "build_persist env oc u = Some s'"
    "persistence u = persistence s" "persistence_open u = persistence_open s"
  using assms(1)
proof (rule build_owner)
  let ?rq = "default_namespace s (req\<lparr>req_key := finalized (req_key req)\<rparr>)"
  fix f :: fence_ref and s1 s2 :: "'a Impl" and att gen oc
  let ?t = "build_retire (finalized (req_key req)) f (build_publish f oc s2)"
  let ?t1 = "record_event env ''build'' (''succeeded attempt='' @ str att @ '' id='' @ str (o_id oc)) ?t"
  assume claim: "build_claim env ?rq s = ((True, f), s1)"
    and run: "run_build env ?rq gen att s1 = (oc, s2)"
    and fin: "build_finish env att oc ?t = Some (Inr d, s')"
  have ok: "succeeded oc" "d = o_desc oc" using finish_success [OF fin] run_build_outcome [OF run] by auto
  have id: "o_id oc = ad_id d" using run_build_outcome [OF run] ok by (simp add: outcome_ok_def)
  obtain b u where ins: "build_insert env oc ?t1 = (b, u)" by fastforce
  have "same_records s ?t"
    using claim_frame [OF claim] run_build_frame [OF run] publish_frame [of s2 f oc]
      retire_frame [of "build_publish f oc s2" "finalized (req_key req)" f]
    by (simp add: same_records_def)
  then have "find_rec (o_id oc) ?t1 = None" using new id by (simp add: same_records_find)
  then have "b" using ins by (auto simp: build_insert_def now_ns_def)
  then have "build_persist env oc u = Some s'" using fin ok ins by (auto simp: build_finish_def Let_def)
  moreover have "persistence ?t = persistence s" "persistence_open ?t = persistence_open s"
    using claim_frame [OF claim] run_build_frame [OF run]
    by (auto simp: build_retire_def build_publish_def Let_def same_outer_def)
  then have "persistence u = persistence s" "persistence_open u = persistence_open s"
    using ins by (auto simp: build_insert_def now_ns_def split: option.splits)
  moreover have "backends s1 = backends s" using claim_frame [OF claim] by simp
  ultimately show thesis using that run ok by blast
qed

lemma build_publishes:
  assumes "build_impl env q s = Some ((Inr d, True), s')" and "index_inv s"
  shows "all_passed (ad_validation d) \<and> ad_generation d = next_generation s \<and> ad_key d = finalized (req_key q) \<and>
    (\<exists>b. bytes_sha256 d = to_hex (digest b) \<and> ad_id d = derive_artifact_id b (next_generation s) \<and>
      (find_rec (ad_id d) s = None \<longrightarrow>
        (\<exists>r. find_rec (ad_id d) s' = Some r \<and> rec_desc r = d \<and> rec_bytes r = b \<and> usable r \<and> validated r)))"
proof -
  from assms(1) obtain oc att t where oc: "outcome_ok oc" "o_generation oc = next_generation s"
    "same_records s t" "build_finish env att oc t = Some (Inr d, s')"
    "succeeded oc \<Longrightarrow> ad_key (o_desc oc) = finalized (finalized (req_key q))"
    by (rule build_owner_frame) blast
  from finish_success [OF oc(4,1)] have ok: "succeeded oc" "d = o_desc oc" by auto
  have "find_rec (o_id oc) t = find_rec (o_id oc) s" using oc(3) same_records_find by metis
  with finish_record [OF oc(4,1)] oc ok show ?thesis by (auto simp: outcome_ok_def)
qed

end
