(* ===== verification/KC_Lease.thy ===== *)
theory KC_Lease
  imports KC_Build
begin

text \<open>
  Leases (\<^verbatim>\<open>src/leases.cpp\<close>, the lease part of \<^verbatim>\<open>lookup.hpp\<close>) and the acquire pipeline
  (\<^verbatim>\<open>acquire_impl\<close> of \<^verbatim>\<open>src/cache.cpp\<close>). A lease object is a pointer to a lease state or null.
\<close>

record LeaseState =
  ls_rec :: ArtifactId
  gen_value :: u64
  load_gen_value :: u64
  released :: bool

type_synonym KernelLease = "LeaseState option"

definition lease_eligible :: "ArtifactRecord \<Rightarrow> bool" where
  "lease_eligible r \<longleftrightarrow> \<not> (invalidated r \<or> corrupt r \<or> \<not> is_eligible (rec_state r))"

definition grant_lease ::
  "'p Env \<Rightarrow> ArtifactId \<Rightarrow> KernelLookupRequest \<Rightarrow> 'p Impl \<Rightarrow> KernelLease result \<times> 'p Impl" where
  "grant_lease env i req s =
     (case find_rec i s of
        None \<Rightarrow> (fail EC_NotFound ''artifact not found'', s)
      | Some r \<Rightarrow>
          if \<not> lease_eligible r
          then (fail EC_StaleArtifact ''artifact no longer eligible at lease time'', s)
          else
            let (t, s) = now_ns env s;
                s = modify i (grant_update t (req_pin req)) s;
                st = \<lparr>ls_rec = i, gen_value = rec_generation r, load_gen_value = load_generation r, released = False\<rparr>;
                s = bump (\<lambda>x. x\<lparr>active_leases := active_leases x + 1\<rparr>) s
            in (Inr (Some st), s))"

definition on_lease_release :: "ArtifactId \<Rightarrow> u64 \<Rightarrow> 'p Impl \<Rightarrow> 'p Impl" where
  "on_lease_release i load_gen s =
     (let s = modify i release_update s
      in bump (\<lambda>x. if active_leases x > 0 then x\<lparr>active_leases := active_leases x - 1\<rparr> else x) s)"

definition lease_valid :: "KernelLease \<Rightarrow> bool" where
  "lease_valid l = (case l of None \<Rightarrow> False | Some st \<Rightarrow> \<not> released st)"

text \<open>\<^verbatim>\<open>release\<close>: null or already released is a no-op; the pointer is reset after the release.\<close>

definition lease_release :: "KernelLease \<Rightarrow> 'p Impl \<Rightarrow> KernelLease \<times> 'p Impl" where
  "lease_release l s =
     (case l of
        None \<Rightarrow> (None, s)
      | Some st \<Rightarrow>
          if released st then (Some st, s)
          else (None, on_lease_release (ls_rec st) (load_gen_value st) s))"

text \<open>Move assignment releases the target first and leaves the source null.\<close>

definition lease_assign :: "KernelLease \<Rightarrow> KernelLease \<Rightarrow> 'p Impl \<Rightarrow> (KernelLease \<times> KernelLease) \<times> 'p Impl" where
  "lease_assign dst src s = (let (_, s) = lease_release dst s in ((src, None), s))"

definition lease_artifact_id :: "KernelLease \<Rightarrow> ArtifactId" where
  "lease_artifact_id l = (case l of None \<Rightarrow> default_id | Some st \<Rightarrow> ls_rec st)"

definition lease_generation :: "KernelLease \<Rightarrow> u64" where
  "lease_generation l = (case l of None \<Rightarrow> 0 | Some st \<Rightarrow> gen_value st)"

definition lease_residency :: "KernelLease \<Rightarrow> 'p Impl \<Rightarrow> ResidencyTier" where
  "lease_residency l s =
     (case l of None \<Rightarrow> RT_None
      | Some st \<Rightarrow> (case find_rec (ls_rec st) s of Some r \<Rightarrow> rec_tier r | None \<Rightarrow> RT_None))"

definition lease_native_handle :: "KernelLease \<Rightarrow> 'p Impl \<Rightarrow> LoadedModuleHandle" where
  "lease_native_handle l s =
     (case l of None \<Rightarrow> None | Some st \<Rightarrow> Option.bind (find_rec (ls_rec st) s) native_handle)"

definition lease_touch :: "'p Env \<Rightarrow> KernelLease \<Rightarrow> 'p Impl \<Rightarrow> unit result \<times> 'p Impl" where
  "lease_touch env l s =
     (if \<not> lease_valid l then (fail EC_StaleArtifact ''lease is not valid'', s)
      else let (t, s) = now_ns env s
           in (ok, modify (lease_artifact_id l) (touch_update t) s))"

text \<open>
  Reservations. No operation makes one and none looks at them, so a reservation holds nothing back.
\<close>

record ReservationState =
  rs_key :: KernelCompatibilityKey
  rs_released :: bool

type_synonym KernelReservation = "ReservationState option"

definition reservation_valid :: "KernelReservation \<Rightarrow> bool" where
  "reservation_valid r = (case r of None \<Rightarrow> False | Some st \<Rightarrow> \<not> rs_released st)"

definition reservation_release :: "KernelReservation \<Rightarrow> KernelReservation" where
  "reservation_release r = (case r of None \<Rightarrow> None | Some st \<Rightarrow> if rs_released st then Some st else None)"

definition reservation_assign :: "KernelReservation \<Rightarrow> KernelReservation \<Rightarrow> KernelReservation \<times> KernelReservation" where
  "reservation_assign dst src = (src, None)"

text \<open>The common tail of both paths of \<^verbatim>\<open>acquire_impl\<close>: promote, then grant.\<close>

definition promote_and_grant ::
  "'p Env \<Rightarrow> ArtifactId \<Rightarrow> KernelLookupRequest \<Rightarrow> 'p Impl \<Rightarrow> (KernelLease result \<times> 'p Impl) option" where
  "promote_and_grant env i req s =
     (case promote_to_tier env i (desired_tier req) (req_device req) s of
        None \<Rightarrow> None
      | Some (Inl e, s) \<Rightarrow> Some (Inl e, s)
      | Some (Inr _, s) \<Rightarrow> Some (grant_lease env i req s))"

definition acquire_impl ::
  "'p Env \<Rightarrow> KernelLookupRequest \<Rightarrow> 'p Impl \<Rightarrow> (KernelLease result \<times> 'p Impl) option" where
  "acquire_impl env req s =
     (let req = req\<lparr>req_key := finalized (req_key req)\<rparr>
      in case lookup_impl env req s of
           (Inl e, s) \<Rightarrow> Some (Inl e, s)
         | (Inr dec, s) \<Rightarrow>
             if is_hit dec then
               (let i = the (lr_artifact dec)
                in case find_rec i s of
                     None \<Rightarrow> Some (fail EC_NotFound ''artifact vanished'', s)
                   | Some r \<Rightarrow> promote_and_grant env i req s)
             else if allow_miss_build req then
               (case build_impl env req s of
                  None \<Rightarrow> None
                | Some ((Inl e, _), s) \<Rightarrow> Some (Inl e, s)
                | Some ((Inr d, _), s) \<Rightarrow>
                    (case find_rec (ad_id d) s of
                       None \<Rightarrow> Some (fail EC_NotFound ''built artifact vanished'', s)
                     | Some r \<Rightarrow> promote_and_grant env (ad_id d) req s))
             else Some (fail EC_NotFound (''miss: '' @ lookup_outcome_name (outcome dec) @ '' op=''
                     @ operation (req_key req)), s))"

subsection \<open>Lemmas\<close>

lemma lease_eligible_usable: "lease_eligible r = usable r"
  by (auto simp: lease_eligible_def usable_def)

lemma reservation_release_once:
  "\<not> reservation_valid (reservation_release r)" "reservation_release (reservation_release r) = reservation_release r"
  by (auto simp: reservation_valid_def reservation_release_def split: option.splits)

lemma evolves_grant: "grant_lease env i req s = (res, s') \<Longrightarrow> evolves s s'"
  by (auto simp: grant_lease_def now_ns_def Let_def intro!: evolves_intros split: option.splits if_splits)

lemma grant_cases:
  assumes "grant_lease env i req s = (res, s')"
  shows "(\<exists>e. res = Inl e) \<and> s' = s \<or>
    (\<exists>r. find_rec i s = Some r \<and> usable r \<and>
      res = Inr (Some \<lparr>ls_rec = i, gen_value = rec_generation r, load_gen_value = load_generation r, released = False\<rparr>) \<and>
      find_rec i s' = Some (grant_update (clk env (ticks s)) (req_pin req) r) \<and>
      (\<forall>j. j \<noteq> i \<longrightarrow> find_rec j s' = find_rec j s))"
  using assms
  by (auto simp: grant_lease_def now_ns_def Let_def lease_eligible_usable split: option.splits if_splits)

lemma evolves_release: "lease_release l s = (l', s') \<Longrightarrow> evolves s s'"
  by (auto simp: lease_release_def on_lease_release_def Let_def intro!: evolves_intros
      split: option.splits if_splits)

lemma evolves_touch: "lease_touch env l s = (res, s') \<Longrightarrow> evolves s s'"
  by (auto simp: lease_touch_def now_ns_def intro!: evolves_intros split: if_splits)

lemma evolves_promote: "promote_to_tier env i t d s = Some (res, s') \<Longrightarrow> evolves s s'"
  using promote_returns [of s env i t d] by (auto simp: evolves_def)

lemma evolves_promote_and_grant: "promote_and_grant env i req s = Some (res, s') \<Longrightarrow> evolves s s'"
  by (auto simp: promote_and_grant_def split: option.splits prod.splits sum.splits
      dest!: evolves_promote evolves_grant intro: evolves_trans)

lemma promote_and_grant_lease:
  assumes "promote_and_grant env i req s = Some (Inr l, s')"
  shows "\<exists>s1 r st. evolves s s1 \<and> find_rec i s1 = Some r \<and> usable r \<and> l = Some st \<and> ls_rec st = i \<and>
    \<not> released st \<and> gen_value st = rec_generation r \<and>
    find_rec i s' = Some (grant_update (clk env (ticks s1)) (req_pin req) r) \<and>
    (\<forall>j. j \<noteq> i \<longrightarrow> find_rec j s' = find_rec j s1)"
proof -
  obtain s1 where p: "promote_to_tier env i (desired_tier req) (req_device req) s = Some (ok, s1)"
    and g: "grant_lease env i req s1 = (Inr l, s')"
    using assms by (auto simp: promote_and_grant_def split: option.splits prod.splits sum.splits)
  from grant_cases [OF g] evolves_promote [OF p] show ?thesis by fastforce
qed

lemma evolves_acquire:
  assumes "acquire_impl env req s = Some (res, s')"
  shows "evolves s s'"
proof -
  let ?rq = "req\<lparr>req_key := finalized (req_key req)\<rparr>"
  obtain dec s1 where l: "lookup_impl env ?rq s = (dec, s1)" by fastforce
  have e: "evolves s s1" using lookup_frame [OF l] same_records_evolves by blast
  show ?thesis
    using assms l e
    by (auto simp: acquire_impl_def Let_def split: sum.splits if_splits option.splits prod.splits
        dest!: evolves_promote_and_grant evolves_build intro: evolves_trans)
qed


subsection \<open>Lease accounting\<close>

text \<open>Granting adds one lease to the artifact, releasing takes one away, nothing else counts.\<close>

lemma lease_count_grant [simp]: "lease_count (grant_update t p r) = lease_count r + 1"
  by (simp add: grant_update_def Let_def)

lemma lease_count_release [simp]:
  "lease_count (release_update r) = (if lease_count r > 0 then lease_count r - 1 else 0)"
  by (auto simp: release_update_def Let_def word_gt_0)

lemma leases_grant:
  "grant_lease env i req s = (res, s') \<Longrightarrow>
    leases_of j s' = leases_of j s + (case res of Inr _ \<Rightarrow> of_bool (j = i) | Inl _ \<Rightarrow> 0)"
  using grant_cases [of env i req s res s'] by (auto simp: leases_of_def)

lemma leases_release:
  "lease_release l s = (l', s') \<Longrightarrow>
    leases_of j s' = (if lease_valid l \<and> j = lease_artifact_id l \<and> leases_of j s > 0
      then leases_of j s - 1 else leases_of j s)"
  by (auto simp: lease_release_def on_lease_release_def Let_def leases_of_def lease_valid_def
      lease_artifact_id_def word_gt_0 split: option.splits if_splits)

lemma same_leases_touch: "lease_touch env l s = (res, s') \<Longrightarrow> same_leases s s'"
  by (auto simp: lease_touch_def now_ns_def intro!: same_leases_intros split: if_splits)

lemma same_leases_promote:
  "promote_to_tier env i t d s = Some (res, s') \<Longrightarrow> index_inv s \<Longrightarrow> same_leases s s'"
  using promote_returns [of s env i t d] by auto

lemma leases_promote_and_grant:
  assumes "promote_and_grant env i req s = Some (res, s')" and "index_inv s"
  shows "leases_of j s' = leases_of j s + (case res of Inr _ \<Rightarrow> of_bool (j = i) | Inl _ \<Rightarrow> 0)"
  using assms
  by (auto simp: promote_and_grant_def same_leases_def split: option.splits prod.splits sum.splits
      dest!: same_leases_promote leases_grant [where j = j])

text \<open>An acquire that succeeds hands out exactly one lease, on the artifact it names.\<close>

definition hands_out :: "'p Impl \<Rightarrow> KernelLease result \<Rightarrow> 'p Impl \<Rightarrow> bool" where
  "hands_out s res s' \<longleftrightarrow>
     (case res of
        Inl _ \<Rightarrow> same_leases s s'
      | Inr l \<Rightarrow> \<exists>st r. l = Some st \<and> \<not> released st \<and> find_rec (ls_rec st) s' = Some r \<and>
          gen_value st = rec_generation r \<and> (\<forall>j. leases_of j s' = leases_of j s + of_bool (j = ls_rec st)))"

lemma hands_out_Inl [simp]: "hands_out s (Inl e) s' = same_leases s s'"
  by (simp add: hands_out_def)

lemma hands_out_promote:
  assumes t: "promote_and_grant env i req t = Some (res, s')" and "index_inv t" "same_leases s t"
  shows "hands_out s res s'"
proof (cases res)
  case (Inl e)
  then show ?thesis using leases_promote_and_grant [OF t \<open>index_inv t\<close>] assms(3) by (simp add: same_leases_def)
next
  case (Inr l)
  with t have "promote_and_grant env i req t = Some (Inr l, s')" by simp
  from promote_and_grant_lease [OF this]
  obtain now r st where "l = Some st" "ls_rec st = i" "\<not> released st" "gen_value st = rec_generation r"
    "find_rec i s' = Some (grant_update now (req_pin req) r)" by blast
  then show ?thesis
    using leases_promote_and_grant [OF t \<open>index_inv t\<close>] assms(3) Inr
    by (simp add: hands_out_def same_leases_def grant.same_generation)
qed

lemma acquire_lease:
  assumes run: "acquire_impl env req s = Some (res, s')" and inv: "index_inv s"
  shows "hands_out s res s'"
proof -
  let ?rq = "req\<lparr>req_key := finalized (req_key req)\<rparr>"
  obtain dec s1 where l: "lookup_impl env ?rq s = (dec, s1)" by fastforce
  have s1: "index_inv s1" "same_leases s s1"
    using lookup_frame [OF l] same_records_evolves [of s s1] same_records_leases [of s s1] inv
    by (auto simp: evolves_def)
  have built: "index_inv t \<and> same_leases s t" if "build_impl env ?rq s1 = Some ((b, own), t)" for b own t
    using evolves_build [OF that] same_leases_build [OF that] s1 same_leases_trans by (auto simp: evolves_def)
  show ?thesis
    using run l s1
    by (auto simp: acquire_impl_def Let_def split: sum.splits if_splits option.splits prod.splits
        dest: built intro: hands_out_promote)
qed

lemma acquire_usable:
  assumes run: "acquire_impl env q s = Some (Inr l, s')"
  shows "\<exists>s1 r. evolves s s1 \<and> find_rec (lease_artifact_id l) s1 = Some r \<and> usable r"
proof -
  let ?rq = "q\<lparr>req_key := finalized (req_key q)\<rparr>"
  obtain dec s1 where l: "lookup_impl env ?rq s = (dec, s1)" by fastforce
  have e: "evolves s s1" using lookup_frame [OF l] same_records_evolves by blast
  have "\<exists>i t. evolves s t \<and> promote_and_grant env i ?rq t = Some (Inr l, s')"
    using run l e
    by (auto simp: acquire_impl_def Let_def split: sum.splits if_splits option.splits prod.splits
        dest!: evolves_build) (blast intro: evolves_trans)+
  then obtain i t where t: "evolves s t" and a: "promote_and_grant env i ?rq t = Some (Inr l, s')" by blast
  show ?thesis
    using promote_and_grant_lease [OF a] evolves_trans [OF t] by (fastforce simp: lease_artifact_id_def)
qed

lemma release_retires:
  assumes "rec_ok r" and "lease_count r = 1" and "invalidated r \<or> corrupt r"
  shows "rec_state (release_update r) = AS_Retired \<and> lease_count (release_update r) = 0"
  using assms by (cases "rec_state r")
    (auto simp: release_update_def try_state_def rec_ok_def published_state_def Let_def successors)

lemma pin_count_release [simp]: "pin_count (release_update r) = pin_count r"
  by (simp add: release_update_def Let_def)

end
