(* ===== verification/KC_Explain.thy ===== *)
theory KC_Explain
  imports KC_Prelude
begin

text \<open>
  Structured explanations and their JSON rendering (\<^verbatim>\<open>include/kernelcache/explain.hpp\<close>,
  \<^verbatim>\<open>src/explain.cpp\<close>). A reader for the rendered text recovers the explanation.
\<close>

record ExplainNode =
  topic :: string
  summary :: string
  details :: "string list"

record Explain =
  ex_text :: string
  ex_json :: string
  nodes :: "ExplainNode list"
  ex_ok :: bool

definition Explain_new :: Explain where
  "Explain_new = \<lparr>ex_text = [], ex_json = [], nodes = [], ex_ok = True\<rparr>"

abbreviation backslash :: char where "backslash \<equiv> CHR 0x5C"
abbreviation quote :: char where "quote \<equiv> CHR 0x22"
abbreviation newline :: char where "newline \<equiv> CHR 0x0A"

definition esc_char :: "char \<Rightarrow> string" where
  "esc_char c =
     (if c = backslash then [backslash, backslash]
      else if c = quote then [backslash, quote]
      else if c = newline then [backslash, CHR ''n'']
      else [c])"

definition esc :: "string \<Rightarrow> string" where
  "esc s = concat (map esc_char s)"

definition json_string :: "string \<Rightarrow> string" where
  "json_string s = quote # esc s @ [quote]"

text \<open>A separator is printed before every element but the first.\<close>

fun commas :: "string list \<Rightarrow> string" where
  "commas [] = []"
| "commas [s] = s"
| "commas (s # t # ss) = s @ '','' @ commas (t # ss)"

definition json_node :: "ExplainNode \<Rightarrow> string" where
  "json_node n =
     ''{'' @ json_string ''topic'' @ '':'' @ json_string (topic n)
     @ '','' @ json_string ''summary'' @ '':'' @ json_string (summary n)
     @ '','' @ json_string ''details'' @ '':['' @ commas (map json_string (details n)) @ '']}''"

definition to_json :: "Explain \<Rightarrow> string" where
  "to_json ex =
     ''{'' @ json_string ''ok'' @ '':'' @ (if ex_ok ex then ''true'' else ''false'')
     @ '','' @ json_string ''text'' @ '':'' @ json_string (ex_text ex)
     @ '','' @ json_string ''nodes'' @ '':['' @ commas (map json_node (nodes ex)) @ '']}''"

subsection \<open>Reading the text back\<close>

text \<open>A reader of JSON string bodies with the escapes that \<^const>\<open>esc\<close> uses.\<close>

fun scan_body :: "string \<Rightarrow> (string \<times> string) option" where
  "scan_body [] = None"
| "scan_body (c # cs) =
     (if c = quote then Some ([], cs)
      else if c = backslash then
        (case cs of
           [] \<Rightarrow> None
         | d # ds \<Rightarrow> map_option (\<lambda>(s, r). ((if d = CHR ''n'' then newline else d) # s, r)) (scan_body ds))
      else map_option (\<lambda>(s, r). (c # s, r)) (scan_body cs))"

lemma scan_esc: "scan_body (esc s @ quote # r) = Some (s, r)"
  by (induction s) (simp_all add: esc_def esc_char_def)

fun scan_string :: "string \<Rightarrow> (string \<times> string) option" where
  "scan_string (c # cs) = (if c = quote then scan_body cs else None)"
| "scan_string [] = None"

lemma scan_json_string [simp]: "scan_string (json_string s @ r) = Some (s, r)"
  by (simp add: json_string_def scan_esc)

lemma json_string_cancel: "json_string s @ a = json_string t @ b \<longleftrightarrow> s = t \<and> a = b"
  by (metis Pair_inject option.inject scan_json_string)

lemma json_string_quote: "json_string s @ a \<noteq> [] \<and> hd (json_string s @ a) = quote"
  by (simp add: json_string_def)

lemma commas_strings_cancel:
  "commas (map json_string ss) @ CHR '']'' # a = commas (map json_string ts) @ CHR '']'' # b
    \<longleftrightarrow> ss = ts \<and> a = b"
proof (induction ss arbitrary: ts)
  case Nil
  then show ?case
    by (cases ts rule: commas.cases) (auto simp: json_string_def)
next
  case (Cons s ss)
  show ?case
  proof (cases ts)
    case Nil
    then show ?thesis by (cases ss) (auto simp: json_string_def)
  next
    case (Cons t ts')
    then show ?thesis using Cons.IH [of ts']
      by (cases ss; cases ts') (auto simp: json_string_cancel)
  qed
qed

lemma json_node_cancel: "json_node m @ a = json_node n @ b \<longleftrightarrow> m = n \<and> a = b"
  by (cases m; cases n) (auto simp: json_node_def json_string_cancel commas_strings_cancel)

lemma commas_nodes_cancel:
  "commas (map json_node ms) @ CHR '']'' # a = commas (map json_node ns) @ CHR '']'' # b
    \<longleftrightarrow> ms = ns \<and> a = b"
proof (induction ms arbitrary: ns)
  case Nil
  then show ?case
    by (cases ns; cases "tl ns") (auto simp: json_node_def)
next
  case (Cons m ms)
  show ?case
  proof (cases ns)
    case Nil
    then show ?thesis by (cases ms) (auto simp: json_node_def)
  next
    case (Cons n ns')
    then show ?thesis using Cons.IH [of ns']
      by (cases ms; cases ns') (auto simp: json_node_cancel)
  qed
qed

lemma commas_nodes_eq: "commas (map json_node ms) = commas (map json_node ns) \<longleftrightarrow> ms = ns"
  using commas_nodes_cancel [of ms "[]" ns "[]"] by auto

subsection \<open>Properties\<close>

text \<open>
  The JSON rendering loses nothing: two explanations with the same rendering have the same
  verdict, text and nodes, whatever quotes, backslashes and newlines their strings hold.
\<close>

theorem to_json_inject:
  "to_json a = to_json b \<longleftrightarrow> ex_ok a = ex_ok b \<and> ex_text a = ex_text b \<and> nodes a = nodes b"
  by (auto simp: to_json_def json_string_cancel commas_nodes_eq split: if_splits)

end
