(* ===== verification/KC_Manage.thy ===== *)
theory KC_Manage
  imports KC_Lease KC_Explain
begin

text \<open>
  Management and the public facade (\<^verbatim>\<open>src/cache.cpp\<close>), and recovery (\<^verbatim>\<open>src/recovery.cpp\<close>):
  invalidation, listing, snapshots, explanations, publishing, validation, loading and the
  cache generation.
\<close>

subsection \<open>Invalidation\<close>

definition opt_or_zero :: "u64 option \<Rightarrow> u64" where
  "opt_or_zero v = (case v of None \<Rightarrow> 0 | Some x \<Rightarrow> x)"

definition invalidation_match :: "InvalidationRequest \<Rightarrow> ArtifactId \<Rightarrow> ArtifactRecord \<Rightarrow> bool" where
  "invalidation_match q i r =
     (case target q of
        IT_ArtifactId \<Rightarrow> i = mk_id (opt_or_zero (ir_artifact_hi q)) (opt_or_zero (ir_artifact_lo q))
      | IT_KernelId \<Rightarrow> kernel_id r = mk_id (opt_or_zero (kernel_hi q)) (opt_or_zero (kernel_lo q))
      | IT_CompatibilityKey \<Rightarrow> (case ir_key q of None \<Rightarrow> False | Some k \<Rightarrow> key_eq (rec_key r) k)
      | IT_Operation \<Rightarrow> ir_operation q \<noteq> [] \<and> rec_operation r = ir_operation q
      | IT_Architecture \<Rightarrow> architecture q \<noteq> [] \<and> rec_arch r = architecture q
      | IT_CompilerGeneration \<Rightarrow> compiler_generation q \<noteq> [] \<and>
          (ci_name (cd_compiler (ad_compilation (rec_desc r))) = compiler_generation q \<or>
           compiler_name (rec_key r) = compiler_generation q)
      | IT_RuntimeGeneration \<Rightarrow> runtime_generation q \<noteq> [] \<and> runtime_backend (rec_key r) = runtime_generation q
      | IT_ModelRevision \<Rightarrow> ir_model_revision q \<noteq> [] \<and> model_revision (rec_key r) = ir_model_revision q
      | IT_OperatorRevision \<Rightarrow> ir_operator_revision q \<noteq> [] \<and> operator_revision (rec_key r) = ir_operator_revision q
      | IT_Namespace \<Rightarrow> ir_namespace q \<noteq> [] \<and> tenant r = ir_namespace q
      | IT_All \<Rightarrow> True)"

definition invalidation_outcome :: "InvalidationRequest \<Rightarrow> ArtifactId \<Rightarrow> ArtifactRecord \<Rightarrow> InvalidationOutcome" where
  "invalidation_outcome q i r = \<lparr>io_target = target q, applied = True, affected = 1, affected_ids = [i],
     io_message = ''invalidated (lease_count='' @ show_word (lease_count r) @ '')'', io_hard = hard q\<rparr>"

text \<open>The second loop: targets that are invalidated already are skipped.\<close>

fun invalidate_loop ::
  "InvalidationRequest \<Rightarrow> ArtifactId list \<Rightarrow> 'p Impl \<Rightarrow> InvalidationOutcome list \<times> 'p Impl" where
  "invalidate_loop q [] s = ([], s)"
| "invalidate_loop q (i # is) s =
     (case find_rec i s of
        None \<Rightarrow> invalidate_loop q is s
      | Some r \<Rightarrow>
          if invalidated r then invalidate_loop q is s
          else let (os, s') = invalidate_loop q is (modify i invalidate_update s)
               in (invalidation_outcome q i r # os, s'))"

definition invalidate_impl ::
  "'p Env \<Rightarrow> InvalidationRequest \<Rightarrow> 'p Impl \<Rightarrow> InvalidationOutcome list result \<times> 'p Impl" where
  "invalidate_impl env q s =
     (let target_ids = map fst (filter (\<lambda>(i, r). invalidation_match q i r) (by_id s));
          (os, s) = invalidate_loop q target_ids s;
          s = bump (\<lambda>st. st\<lparr>invalidations := invalidations st + word_of_nat (length target_ids)\<rparr>) s;
          s = record_event env ''invalidate'' (''by='' @ invalidation_target_name (target q) @ '' count=''
                @ show_nat (length target_ids)) s
      in (Inr os, s))"

subsection \<open>Listing, snapshots and explanations\<close>

text \<open>\<^verbatim>\<open>std::sort\<close> leaves artifacts of one generation in some order; here in the order of the index.\<close>

definition list_impl ::
  "string option \<Rightarrow> ArtifactState option \<Rightarrow> 'p Impl \<Rightarrow> ArtifactDescriptor list result" where
  "list_impl ns st s =
     Inr (sort_key (\<lambda>d. uint (ad_generation d))
       (map (rec_desc \<circ> snd)
         (filter (\<lambda>(i, r). \<not> (ns \<noteq> None \<and> Some (tenant r) \<noteq> ns) \<and> \<not> (st \<noteq> None \<and> Some (rec_state r) \<noteq> st))
           (by_id s))))"

definition inspect_impl :: "ArtifactId \<Rightarrow> 'p Impl \<Rightarrow> ArtifactDescriptor result" where
  "inspect_impl i s =
     (case find_rec i s of None \<Rightarrow> fail EC_NotFound ''artifact not found'' | Some r \<Rightarrow> Inr (rec_desc r))"

record Snapshot =
  artifact_count :: u64
  artifact_count_by_state :: "u64 list"
  metadata_only_bytes :: u64
  persistent_bytes :: u64
  host_resident_bytes :: u64
  device_resident_bytes :: u64
  sn_device_bytes_estimated :: bool
  sn_stats :: Stats
  sn_cache_generation :: u64

definition snapshot_record :: "ArtifactRecord \<Rightarrow> Snapshot \<Rightarrow> Snapshot" where
  "snapshot_record r sn =
     (let st = artifact_state_value (rec_state r);
          sn = (if st < 20
                then sn\<lparr>artifact_count_by_state := (artifact_count_by_state sn)
                       [st := artifact_count_by_state sn ! st + 1]\<rparr> else sn)
      in case rec_tier r of
           RT_MetadataOnly \<Rightarrow> sn\<lparr>metadata_only_bytes := metadata_only_bytes sn + artifact_bytes (ad_sizes (rec_desc r))\<rparr>
         | RT_PersistentStorage \<Rightarrow> sn\<lparr>persistent_bytes := persistent_bytes sn + storage_bytes (ad_sizes (rec_desc r))\<rparr>
         | RT_HostResident \<Rightarrow> sn\<lparr>host_resident_bytes := host_resident_bytes sn + host_bytes (ad_sizes (rec_desc r))\<rparr>
         | RT_DeviceResident \<Rightarrow>
             let sn = sn\<lparr>device_resident_bytes := device_resident_bytes sn + device_footprint r\<rparr>
             in if device_footprint_estimated r then sn\<lparr>sn_device_bytes_estimated := True\<rparr> else sn
         | RT_None \<Rightarrow> sn)"

definition snapshot_impl :: "'p Impl \<Rightarrow> Snapshot" where
  "snapshot_impl s =
     fold (\<lambda>(i, r). snapshot_record r) (by_id s)
       \<lparr>artifact_count = word_of_nat (length (by_id s)), artifact_count_by_state = replicate 20 0,
        metadata_only_bytes = 0, persistent_bytes = 0, host_resident_bytes = 0, device_resident_bytes = 0,
        sn_device_bytes_estimated = False, sn_stats = stats s, sn_cache_generation = cache_generation s\<rparr>"

definition explain_impl :: "ArtifactId \<Rightarrow> 'p Impl \<Rightarrow> Explain" where
  "explain_impl i s =
     (case find_rec i s of
        None \<Rightarrow> Explain_new\<lparr>ex_ok := False, ex_text := ''artifact not found: '' @ str i,
                 ex_json := ''{'' @ json_string ''ok'' @ '':false}''\<rparr>
      | Some r \<Rightarrow>
          Explain_new\<lparr>
            nodes := [\<lparr>topic = ''artifact'', summary = str (rec_id r) @ '' gen='' @ show_word (rec_generation r),
              details = [''state='' @ artifact_state_name (rec_state r), ''tier='' @ residency_tier_name (rec_tier r),
                ''op='' @ rec_operation r, ''arch='' @ rec_arch r, ''lease_count='' @ show_word (lease_count r),
                ''pin_count='' @ show_word (pin_count r), ''reuse='' @ show_word (rec_reuse_count r),
                ''key='' @ key_summary (rec_key r)]\<rparr>],
            ex_text := ''Artifact '' @ str (rec_id r) @ '' gen='' @ show_word (rec_generation r)
              @ '' state='' @ artifact_state_name (rec_state r) @ '' tier='' @ residency_tier_name (rec_tier r)
              @ '' op='' @ rec_operation r @ '' arch='' @ rec_arch r
              @ '' leases='' @ show_word (lease_count r) @ '' pins='' @ show_word (pin_count r)
              @ '' reuse='' @ show_word (rec_reuse_count r),
            ex_json := ''{}''\<rparr>)"

subsection \<open>The facade\<close>

definition register_backend :: "KernelBackend \<Rightarrow> 'p Impl \<Rightarrow> unit result \<times> 'p Impl" where
  "register_backend b s =
     (if builder b = None then (fail EC_InvalidArgument ''backend has no builder'', s)
      else (ok, s\<lparr>backends := AList.update (be_name b) b (backends s)\<rparr>))"

text \<open>The constructor, given what opening the store at the configured root yields.\<close>

definition KernelCache_new :: "'p Env \<Rightarrow> (string \<Rightarrow> 'p result) \<Rightarrow> KernelCacheConfig \<Rightarrow> 'p Impl" where
  "KernelCache_new env open_store c =
     (let s = Impl_new c;
          s = (if persistence_enabled c \<and> persistence_root c \<noteq> []
               then (case open_store (persistence_root c) of
                       Inr p \<Rightarrow> s\<lparr>persistence := Some p, persistence_open := True\<rparr>
                     | Inl e \<Rightarrow> record_event env ''persistence'' (''open failed: '' @ message e) s)
               else s)
      in record_event env ''cache'' ''created'' s)"

definition put :: "'p Env \<Rightarrow> ArtifactDescriptor \<Rightarrow> bytes \<Rightarrow> 'p Impl \<Rightarrow> ArtifactId result \<times> 'p Impl" where
  "put env desc b s =
     (let desc = (if ad_id desc = default_id then desc\<lparr>ad_id := derive_artifact_id b (ad_generation desc)\<rparr> else desc);
          desc = (if ad_generation desc = 0 then desc\<lparr>ad_generation := 1\<rparr> else desc);
          (t, s) = now_ns env s;
          r = make_record desc b t
      in if find_rec (rec_id r) s \<noteq> None then (fail EC_AlreadyExists ''artifact id already present'', s)
         else (Inr (rec_id r), insert_index_locked r s))"

definition cache_validate ::
  "KernelLookupRequest \<Rightarrow> ArtifactId \<Rightarrow> 'p Impl \<Rightarrow> ValidationDescriptor result \<times> 'p Impl" where
  "cache_validate req i s =
     (case find_rec i s of
        None \<Rightarrow> (fail EC_NotFound ''artifact not found'', s)
      | Some r \<Rightarrow>
          (case Option.bind (find_backend (rec_key r) s) validator of
             None \<Rightarrow> (fail EC_NotSupported ''no validator for backend'', s)
           | Some va \<Rightarrow>
               (case va (rec_key r) (rec_bytes r) (req_device req) of
                  Inr vd \<Rightarrow> (Inr vd, modify i (verdict_update vd) s)
                | Inl e \<Rightarrow> (Inl e, modify i no_verdict_update s))))"

definition handle_of :: "ArtifactRecord \<Rightarrow> ArtifactHandle" where
  "handle_of r = \<lparr>h_id = rec_id r, h_generation = rec_generation r, h_load_generation = load_generation r,
     h_residency_generation = residency_generation r, h_format = ad_format (rec_desc r),
     h_backend = rec_backend r, h_native_handle = native_handle r, h_namespace = tenant r,
     device_resident = (rec_tier r = RT_DeviceResident)\<rparr>"

definition cache_load :: "'p Env \<Rightarrow> ArtifactId \<Rightarrow> 'p Impl \<Rightarrow> (ArtifactHandle result \<times> 'p Impl) option" where
  "cache_load env i s =
     (case find_rec i s of
        None \<Rightarrow> Some (fail EC_NotFound ''artifact not found'', s)
      | Some r \<Rightarrow>
          (case promote_to_tier env i RT_DeviceResident DeviceDescriptor_new s of
             None \<Rightarrow> None
           | Some (Inl e, s) \<Rightarrow> Some (Inl e, s)
           | Some (Inr _, s) \<Rightarrow> Some (Inr (handle_of (the (find_rec i s))), s)))"

definition cache_unload :: "ArtifactId \<Rightarrow> 'p Impl \<Rightarrow> unit result \<times> 'p Impl" where
  "cache_unload i s =
     (case find_rec i s of
        None \<Rightarrow> (fail EC_NotFound ''artifact not found'', s)
      | Some r \<Rightarrow> (ok, modify i unload_update (unload_module i s)))"

definition cache_execute :: "ArtifactHandle \<Rightarrow> bytes \<Rightarrow> 'p Impl \<Rightarrow> unit result" where
  "cache_execute h args s =
     (case map_of (backends s) (h_backend h) of
        None \<Rightarrow> fail EC_NotSupported (''no backend registered for handle backend='' @ h_backend h)
      | Some be \<Rightarrow>
          (case loader be of
             None \<Rightarrow> fail EC_NotSupported ''backend has no loader''
           | Some ld \<Rightarrow> execute_fn ld (h_native_handle h) args))"

text \<open>
  \<^verbatim>\<open>explain(request)\<close>: the text is read from a node that was moved from, so it is not part of
  the model; the digest shown is the one stored in the caller's key, finalized or not.
\<close>

definition explain_request :: "'p Env \<Rightarrow> KernelLookupRequest \<Rightarrow> 'p Impl \<Rightarrow> Explain \<times> 'p Impl" where
  "explain_request env req s =
     (let (r, s) = lookup_impl env req s;
          (summ, good) = (case r of Inr lr \<Rightarrow> (''outcome='' @ lookup_outcome_name (outcome lr), True)
                                  | Inl e \<Rightarrow> (''error='' @ message e, False))
      in (Explain_new\<lparr>ex_ok := good, nodes := [\<lparr>topic = ''lookup'', summary = summ,
            details = [''op='' @ operation (req_key req), ''digest='' @ k_digest_hex (req_key req)]\<rparr>]\<rparr>, s))"

text \<open>The destructor, and the accessors that return a part of the state.\<close>

definition KernelCache_destroy :: "'p Env \<Rightarrow> 'p Impl \<Rightarrow> 'p Impl" where
  "KernelCache_destroy env s = record_event env ''cache'' ''destroyed'' s"

definition config :: "'p Impl \<Rightarrow> KernelCacheConfig" where
  "config s = cfg s"

definition compatibility_policy :: "'p Impl \<Rightarrow> CompatibilityPolicy" where
  "compatibility_policy s = compatibility (cfg s)"

definition residency_policy :: "'p Impl \<Rightarrow> ResidencyPolicy" where
  "residency_policy s = residency (cfg s)"

definition current_cache_generation :: "'p Impl \<Rightarrow> u64" where
  "current_cache_generation s = cache_generation s"

definition reset_stats :: "'p Impl \<Rightarrow> 'p Impl" where
  "reset_stats s = s\<lparr>stats := Stats_new\<rparr>"

definition roll_cache_generation :: "'p Impl \<Rightarrow> u64 result \<times> 'p Impl" where
  "roll_cache_generation s =
     (let s = s\<lparr>cache_generation := cache_generation s + 1\<rparr> in (Inr (cache_generation s), s))"

subsection \<open>Recovery\<close>

definition recovered_descriptor :: "StoredArtifact \<Rightarrow> ArtifactDescriptor" where
  "recovered_descriptor sa = ArtifactDescriptor_new\<lparr>ad_id := sa_id sa, ad_generation := sa_generation sa,
     ad_key := sa_key sa, ad_format := sa_format sa, ad_namespace := sa_namespace sa,
     ad_backend := producer (sa_provenance sa), ad_sizes := sa_sizes sa, ad_provenance := sa_provenance sa,
     bytes_sha256 := (case sa_sha256_hex sa of None \<Rightarrow> [] | Some h \<Rightarrow> h), published_at_ns := stored_ns sa,
     ad_validation := ValidationDescriptor_new\<lparr>integrity_hash_checked := True, format_checked := True,
       metadata_consistent := True\<rparr>\<rparr>"

definition recovered_record :: "StoredArtifact \<Rightarrow> u64 \<Rightarrow> ArtifactRecord" where
  "recovered_record sa now = (make_record (recovered_descriptor sa) (sa_bytes sa) now)\<lparr>persistent := True,
     rec_tier := RT_PersistentStorage, rec_state := AS_Persisted, validated := True, tenant := sa_namespace sa,
     rec_operation := operation (sa_key sa), rec_arch := arch (sa_key sa)\<rparr>"

fun recover_loop :: "'p Env \<Rightarrow> StoredArtifact list \<Rightarrow> 'p Impl \<Rightarrow> nat \<times> 'p Impl" where
  "recover_loop env [] s = (0, s)"
| "recover_loop env (sa # sas) s =
     (if find_rec (sa_id sa) s \<noteq> None then recover_loop env sas s
      else let (t, s) = now_ns env s;
               s = insert_index_locked (recovered_record sa t) s;
               s = bump (\<lambda>st. st\<lparr>persistent_reloads := persistent_reloads st + 1\<rparr>) s;
               (n, s) = recover_loop env sas s
           in (Suc n, s))"

definition recover_impl ::
  "'p Env \<Rightarrow> 'p Impl \<Rightarrow> (nat result \<times> string list \<times> string list) \<times> 'p Impl" where
  "recover_impl env s =
     (case (persistence_open s, persistence s) of
        (True, Some p) \<Rightarrow>
          (case ps_recover (store env) p of
             (Inl e, rejected, orphans, p') \<Rightarrow> ((Inl e, rejected, orphans), s\<lparr>persistence := Some p'\<rparr>)
           | (Inr sas, rejected, orphans, p') \<Rightarrow>
               let (n, s) = recover_loop env sas (s\<lparr>persistence := Some p'\<rparr>);
                   s = record_event env ''recover'' (''restored='' @ show_nat n @ '' rejected=''
                         @ show_nat (length rejected)) s
               in ((Inr n, rejected, orphans), s))
      | _ \<Rightarrow> ((Inr 0, [], []), s))"

subsection \<open>Lemmas\<close>

lemma evolves_invalidate_loop: "invalidate_loop q is s = (os, s') \<Longrightarrow> evolves s s'"
proof (induction q "is" s arbitrary: os s' rule: invalidate_loop.induct)
  case (2 q i "is" s)
  show ?case
  proof (cases "find_rec i s")
    case None
    then show ?thesis using 2 by simp
  next
    case (Some r)
    then show ?thesis
      using 2 evolves_trans [OF invalidate.evolves_modify [of s i]]
      by (cases "invalidated r") (auto split: prod.splits)
  qed
qed simp

lemma evolves_invalidate: "invalidate_impl env q s = (res, s') \<Longrightarrow> evolves s s'"
  by (auto simp: invalidate_impl_def Let_def split: prod.splits dest!: evolves_invalidate_loop)

lemma evolves_put: "put env d b s = (res, s') \<Longrightarrow> evolves s s'"
  by (auto simp: put_def Let_def now_ns_def intro!: evolves_insert_after split: if_splits)

lemma evolves_validate: "cache_validate req i s = (res, s') \<Longrightarrow> evolves s s'"
  by (auto simp: cache_validate_def intro!: evolves_intros split: option.splits sum.splits)

lemma evolves_load: "cache_load env i s = Some (res, s') \<Longrightarrow> evolves s s'"
  by (auto simp: cache_load_def dest!: evolves_promote split: option.splits prod.splits sum.splits)

lemma evolves_unload: "cache_unload i s = (res, s') \<Longrightarrow> evolves s s'"
  by (auto simp: cache_unload_def intro!: evolves_intros split: option.splits)

lemma rec_ok_recovered [simp]: "rec_ok (recovered_record sa t)" "rec_id (recovered_record sa t) = sa_id sa"
  "lease_count (recovered_record sa t) = 0"
  by (simp_all add: recovered_record_def make_record_def rec_ok_def published_state_def
      recovered_descriptor_def)

lemma evolves_recover_loop: "recover_loop env sas s = (n, s') \<Longrightarrow> evolves s s'"
proof (induction env sas s arbitrary: n s' rule: recover_loop.induct)
  case (2 env sa sas s)
  show ?case
  proof (cases "find_rec (sa_id sa) s")
    case None
    let ?t = "bump (\<lambda>st. st\<lparr>persistent_reloads := persistent_reloads st + 1\<rparr>)
      (insert_index_locked (recovered_record sa (clk env (ticks s))) (s\<lparr>ticks := Suc (ticks s)\<rparr>))"
    obtain m where m: "recover_loop env sas ?t = (m, s')"
      using "2.prems" None by (auto simp: now_ns_def Let_def split: prod.splits)
    have "evolves s ?t" using None by (auto intro!: evolves_insert_after)
    moreover have "evolves ?t s'" using "2.IH"(2) None m by (auto simp: now_ns_def)
    ultimately show ?thesis by (rule evolves_trans)
  next
    case (Some r)
    then show ?thesis using "2.prems" "2.IH"(1) by auto
  qed
qed simp

lemma evolves_recover: "recover_impl env s = (res, s') \<Longrightarrow> evolves s s'"
  by (auto simp: recover_impl_def Let_def split: prod.splits option.splits bool.splits sum.splits
      dest!: evolves_recover_loop intro: evolves_trans [of s "s\<lparr>persistence := p\<rparr>" for p])


subsection \<open>Management leaves the leases alone\<close>

lemma same_leases_invalidate_loop: "invalidate_loop q is s = (os, s') \<Longrightarrow> same_leases s s'"
proof (induction q "is" s arbitrary: os s' rule: invalidate_loop.induct)
  case (2 q i "is" s)
  show ?case
  proof (cases "find_rec i s")
    case None
    then show ?thesis using 2 by simp
  next
    case (Some r)
    then show ?thesis
      using 2 same_leases_trans [OF invalidate.same_leases_modify [of s s i]]
      by (cases "invalidated r") (auto split: prod.splits)
  qed
qed simp

lemma same_leases_invalidate: "invalidate_impl env q s = (res, s') \<Longrightarrow> same_leases s s'"
  by (auto simp: invalidate_impl_def Let_def split: prod.splits dest!: same_leases_invalidate_loop)

lemma same_leases_put: "put env d b s = (res, s') \<Longrightarrow> same_leases s s'"
  by (auto simp: put_def Let_def now_ns_def intro!: same_leases_insert split: if_splits)

lemma same_leases_validate: "cache_validate req i s = (res, s') \<Longrightarrow> same_leases s s'"
  by (auto simp: cache_validate_def intro!: same_leases_intros split: option.splits sum.splits)

lemma same_leases_load: "cache_load env i s = Some (res, s') \<Longrightarrow> index_inv s \<Longrightarrow> same_leases s s'"
  by (auto simp: cache_load_def dest!: same_leases_promote split: option.splits prod.splits sum.splits)

lemma same_leases_unload: "cache_unload i s = (res, s') \<Longrightarrow> same_leases s s'"
  by (auto simp: cache_unload_def intro!: same_leases_intros split: option.splits)

lemma same_leases_recover_loop: "recover_loop env sas s = (n, s') \<Longrightarrow> same_leases s s'"
proof (induction env sas s arbitrary: n s' rule: recover_loop.induct)
  case (2 env sa sas s)
  show ?case
  proof (cases "find_rec (sa_id sa) s")
    case None
    let ?t = "bump (\<lambda>st. st\<lparr>persistent_reloads := persistent_reloads st + 1\<rparr>)
      (insert_index_locked (recovered_record sa (clk env (ticks s))) (s\<lparr>ticks := Suc (ticks s)\<rparr>))"
    obtain m where m: "recover_loop env sas ?t = (m, s')"
      using "2.prems" None by (auto simp: now_ns_def Let_def split: prod.splits)
    have "same_leases s ?t"
      using None by (auto intro!: same_leases_insert)
    moreover have "same_leases ?t s'" using "2.IH"(2) None m by (auto simp: now_ns_def)
    ultimately show ?thesis by (rule same_leases_trans)
  next
    case (Some r)
    then show ?thesis using "2.prems" "2.IH"(1) by auto
  qed
qed simp

lemma same_leases_recover: "recover_impl env s = (res, s') \<Longrightarrow> same_leases s s'"
  by (auto simp: recover_impl_def Let_def split: prod.splits option.splits bool.splits sum.splits
      dest!: same_leases_recover_loop intro: same_leases_trans [of s "s\<lparr>persistence := p\<rparr>" for p])

lemma put_inserts:
  assumes "put env d b s = (Inr i, s')"
  shows "\<exists>d' t. find_rec i s = None \<and> s' = insert_index_locked (make_record d' b t) (s\<lparr>ticks := Suc (ticks s)\<rparr>) \<and>
    ad_id d' = i \<and> ad_key d' = ad_key d \<and> ad_validation d' = ad_validation d"
proof -
  let ?d1 = "if ad_id d = default_id then d\<lparr>ad_id := derive_artifact_id b (ad_generation d)\<rparr> else d"
  let ?d2 = "if ad_generation ?d1 = 0 then ?d1\<lparr>ad_generation := 1\<rparr> else ?d1"
  have "find_rec i s = None \<and> s' = insert_index_locked (make_record ?d2 b (clk env (ticks s))) (s\<lparr>ticks := Suc (ticks s)\<rparr>) \<and>
      ad_id ?d2 = i"
    using assms by (simp add: put_def now_ns_def Let_def make_record_def split: if_splits)
  moreover have "ad_key ?d2 = ad_key d" "ad_validation ?d2 = ad_validation d" by simp_all
  ultimately show ?thesis by blast
qed

lemma recover_loop_restores:
  assumes "recover_loop env sas s = (n, s')" and "distinct (map sa_id sas)"
    and "\<forall>sa \<in> set sas. find_rec (sa_id sa) s = None"
  shows "n = length sas \<and> (\<forall>sa \<in> set sas. \<exists>t. find_rec (sa_id sa) s' =
      Some ((recovered_record sa t)\<lparr>rec_key := ensure_finalized (sa_key sa)\<rparr>)) \<and>
    (\<forall>i. i \<notin> sa_id ` set sas \<longrightarrow> find_rec i s' = find_rec i s)"
  using assms
proof (induction sas arbitrary: s n)
  case (Cons sa sas)
  let ?u = "bump (\<lambda>st. st\<lparr>persistent_reloads := persistent_reloads st + 1\<rparr>)
    (insert_index_locked (recovered_record sa (clk env (ticks s))) (s\<lparr>ticks := Suc (ticks s)\<rparr>))"
  have u: "find_rec i ?u = (if i = sa_id sa
      then Some ((recovered_record sa (clk env (ticks s)))\<lparr>rec_key := ensure_finalized (sa_key sa)\<rparr>)
      else find_rec i s)" for i
    by (simp add: find_rec_insert) (simp add: recovered_record_def make_record_def recovered_descriptor_def)
  obtain m where m: "recover_loop env sas ?u = (m, s')" "n = Suc m"
    using Cons.prems by (auto simp: now_ns_def Let_def split: prod.splits)
  have "sa_id x \<noteq> sa_id sa" if "x \<in> set sas" for x
    using Cons.prems(2) that by (metis distinct.simps(2) image_eqI list.simps(9) list.set_map)
  then have "\<forall>x \<in> set sas. find_rec (sa_id x) ?u = None" using Cons.prems(3) u by simp
  from Cons.IH [OF m(1) _ this] Cons.prems(2) m(2) u show ?case by auto
qed simp

lemma recover_impl_restores:
  assumes "persistence_open s" and "persistence s = Some p"
    and "ps_recover (store env) p = (Inr sas, rejected, orphans, p')"
    and "distinct (map sa_id sas)" and "\<forall>sa \<in> set sas. find_rec (sa_id sa) s = None"
  shows "\<exists>s'. recover_impl env s = ((Inr (length sas), rejected, orphans), s') \<and>
    (\<forall>sa \<in> set sas. \<exists>r. find_rec (sa_id sa) s' = Some r \<and> rec_bytes r = sa_bytes sa \<and>
      rec_generation r = sa_generation sa \<and> rec_key r = ensure_finalized (sa_key sa) \<and> persistent r \<and>
      rec_tier r = RT_PersistentStorage \<and> usable r \<and> validated r) \<and>
    (\<forall>i. i \<notin> sa_id ` set sas \<longrightarrow> find_rec i s' = find_rec i s)"
proof -
  obtain n s1 where l: "recover_loop env sas (s\<lparr>persistence := Some p'\<rparr>) = (n, s1)" by fastforce
  from recover_loop_restores [OF l assms(4)] assms(5) have *: "n = length sas"
    "\<forall>sa \<in> set sas. \<exists>t. find_rec (sa_id sa) s1 = Some ((recovered_record sa t)\<lparr>rec_key := ensure_finalized (sa_key sa)\<rparr>)"
    "\<forall>i. i \<notin> sa_id ` set sas \<longrightarrow> find_rec i s1 = find_rec i s"
    by auto
  have "usable r \<and> validated r \<and> persistent r \<and> rec_bytes r = sa_bytes sa \<and> rec_generation r = sa_generation sa \<and>
      rec_key r = ensure_finalized (sa_key sa) \<and> rec_tier r = RT_PersistentStorage"
    if "r = (recovered_record sa t)\<lparr>rec_key := ensure_finalized (sa_key sa)\<rparr>" for r sa t
    using that by (simp add: recovered_record_def make_record_def recovered_descriptor_def usable_def is_eligible_def)
  with * show ?thesis
    using assms(1-3) l by (fastforce simp: recover_impl_def Let_def)
qed

lemma invalidated_invalidate [simp]: "invalidated (invalidate_update r)"
  by (simp add: invalidate_update_def Let_def)

lemma invalidate_loop_find:
  assumes "invalidate_loop q is s = (os, s')"
  shows "find_rec i s' =
    (if i \<in> set is then map_option (\<lambda>r. if invalidated r then r else invalidate_update r) (find_rec i s)
     else find_rec i s)"
  using assms
proof (induction "is" arbitrary: s os)
  case (Cons j js)
  show ?case
  proof (cases "find_rec j s")
    case None
    with Cons show ?thesis by auto
  next
    case (Some r)
    show ?thesis
    proof (cases "invalidated r")
      case True
      with Cons Some show ?thesis by auto
    next
      case False
      then obtain os' where "invalidate_loop q js (modify j invalidate_update s) = (os', s')"
        using Cons.prems Some by (auto simp: Let_def split: prod.splits)
      from Cons.IH [OF this] Some False show ?thesis by auto
    qed
  qed
qed simp

lemma invalidate_find:
  assumes "index_inv s" and "invalidate_impl env q s = (res, s')"
  shows "find_rec i s' =
    map_option (\<lambda>r. if invalidation_match q i r \<and> \<not> invalidated r then invalidate_update r else r) (find_rec i s)"
proof -
  let ?ids = "map fst (filter (\<lambda>(i, r). invalidation_match q i r) (by_id s))"
  obtain os s1 where l: "invalidate_loop q ?ids s = (os, s1)" by fastforce
  have m: "i \<in> set ?ids \<longleftrightarrow> (\<exists>r. find_rec i s = Some r \<and> invalidation_match q i r)"
    using assms(1) by (force simp: index_inv_def find_rec_def dest: map_of_SomeD)
  have "find_rec i s' = find_rec i s1" using assms(2) l by (auto simp: invalidate_impl_def Let_def)
  then show ?thesis
    using invalidate_loop_find [OF l, of i] m by (cases "find_rec i s") auto
qed

end
