(* ===== verification/KC_Samples.thy ===== *)
theory KC_Samples
  imports KC_Build
begin

text \<open>
  Concrete instances: a world with a running clock and an in-memory store, a backend whose builder
  returns the source text, and the requests and descriptors on which the properties with
  hypotheses are applied.
\<close>

definition memory_store :: "StoredArtifact list PersistenceStore" where
  "memory_store = \<lparr>ps_put = (\<lambda>p sa. (ok, sa # p)),
     ps_get = (\<lambda>p i. case find (\<lambda>sa. sa_id sa = i) p of
                       Some sa \<Rightarrow> Inr sa | None \<Rightarrow> fail EC_NotFound ''no such artifact''),
     ps_recover = (\<lambda>p. (Inr p, [], [], p))\<rparr>"

definition sample_env :: "StoredArtifact list Env" where
  "sample_env = \<lparr>clk = word_of_nat, rnd = word_of_nat, store = memory_store, show_double = (\<lambda>x. [])\<rparr>"

definition broken_env :: "unit Env" where
  "broken_env = \<lparr>clk = word_of_nat, rnd = word_of_nat,
     store = \<lparr>ps_put = (\<lambda>p sa. (fail EC_IoError ''disk full'', p)),
       ps_get = (\<lambda>p i. fail EC_IoError ''disk full''), ps_recover = (\<lambda>p. (Inr [], [], [], p))\<rparr>,
     show_double = (\<lambda>x. [])\<rparr>"

definition passed :: ValidationDescriptor where
  "passed = \<lparr>integrity_hash_checked = True, format_checked = True, arch_checked = True,
     abi_checked = True, metadata_consistent = True, loadable = True, execution_smoke = True,
     reference_compare = True, backend_reason = []\<rparr>"

definition text_backend :: KernelBackend where
  "text_backend = \<lparr>be_name = ''text'',
     builder = Some \<lparr>can_build = (\<lambda>k. True), build_fn = (\<lambda>br. Inr (BuildResult_new\<lparr>bres_bytes := [1, 2, 3]\<rparr>))\<rparr>,
     validator = Some (\<lambda>k b d. Inr passed),
     loader = Some \<lparr>load_fn = (\<lambda>k b d. Inr (Some (length b))), unload_fn = (\<lambda>h. ok), execute_fn = (\<lambda>h a. ok),
       resident_footprint = (\<lambda>h. (word_of_nat (the h), False))\<rparr>\<rparr>"

definition sample_config :: KernelCacheConfig where
  "sample_config = KernelCacheConfig_new\<lparr>cfg_namespace := ''default''\<rparr>"

definition sample_cache :: "StoredArtifact list Impl" where
  "sample_cache = (Impl_new sample_config)\<lparr>backends := [(''text'', text_backend)]\<rparr>"

definition sample_request :: KernelLookupRequest where
  "sample_request = KernelLookupRequest_new\<lparr>req_key := matmul_key, allow_miss_build := True\<rparr>"

definition sample_id :: ArtifactId where
  "sample_id = mk_id 1 7"

definition sample_desc :: ArtifactDescriptor where
  "sample_desc = ArtifactDescriptor_new\<lparr>ad_id := sample_id, ad_generation := 1,
     ad_key := derive (canonicalize matmul_key), ad_validation := passed\<rparr>"

lemma all_passed_passed [simp]: "all_passed passed"
  by (simp add: passed_def all_passed_def)

lemma index_inv_sample [simp]: "index_inv sample_cache"
  by (simp add: sample_cache_def index_inv_new)

lemma find_rec_sample [simp]: "find_rec i sample_cache = None"
  by (simp add: sample_cache_def find_rec_def Impl_new_def)

lemma find_backend_sample [simp]: "find_backend k sample_cache = Some text_backend"
  by (simp add: find_backend_def sample_cache_def text_backend_def)

lemma complete_backend_sample:
  "complete_backend (Some text_backend) = Some (text_backend, the (builder text_backend),
     the (validator text_backend), the (loader text_backend))"
  by (simp add: complete_backend_def text_backend_def)

end
