(* ===== verification/KC_System.thy ===== *)
theory KC_System
  imports KC_Manage KC_Samples
begin

text \<open>
  The cache together with the lease objects its clients hold, as a transition system over the
  public operations. The invariants here hold in every reachable state, whatever operations
  the clients call in whatever order and whatever the backends, the clock and the store do.
\<close>

datatype Operation =
    OpLookup KernelLookupRequest
  | OpAcquire KernelLookupRequest
  | OpRelease nat
  | OpTouch nat
  | OpBuild KernelLookupRequest
  | OpPut ArtifactDescriptor bytes
  | OpValidate KernelLookupRequest ArtifactId
  | OpLoad ArtifactId
  | OpUnload ArtifactId
  | OpInvalidate InvalidationRequest
  | OpEvict ArtifactId bool
  | OpPin ArtifactId
  | OpUnpin ArtifactId
  | OpCandidates u32
  | OpExplain KernelLookupRequest
  | OpRecover
  | OpRollGeneration
  | OpRegister KernelBackend
  | OpResetStats

record 'p System =
  cache :: "'p Impl"
  leases :: "KernelLease list"

text \<open>
  One call. A lease that is granted joins the client's list; a released one stays in the list
  as the null pointer that \<^verbatim>\<open>release\<close> leaves behind. \<^const>\<open>None\<close>: the call never returns.
\<close>

fun exec :: "'p Env \<Rightarrow> Operation \<Rightarrow> 'p System \<Rightarrow> 'p System option" where
  "exec env (OpLookup q) c = Some (c\<lparr>cache := snd (lookup_impl env q (cache c))\<rparr>)"
| "exec env (OpAcquire q) c =
     (case acquire_impl env q (cache c) of
        None \<Rightarrow> None
      | Some (Inr l, s) \<Rightarrow> Some (c\<lparr>cache := s, leases := leases c @ [l]\<rparr>)
      | Some (Inl e, s) \<Rightarrow> Some (c\<lparr>cache := s\<rparr>))"
| "exec env (OpRelease n) c =
     (if n < length (leases c)
      then let (l, s) = lease_release (leases c ! n) (cache c)
           in Some (c\<lparr>cache := s, leases := (leases c)[n := l]\<rparr>)
      else Some c)"
| "exec env (OpTouch n) c =
     (if n < length (leases c)
      then Some (c\<lparr>cache := snd (lease_touch env (leases c ! n) (cache c))\<rparr>) else Some c)"
| "exec env (OpBuild q) c = map_option (\<lambda>(_, s). c\<lparr>cache := s\<rparr>) (build_impl env q (cache c))"
| "exec env (OpPut d b) c = Some (c\<lparr>cache := snd (put env d b (cache c))\<rparr>)"
| "exec env (OpValidate q i) c = Some (c\<lparr>cache := snd (cache_validate q i (cache c))\<rparr>)"
| "exec env (OpLoad i) c = map_option (\<lambda>(_, s). c\<lparr>cache := s\<rparr>) (cache_load env i (cache c))"
| "exec env (OpUnload i) c = Some (c\<lparr>cache := snd (cache_unload i (cache c))\<rparr>)"
| "exec env (OpInvalidate q) c = Some (c\<lparr>cache := snd (invalidate_impl env q (cache c))\<rparr>)"
| "exec env (OpEvict i f) c = Some (c\<lparr>cache := snd (evict_impl env i f (cache c))\<rparr>)"
| "exec env (OpPin i) c = Some (c\<lparr>cache := snd (pin_impl i (cache c))\<rparr>)"
| "exec env (OpUnpin i) c = Some (c\<lparr>cache := snd (unpin_impl i (cache c))\<rparr>)"
| "exec env (OpCandidates n) c = Some (c\<lparr>cache := snd (eviction_candidates_impl env n (cache c))\<rparr>)"
| "exec env (OpExplain q) c = Some (c\<lparr>cache := snd (explain_request env q (cache c))\<rparr>)"
| "exec env OpRecover c = Some (c\<lparr>cache := snd (recover_impl env (cache c))\<rparr>)"
| "exec env OpRollGeneration c = Some (c\<lparr>cache := snd (roll_cache_generation (cache c))\<rparr>)"
| "exec env (OpRegister b) c = Some (c\<lparr>cache := snd (register_backend b (cache c))\<rparr>)"
| "exec env OpResetStats c = Some (c\<lparr>cache := reset_stats (cache c)\<rparr>)"

text \<open>Running a list of operations; the states reachable from a fresh cache.\<close>

fun run_ops :: "'p Env \<Rightarrow> Operation list \<Rightarrow> 'p System \<Rightarrow> 'p System option" where
  "run_ops env [] c = Some c"
| "run_ops env (x # xs) c = Option.bind (exec env x c) (run_ops env xs)"

definition fresh :: "'p Env \<Rightarrow> (string \<Rightarrow> 'p result) \<Rightarrow> KernelCacheConfig \<Rightarrow> 'p System" where
  "fresh env open_store cf = \<lparr>cache = KernelCache_new env open_store cf, leases = []\<rparr>"

inductive sys_step :: "'p Env \<Rightarrow> 'p System \<Rightarrow> 'p System \<Rightarrow> bool" for env where
  call: "exec env x c = Some c' \<Longrightarrow> sys_step env c c'"

inductive_cases sys_stepE: "sys_step env c c'"

inductive reachable :: "'p Env \<Rightarrow> 'p System \<Rightarrow> bool" for env where
  start: "reachable env (fresh env open_store cf)"
| step: "reachable env c \<Longrightarrow> sys_step env c c' \<Longrightarrow> reachable env c'"

subsection \<open>Every operation evolves the cache\<close>

lemma evolves_candidates: "evolves s (snd (eviction_candidates_impl env n s))"
  by (simp add: eviction_candidates_impl_def Let_def split: prod.split)

lemma evolves_explain: "evolves s (snd (explain_request env q s))"
proof -
  obtain r s' where "lookup_impl env q s = (r, s')" by fastforce
  with lookup_frame [OF this] show ?thesis
    by (simp add: explain_request_def Let_def same_records_evolves split: prod.split)
qed

lemma evolves_lookup: "evolves s (snd (lookup_impl env q s))"
  by (metis lookup_frame prod.collapse same_records_evolves)

lemma evolves_register: "evolves s (snd (register_backend b s))"
  by (simp add: register_backend_def)

lemma evolves_roll: "evolves s (snd (roll_cache_generation s))"
  by (simp add: roll_cache_generation_def)

lemma evolves_reset: "evolves s (reset_stats s)"
  by (rule evolves_same) (simp_all add: reset_stats_def)

lemmas evolves_calls = evolves_lookup evolves_candidates evolves_explain evolves_register evolves_roll
  evolves_reset evolves_put [OF prod.collapse [symmetric]] evolves_validate [OF prod.collapse [symmetric]]
  evolves_unload [OF prod.collapse [symmetric]] evolves_invalidate [OF prod.collapse [symmetric]]
  evolves_evict [OF prod.collapse [symmetric]] evolves_pin [OF prod.collapse [symmetric]]
  evolves_unpin [OF prod.collapse [symmetric]] evolves_recover [OF prod.collapse [symmetric]]
  evolves_touch [OF prod.collapse [symmetric]]

lemma evolves_exec: "exec env x c = Some c' \<Longrightarrow> evolves (cache c) (cache c')"
  by (cases x)
    (auto intro!: evolves_calls dest: evolves_acquire evolves_build evolves_load evolves_release
      split: option.splits sum.splits if_splits prod.splits)

lemma index_inv_fresh: "index_inv (cache (fresh env open_store cf))"
proof -
  have "index_inv (s\<lparr>persistence := p, persistence_open := b\<rparr>) = index_inv s" for s :: "'a Impl" and p b
    by (rule index_inv_cong) simp_all
  then show ?thesis
    by (auto simp: fresh_def KernelCache_new_def Let_def index_inv_new split: sum.splits)
qed

lemma reachable_index_inv: "reachable env c \<Longrightarrow> index_inv (cache c)"
proof (induction rule: reachable.induct)
  case (step c c')
  then show ?case by (auto elim!: sys_stepE dest!: evolves_exec simp: evolves_def)
qed (rule index_inv_fresh)

lemma steps_evolve: "(sys_step env)\<^sup>*\<^sup>* c c' \<Longrightarrow> evolves (cache c) (cache c')"
  by (induction rule: rtranclp_induct) (auto elim!: sys_stepE dest!: evolves_exec intro: evolves_trans)

lemma run_ops_steps: "run_ops env xs c = Some c' \<Longrightarrow> (sys_step env)\<^sup>*\<^sup>* c c'"
proof (induction xs arbitrary: c)
  case (Cons x xs)
  then obtain d where "exec env x c = Some d" "run_ops env xs d = Some c'"
    by (auto simp: Option.bind_eq_Some_conv)
  with Cons.IH show ?case by (blast intro: sys_step.call converse_rtranclp_into_rtranclp)
qed simp

lemma run_ops_reachable: "run_ops env xs (fresh env op cf) = Some c \<Longrightarrow> reachable env c"
proof -
  have "reachable env b" if "(sys_step env)\<^sup>*\<^sup>* a b" "reachable env a" for a b
    using that by (induction rule: rtranclp_induct) (auto intro: reachable.step)
  then show "run_ops env xs (fresh env op cf) = Some c \<Longrightarrow> reachable env c"
    using run_ops_steps reachable.start by blast
qed


subsection \<open>Lease accounting\<close>

definition live :: "'p System \<Rightarrow> ArtifactId \<Rightarrow> nat" where
  "live c i = length (filter (\<lambda>l. lease_valid l \<and> lease_artifact_id l = i) (leases c))"

text \<open>The counter of every record is the number of live leases on it, and live leases name records.\<close>

definition lease_inv :: "'p System \<Rightarrow> bool" where
  "lease_inv c \<longleftrightarrow> (\<forall>i. leases_of i (cache c) = word_of_nat (live c i) \<and>
     (live c i > 0 \<longrightarrow> find_rec i (cache c) \<noteq> None))"

fun moves_leases :: "Operation \<Rightarrow> bool" where
  "moves_leases (OpAcquire q) = True"
| "moves_leases (OpRelease n) = True"
| "moves_leases _ = False"

lemma same_leases_lookup: "same_leases s (snd (lookup_impl env q s))"
  by (metis lookup_frame prod.collapse same_records_leases)

lemma same_leases_candidates: "same_leases s (snd (eviction_candidates_impl env n s))"
  by (simp add: eviction_candidates_impl_def Let_def split: prod.split)

lemma same_leases_explain: "same_leases s (snd (explain_request env q s))"
proof -
  obtain r s' where "lookup_impl env q s = (r, s')" by fastforce
  with lookup_frame [OF this] show ?thesis
    by (simp add: explain_request_def Let_def same_records_leases split: prod.split)
qed

lemma same_leases_register: "same_leases s (snd (register_backend b s))"
  by (simp add: register_backend_def)

lemma same_leases_roll: "same_leases s (snd (roll_cache_generation s))"
  by (simp add: roll_cache_generation_def)

lemma same_leases_reset: "same_leases s (reset_stats s)"
  by (simp add: same_leases_def leases_of_def reset_stats_def find_rec_def)

lemmas same_leases_calls = same_leases_lookup same_leases_candidates same_leases_explain
  same_leases_register same_leases_roll same_leases_reset
  same_leases_put [OF prod.collapse [symmetric]] same_leases_validate [OF prod.collapse [symmetric]]
  same_leases_unload [OF prod.collapse [symmetric]] same_leases_invalidate [OF prod.collapse [symmetric]]
  same_leases_evict [OF prod.collapse [symmetric]] same_leases_pin [OF prod.collapse [symmetric]]
  same_leases_unpin [OF prod.collapse [symmetric]] same_leases_recover [OF prod.collapse [symmetric]]
  same_leases_touch [OF prod.collapse [symmetric]]

lemma exec_neutral:
  "exec env x c = Some c' \<Longrightarrow> \<not> moves_leases x \<Longrightarrow> index_inv (cache c) \<Longrightarrow>
    leases c' = leases c \<and> same_leases (cache c) (cache c')"
  by (cases x)
    (auto intro!: same_leases_calls dest: same_leases_build same_leases_load split: if_splits)

lemma evolves_present: "evolves s s' \<Longrightarrow> index_inv s \<Longrightarrow> find_rec i s \<noteq> None \<Longrightarrow> find_rec i s' \<noteq> None"
  by (auto simp: evolves_def)

lemma lease_inv_acquire:
  assumes ex: "exec env (OpAcquire q) c = Some c'" and inv: "index_inv (cache c)" "lease_inv c"
  shows "lease_inv c'"
proof -
  have ev: "evolves (cache c) (cache c')" by (rule evolves_exec [OF ex])
  obtain res s where run: "acquire_impl env q (cache c) = Some (res, s)"
    and c': "c' = (case res of Inr l \<Rightarrow> c\<lparr>cache := s, leases := leases c @ [l]\<rparr> | Inl e \<Rightarrow> c\<lparr>cache := s\<rparr>)"
    using ex by (auto split: option.splits sum.splits prod.splits)
  note out = acquire_lease [OF run inv(1)]
  show ?thesis
  proof (cases res)
    case (Inl e)
    then show ?thesis
      using out inv evolves_present [OF ev inv(1)] c' by (auto simp: lease_inv_def live_def same_leases_def)
  next
    case (Inr l)
    then obtain st r where l: "l = Some st" "\<not> released st" "find_rec (ls_rec st) s = Some r"
      "\<forall>j. leases_of j s = leases_of j (cache c) + of_bool (j = ls_rec st)"
      using out by (auto simp: hands_out_def)
    have "live c' i = live c i + of_bool (i = ls_rec st)" for i
      using l(1,2) Inr c' by (auto simp: live_def lease_valid_def lease_artifact_id_def)
    then show ?thesis
      using l inv evolves_present [OF ev inv(1)] Inr c' by (auto simp: lease_inv_def)
  qed
qed

lemma live_update:
  assumes "n < length (leases c)" "lease_valid (leases c ! n)" "\<not> lease_valid l"
  shows "live (c\<lparr>cache := s, leases := (leases c)[n := l]\<rparr>) i =
    live c i - of_bool (i = lease_artifact_id (leases c ! n))"
    and "live c (lease_artifact_id (leases c ! n)) > 0"
proof -
  let ?P = "\<lambda>l. lease_valid l \<and> lease_artifact_id l = i"
  have split: "leases c = take n (leases c) @ leases c ! n # drop (Suc n) (leases c)"
    using assms(1) by (simp add: id_take_nth_drop)
  have "length (filter ?P (leases c)) = length (filter ?P (take n (leases c)))
      + of_bool (?P (leases c ! n)) + length (filter ?P (drop (Suc n) (leases c)))"
    by (subst split) simp
  then show "live (c\<lparr>cache := s, leases := (leases c)[n := l]\<rparr>) i =
      live c i - of_bool (i = lease_artifact_id (leases c ! n))"
    using assms by (auto simp: live_def upd_conv_take_nth_drop)
  show "live c (lease_artifact_id (leases c ! n)) > 0"
    using assms(1,2) nth_mem [OF assms(1)] by (auto simp: live_def filter_empty_conv)
qed

lemma live_le: "live c i \<le> length (leases c)"
  by (simp add: live_def)

lemma lease_inv_release:
  assumes ex: "exec env (OpRelease n) c = Some c'" and inv: "index_inv (cache c)" "lease_inv c"
    and fit: "length (leases c) < 2 ^ 64"
  shows "lease_inv c'"
proof (cases "n < length (leases c) \<and> lease_valid (leases c ! n)")
  case False
  then have "n < length (leases c) \<Longrightarrow> lease_release (leases c ! n) (cache c) = (leases c ! n, cache c)"
    by (auto simp: lease_release_def lease_valid_def split: option.splits)
  then have "c' = c" using ex by (cases "n < length (leases c)") simp_all
  then show ?thesis using inv by simp
next
  case True
  let ?l = "leases c ! n"
  let ?i = "lease_artifact_id ?l"
  obtain s where rel: "lease_release ?l (cache c) = (None, s)"
    and c': "c' = c\<lparr>cache := s, leases := (leases c)[n := None]\<rparr>"
    using ex True by (auto simp: lease_release_def lease_valid_def split: option.splits if_splits)
  have dead: "\<not> lease_valid None" by (simp add: lease_valid_def)
  have pos: "live c ?i > 0" and liv: "live c' j = live c j - of_bool (j = ?i)" for j
    using live_update(2) [OF _ _ dead, of n c] live_update(1) [OF _ _ dead, of n c s j] True c' by auto
  have "live c ?i < 2 ^ 64" using live_le [of c ?i] fit by simp
  then have "leases_of ?i (cache c) > 0"
    using inv(2) pos by (auto simp: lease_inv_def word_gt_0 word_of_nat_eq_0_iff dest: dvd_imp_le)
  then have "leases_of j s = word_of_nat (live c' j)" for j
    using leases_release [OF rel, of j] inv(2) liv pos True
    by (auto simp: lease_inv_def of_nat_diff)
  moreover have "live c' j > 0 \<Longrightarrow> find_rec j s \<noteq> None" for j
    using liv inv evolves_present [OF evolves_release [OF rel] inv(1)] by (auto simp: lease_inv_def)
  ultimately show ?thesis by (simp add: lease_inv_def c')
qed

lemma lease_inv_exec:
  assumes "exec env x c = Some c'" "index_inv (cache c)" "lease_inv c" "length (leases c) < 2 ^ 64"
  shows "lease_inv c'"
proof (cases "moves_leases x")
  case True
  then show ?thesis using assms lease_inv_acquire lease_inv_release by (cases x) auto
next
  case False
  then show ?thesis
    using exec_neutral [OF assms(1) False assms(2)] evolves_present [OF evolves_exec [OF assms(1)] assms(2)] assms(3)
    by (auto simp: lease_inv_def live_def same_leases_def)
qed

lemma leases_grow: "exec env x c = Some c' \<Longrightarrow> length (leases c) \<le> length (leases c')"
  by (cases x) (auto split: option.splits sum.splits if_splits prod.splits)

lemma reachable_lease_inv: "reachable env c \<Longrightarrow> length (leases c) < 2 ^ 64 \<Longrightarrow> lease_inv c"
proof (induction rule: reachable.induct)
  case (start op cf)
  have "find_rec i (cache (fresh env op cf)) = None" for i
    by (auto simp: fresh_def KernelCache_new_def Impl_new_def find_rec_def Let_def split: sum.splits)
  then show ?case by (simp add: lease_inv_def leases_of_def live_def) (simp add: fresh_def)
next
  case (step c c')
  from step.hyps(2) obtain x where x: "exec env x c = Some c'" by (rule sys_stepE)
  then have "length (leases c) < 2 ^ 64" using leases_grow [OF x] step.prems by linarith
  then show ?case using lease_inv_exec [OF x] reachable_index_inv [OF step.hyps(1)] step.IH by blast
qed

lemma unusable_stays:
  assumes "reachable env c" and "find_rec i (cache c) = Some r" and "\<not> usable r"
    and "(sys_step env)\<^sup>*\<^sup>* c c'" and "evolves (cache c') s"
  shows "\<exists>r'. find_rec i s = Some r' \<and> \<not> usable r'"
proof -
  have "evolves (cache c) s" using steps_evolve [OF assms(4)] assms(5) by (rule evolves_trans)
  then show ?thesis
    using reachable_index_inv [OF assms(1)] assms(2,3) by (auto simp: evolves_def record_evolves_def)
qed

end
