(* ===== verification/KC_Segments.thy ===== *)
theory KC_Segments
  imports KC_System
begin

text \<open>
  Every operation of the cache (\<^verbatim>\<open>src/cache.cpp\<close>, \<^verbatim>\<open>src/leases.cpp\<close>, \<^verbatim>\<open>src/residency.cpp\<close>,
  \<^verbatim>\<open>src/recovery.cpp\<close>) is a sequence of short segments: one change of one record, the insertion of a
  record, one update of the counters, or a change that touches none of them. This theory names the
  kinds of segments and shows of which kinds each operation consists, so that an invariant of the
  whole cache is proved once per segment instead of once per operation.
\<close>

subsection \<open>Segments\<close>

text \<open>What the lookup counters have to satisfy: every lookup was a hit of one kind or a miss.\<close>

definition tallied :: "Stats \<Rightarrow> bool" where
  "tallied st \<longleftrightarrow> lookups st = exact_hits st + compatible_hits st + persistent_hits st + host_hits st
     + device_hits st + misses st"

datatype Kind =
    Silent                                       \<comment> \<open>neither records nor counters nor modules\<close>
  | Tally                                        \<comment> \<open>the counters\<close>
  | Meta                                         \<comment> \<open>a record, but not whether it can be leased\<close>
  | Move                                         \<comment> \<open>a record gains residency\<close>
  | Fate                                         \<comment> \<open>a record may stop being usable\<close>
  | Insert                                       \<comment> \<open>a new record\<close>
  | Grant
  | Release

inductive segment :: "Kind \<Rightarrow> 'p Impl \<Rightarrow> 'p Impl \<Rightarrow> bool" where
  silent: "same_records s s' \<Longrightarrow> backends s' = backends s \<Longrightarrow> stats s' = stats s \<Longrightarrow>
    module_calls s' = module_calls s \<Longrightarrow> segment Silent s s'"
| tally: "(\<And>st. tallied st \<Longrightarrow> tallied (f st)) \<Longrightarrow> segment Tally s (bump f s)"
| touch: "segment Meta s (modify i (touch_update t) s)"
| reload: "segment Meta s (modify i (reload_update b) s)"
| pin: "segment Meta s (modify i pin_update s)"
| unpin: "segment Meta s (modify i unpin_update s)"
| persisted: "find_rec i s = Some r \<Longrightarrow> native_handle r = None \<Longrightarrow> segment Meta s (modify i persisted_update s)"
| host: "find_rec i s = Some r \<Longrightarrow> rec_tier r < RT_HostResident \<Longrightarrow> segment Move s (modify i host_update s)"
| load: "find_rec i s = Some r \<Longrightarrow> rec_tier r < RT_DeviceResident \<Longrightarrow> device_loader (rec_key r) s = Some (b, ld) \<Longrightarrow>
    segment Move s (modify i (device_update h fp) (note_load b h s))"
| invalidate: "segment Fate s (modify i invalidate_update s)"
| verdict: "segment Fate s (modify i (verdict_update vd) s)"
| no_verdict: "segment Fate s (modify i no_verdict_update s)"
| evict_begin: "segment Fate s (modify i evict_begin_update s)"
| evict_end: "segment Fate s (modify i evict_end_update (unload_module i s))"
| unload: "segment Fate s (modify i unload_update (unload_module i s))"
| insert: "find_rec (rec_id r) s = None \<Longrightarrow> rec_ok r \<Longrightarrow> lease_count r = 0 \<Longrightarrow> native_handle r = None \<Longrightarrow>
    segment Insert s (insert_index_locked r s)"
| grant: "find_rec i s = Some r \<Longrightarrow> usable r \<Longrightarrow> segment Grant s (modify i (grant_update t p) s)"
| release: "segment Release s (modify i release_update s)"

inductive_cases segmentE: "segment k s s'"

definition segments :: "Kind set \<Rightarrow> 'p Impl \<Rightarrow> 'p Impl \<Rightarrow> bool" where
  "segments K = (\<lambda>s s'. \<exists>k \<in> K. segment k s s')\<^sup>*\<^sup>*"

lemma segments_refl [simp, intro]: "segments K s s"
  by (simp add: segments_def)

lemma segments_trans [trans]: "segments K s t \<Longrightarrow> segments K t u \<Longrightarrow> segments K s u"
  unfolding segments_def by (rule rtranclp_trans)

lemma segments_step: "segment k t u \<Longrightarrow> k \<in> K \<Longrightarrow> segments K s t \<Longrightarrow> segments K s u"
  unfolding segments_def by (rule rtranclp.rtrancl_into_rtrancl) auto

lemma segments_mono: "segments K s t \<Longrightarrow> K \<subseteq> L \<Longrightarrow> segments L s t"
  unfolding segments_def by (erule rtranclp_mono [THEN predicate2D, rotated]) auto

lemma segments_append: "segments K s t \<Longrightarrow> segments L t u \<Longrightarrow> K \<subseteq> M \<Longrightarrow> L \<subseteq> M \<Longrightarrow> segments M s u"
  using segments_trans segments_mono by blast

text \<open>An invariant of the segments is an invariant of what is made of them.\<close>

lemma segments_induct [consumes 1, case_names start step]:
  assumes "segments K s s'" and "P s" and "\<And>k t u. k \<in> K \<Longrightarrow> segment k t u \<Longrightarrow> P t \<Longrightarrow> P u"
  shows "P s'"
  using assms unfolding segments_def by (induction rule: rtranclp_induct) auto

lemma silent_fields:
  "segment Silent s (s\<lparr>ticks := n\<rparr>)" "segment Silent s (s\<lparr>persistence := p\<rparr>)" "segment Silent s (s\<lparr>in_flight := fl\<rparr>)"
  "segment Silent s (s\<lparr>fences := fs\<rparr>)" "segment Silent s (s\<lparr>next_generation := g\<rparr>)"
  "segment Silent s (s\<lparr>cache_generation := g\<rparr>)" "segment Silent s (record_event env ty m s)"
  by (auto intro!: segment.silent simp: same_records_def)

lemmas segments_intros =
  silent_fields [THEN segments_step] segment.tally [THEN segments_step] segment.touch [THEN segments_step]
  segment.reload [THEN segments_step] segment.pin [THEN segments_step] segment.unpin [THEN segments_step]
  segment.invalidate [THEN segments_step] segment.verdict [THEN segments_step]
  segment.no_verdict [THEN segments_step] segment.evict_begin [THEN segments_step]
  segment.evict_end [THEN segments_step] segment.unload [THEN segments_step] segment.release [THEN segments_step]

lemma tallied_same [simp]:
  "tallied (st\<lparr>evictions := n\<rparr>) = tallied st" "tallied (st\<lparr>active_device_loads := n\<rparr>) = tallied st"
  "tallied (st\<lparr>active_leases := n\<rparr>) = tallied st" "tallied (st\<lparr>active_builds := n\<rparr>) = tallied st"
  "tallied (st\<lparr>builds := n\<rparr>) = tallied st" "tallied (st\<lparr>build_dedup := n\<rparr>) = tallied st"
  "tallied (st\<lparr>failed_builds := n\<rparr>) = tallied st" "tallied (st\<lparr>bytes_persisted := n\<rparr>) = tallied st"
  "tallied (st\<lparr>compile_ns := n\<rparr>) = tallied st" "tallied (st\<lparr>validation_ns := n\<rparr>) = tallied st"
  "tallied (st\<lparr>cuda_exec_validations := n\<rparr>) = tallied st" "tallied (st\<lparr>invalidations := n\<rparr>) = tallied st"
  "tallied (st\<lparr>persistent_reloads := n\<rparr>) = tallied st"
  by (simp_all add: tallied_def)

lemma tallied_new: "tallied Stats_new"
  by (simp add: tallied_def Stats_new_def)

lemma tallied_miss: "tallied st \<Longrightarrow> tallied (st\<lparr>lookups := lookups st + 1, misses := misses st + 1\<rparr>)"
  by (simp add: tallied_def algebra_simps)

lemma tallied_hit: "tallied st \<Longrightarrow> tallied (count_hit (hit_kind c) st)"
  by (auto simp: tallied_def count_hit_def hit_kind_def Let_def algebra_simps split: ResidencyTier.splits)

subsection \<open>The segments of each operation\<close>

abbreviation noise :: "Kind set" where
  "noise \<equiv> {Silent, Tally}"

lemma segments_lookup: "segments noise s (snd (lookup_impl env q s))"
  by (auto simp: lookup_impl_def lookup_hit_def lookup_miss_def now_ns_def Let_def tallied_miss tallied_hit
      intro!: segments_intros split: option.splits)

lemma segments_evict: "segments {Silent, Tally, Fate} s (snd (evict_impl env i force s))"
  by (auto simp: evict_impl_def Let_def intro!: segments_intros split: option.splits)

lemma segments_ensure_bytes: "ensure_bytes env i s = (res, s') \<Longrightarrow> segments {Meta} s s'"
  by (auto simp: ensure_bytes_def intro!: segments_intros split: option.splits if_splits sum.splits bool.splits prod.splits)


lemma segments_evict_to_fit: "evict_to_fit env tier s = Some s' \<Longrightarrow> segments {Silent, Tally, Fate} s s'"
proof (induction rule: evict_to_fit.raw_induct [rotated, consumes 1, case_names step])
  case (step rec env tier s s')
  let ?v = "scan_victims env tier s"
  let ?t = "s\<lparr>ticks := readings ?v\<rparr>"
  have t: "segments {Silent, Tally, Fate} s ?t" by (auto intro: segments_intros)
  show ?case
  proof (cases "\<exists>i. applies tier s \<and> victim ?v = Some i \<and> \<not> used ?v \<le> budget_for tier s")
    case True
    then obtain i where "rec env tier (snd (evict_impl env i False ?t)) = Some s'"
      using step(2) by (auto simp: Let_def)
    from step(1) [OF this] show ?thesis
      using segments_trans [OF t segments_trans [OF segments_evict]] by blast
  next
    case False
    then have "s' = s \<or> s' = ?t" using step(2) by (auto simp: Let_def split: if_splits option.splits)
    then show ?thesis using t by auto
  qed
qed

lemma ensure_bytes_record:
  "ensure_bytes env i s = (b, s1) \<Longrightarrow> find_rec i s = Some r \<Longrightarrow>
    \<exists>r1. find_rec i s1 = Some r1 \<and> rec_tier r1 = rec_tier r \<and> rec_key r1 = rec_key r"
  by (auto simp: ensure_bytes_def reload_update_def split: option.splits if_splits sum.splits bool.splits prod.splits)

lemma segments_promote:
  assumes "promote_to_tier env i tier dev s = Some (res, s')"
  shows "segments {Silent, Tally, Meta, Move, Fate} s s'"
proof -
  let ?K = "{Silent, Tally, Meta, Move, Fate}"
  obtain b s1 where b: "ensure_bytes env i s = (b, s1)" by fastforce
  have s1: "segments ?K s s1" by (rule segments_mono [OF segments_ensure_bytes [OF b]]) simp
  have loaded: "segments ?K s u"
    if "find_rec i s = Some r" "\<not> RT_DeviceResident \<le> rec_tier r" "device_loader (rec_key r) s1 = Some (n, ld)"
      "evict_to_fit env RT_DeviceResident (install_device env i h fp (note_load n h s1)) = Some u" for r n ld h fp u
  proof -
    from ensure_bytes_record [OF b that(1)]
    obtain r1 where r1: "find_rec i s1 = Some r1" "rec_tier r1 = rec_tier r" "rec_key r1 = rec_key r" by blast
    have "segments ?K s (modify i (device_update h fp) (note_load n h s1))"
      by (rule segments_step [OF segment.load [OF r1(1), of n ld] _ s1]) (use that r1 in auto)
    then have "segments ?K s (install_device env i h fp (note_load n h s1))"
      by (auto simp: install_device_def Let_def intro!: segments_intros)
    then show ?thesis
      by (rule segments_trans) (rule segments_mono [OF segments_evict_to_fit [OF that(4)]], simp)
  qed
  have hosted: "segments ?K s (modify i host_update s1)"
    if "find_rec i s = Some r" "\<not> RT_HostResident \<le> rec_tier r" for r
  proof -
    from ensure_bytes_record [OF b that(1)]
    obtain r1 where r1: "find_rec i s1 = Some r1" "rec_tier r1 = rec_tier r" by blast
    show ?thesis by (rule segments_step [OF segment.host [OF r1(1)] _ s1]) (use that r1 in auto)
  qed
  show ?thesis
    using assms s1 b
    by (auto simp: promote_to_tier_def split: option.splits if_splits sum.splits prod.splits
        intro: loaded hosted)
qed

lemma segments_grant: "grant_lease env i req s = (res, s') \<Longrightarrow>
    segments (if isl res then {} else {Silent, Tally, Grant}) s s'"
proof -
  assume g: "grant_lease env i req s = (res, s')"
  have "segments {Silent, Tally, Grant} s
      (bump (\<lambda>x. x\<lparr>active_leases := active_leases x + 1\<rparr>) (modify i (grant_update t p) (s\<lparr>ticks := n\<rparr>)))"
    if "find_rec i s = Some r" "lease_eligible r" for r t p n
  proof -
    have "segment Grant (s\<lparr>ticks := n\<rparr>) (modify i (grant_update t p) (s\<lparr>ticks := n\<rparr>))"
      using that by (intro segment.grant) (auto simp: lease_eligible_usable)
    from segments_step [OF this, of "{Silent, Tally, Grant}" s] show ?thesis
      by (auto intro!: segments_intros)
  qed
  then show ?thesis
    using g by (auto simp: grant_lease_def now_ns_def Let_def split: option.splits if_splits)
qed

lemma segments_release: "lease_release l s = (l', s') \<Longrightarrow> segments {Tally, Release} s s'"
  by (auto simp: lease_release_def on_lease_release_def Let_def intro!: segments_intros split: option.splits if_splits)

lemma segments_touch: "segments {Silent, Meta} s (snd (lease_touch env l s))"
  by (auto simp: lease_touch_def now_ns_def Let_def intro!: segments_intros)

lemma segments_pin: "segments {Meta} s (snd (pin_impl i s))"
  by (auto simp: pin_impl_def intro!: segments_intros split: option.split)

lemma segments_unpin: "segments {Meta} s (snd (unpin_impl i s))"
  by (auto simp: unpin_impl_def intro!: segments_intros split: option.split)

lemma segments_unload: "segments {Fate} s (snd (cache_unload i s))"
  by (auto simp: cache_unload_def intro!: segments_intros split: option.split)

lemma segments_validate: "segments {Fate} s (snd (cache_validate req i s))"
  by (auto simp: cache_validate_def intro!: segments_intros split: option.split sum.split)

lemma segments_candidates: "segments {Silent} s (snd (eviction_candidates_impl env n s))"
  by (auto simp: eviction_candidates_impl_def Let_def intro!: segments_intros split: prod.split)

lemma segments_explain: "segments noise s (snd (explain_request env q s))"
  using segments_lookup [of s env q] by (auto simp: explain_request_def Let_def split: prod.split)

lemma segments_roll: "segments {Silent} s (snd (roll_cache_generation s))"
  by (auto simp: roll_cache_generation_def intro!: segments_intros)

lemma segments_reset: "segments {Tally} s (reset_stats s)"
proof -
  have "reset_stats s = bump (\<lambda>st. Stats_new) s" by (simp add: reset_stats_def bump_def)
  then show ?thesis by (auto simp: tallied_new intro!: segments_intros)
qed

lemma segments_load: "cache_load env i s = Some (res, s') \<Longrightarrow> segments {Silent, Tally, Meta, Move, Fate} s s'"
  by (auto simp: cache_load_def dest!: segments_promote split: option.splits sum.splits prod.splits)

lemma segments_invalidate_loop: "invalidate_loop q is s = (os, s') \<Longrightarrow> segments {Fate} s s'"
proof (induction q "is" s arbitrary: os s' rule: invalidate_loop.induct)
  case (2 q i "is" s)
  have "segments {Fate} s (modify i invalidate_update s)" by (auto intro: segments_intros)
  note later = segments_trans [OF this]
  show ?case using 2 later by (auto split: option.splits if_splits prod.splits)
qed simp

lemma segments_invalidate: "segments {Silent, Tally, Fate} s (snd (invalidate_impl env q s))"
proof -
  let ?ids = "map fst (filter (\<lambda>(i, r). invalidation_match q i r) (by_id s))"
  obtain os s' where l: "invalidate_loop q ?ids s = (os, s')" by fastforce
  have "segments {Silent, Tally, Fate} s s'" by (rule segments_mono [OF segments_invalidate_loop [OF l]]) simp
  then show ?thesis using l by (auto simp: invalidate_impl_def Let_def intro!: segments_intros)
qed

lemma segments_put: "segments {Silent, Insert} s (snd (put env d b s))"
proof -
  have "segments {Silent, Insert} s (insert_index_locked (make_record d' b t) (s\<lparr>ticks := n\<rparr>))"
    if "find_rec (ad_id d') s = None" for d' t n
  proof (rule segments_step [OF segment.insert])
    show "segments {Silent, Insert} s (s\<lparr>ticks := n\<rparr>)" by (auto intro: segments_intros)
  qed (use that in \<open>auto simp: make_record_def rec_ok_def published_state_def\<close>)
  then show ?thesis by (auto simp: put_def now_ns_def Let_def intro: segments_intros)
qed

lemma recovered_no_module [simp]: "native_handle (recovered_record sa t) = None"
  by (simp add: recovered_record_def make_record_def)

lemma segments_recover_loop: "recover_loop env sas s = (n, s') \<Longrightarrow> segments {Silent, Tally, Insert} s s'"
proof (induction env sas s arbitrary: n s' rule: recover_loop.induct)
  case (2 env sa sas s)
  show ?case
  proof (cases "find_rec (sa_id sa) s")
    case None
    let ?r = "recovered_record sa (clk env (ticks s))"
    let ?t = "bump (\<lambda>st. st\<lparr>persistent_reloads := persistent_reloads st + 1\<rparr>)
      (insert_index_locked ?r (s\<lparr>ticks := Suc (ticks s)\<rparr>))"
    obtain m where m: "recover_loop env sas ?t = (m, s')"
      using "2.prems" None by (auto simp: now_ns_def Let_def split: prod.splits)
    have "segment Insert (s\<lparr>ticks := Suc (ticks s)\<rparr>) (insert_index_locked ?r (s\<lparr>ticks := Suc (ticks s)\<rparr>))"
      by (rule segment.insert) (simp_all add: None)
    from segments_step [OF this, of "{Silent, Tally, Insert}" s] have "segments {Silent, Tally, Insert} s ?t"
      by (auto intro!: segments_intros)
    moreover have "segments {Silent, Tally, Insert} ?t s'" using "2.IH"(2) None m by (auto simp: now_ns_def)
    ultimately show ?thesis by (rule segments_trans)
  next
    case (Some r)
    then show ?thesis using 2 by simp
  qed
qed simp

lemma segments_recover: "segments {Silent, Tally, Insert} s (snd (recover_impl env s))"
  by (auto simp: recover_impl_def Let_def split: prod.splits option.splits bool.splits sum.splits
      intro!: segments_intros dest!: segments_recover_loop
      intro: segments_trans [of _ s "s\<lparr>persistence := p\<rparr>" for p])


lemma segments_claim: "build_claim env req s = (own, s') \<Longrightarrow> segments noise s s'"
  by (auto simp: build_claim_def Let_def now_ns_def rand_def intro!: segments_intros split: option.splits)

lemma segments_run_build: "run_build env req gen att s = (oc, s') \<Longrightarrow> segments noise s s'"
  by (auto simp: run_build_def Let_def now_ns_def intro!: segments_intros split: option.splits sum.splits if_splits)

lemma segments_publish: "segments noise s (build_publish f oc s)"
  by (auto simp: build_publish_def Let_def intro!: segments_intros)

lemma segments_retire: "segments noise s (build_retire k f s)"
  by (auto simp: build_retire_def intro!: segments_intros)

lemma make_record_no_module [simp]: "native_handle (make_record d b t) = None"
  by (simp add: make_record_def)

lemma segments_build_insert:
  assumes "build_insert env oc s = (new, s')" and "ad_id (o_desc oc) = o_id oc"
  shows "segments {Silent, Insert} s s'" and "new \<Longrightarrow> \<exists>r. find_rec (o_id oc) s' = Some r \<and> native_handle r = None"
proof -
  have "segments {Silent, Insert} s (insert_index_locked (make_record (o_desc oc) b t) (s\<lparr>ticks := n\<rparr>))"
    if "find_rec (o_id oc) s = None" for b t n
  proof (rule segments_step [OF segment.insert])
    show "segments {Silent, Insert} s (s\<lparr>ticks := n\<rparr>)" by (auto intro: segments_intros)
  qed (use that assms(2) in simp_all)
  then show "segments {Silent, Insert} s s'"
    using assms by (auto simp: build_insert_def now_ns_def split: option.splits)
  show "\<exists>r. find_rec (o_id oc) s' = Some r \<and> native_handle r = None" if new
    using that assms by (auto simp: build_insert_def now_ns_def find_rec_insert split: option.splits)
qed

lemma segments_persist:
  assumes "build_persist env oc s = Some s'" and "find_rec (o_id oc) s = Some r" and "native_handle r = None"
  shows "segments {Silent, Tally, Meta} s s'"
proof -
  let ?K = "{Silent, Tally, Meta}"
  have "segments ?K s (modify (o_id oc) persisted_update (s\<lparr>ticks := n, persistence := p\<rparr>))" for n p
  proof (rule segments_step [OF segment.persisted])
    show "segments ?K s (s\<lparr>ticks := n, persistence := p\<rparr>)" by (auto intro!: segments_intros)
  qed (use assms in simp_all)
  then show ?thesis
    using assms(1) by (auto simp: build_persist_def now_ns_def Let_def intro!: segments_intros
        split: bool.splits option.splits prod.splits sum.splits)
qed

lemma segments_finish:
  assumes "build_finish env att oc s = Some (res, s')" and "outcome_ok oc"
  shows "segments {Silent, Tally, Meta, Insert} s s'"
proof (cases "succeeded oc")
  case True
  let ?K = "{Silent, Tally, Meta, Insert}"
  let ?s1 = "record_event env ''build'' (''succeeded attempt='' @ str att @ '' id='' @ str (o_id oc)) s"
  obtain new s2 where ins: "build_insert env oc ?s1 = (new, s2)" by fastforce
  have "ad_id (o_desc oc) = o_id oc" using assms(2) True by (simp add: outcome_ok_def)
  note i = segments_build_insert [OF ins this]
  have s2: "segments ?K s s2"
  proof (rule segments_trans)
    show "segments ?K s ?s1" by (auto intro: segments_intros)
    show "segments ?K ?s1 s2" by (rule segments_mono [OF i(1)]) simp
  qed
  show ?thesis
  proof (cases new)
    case True
    then obtain r where r: "find_rec (o_id oc) s2 = Some r" "native_handle r = None" using i(2) by blast
    have "build_persist env oc s2 = Some s'" using assms(1) \<open>succeeded oc\<close> ins True by (auto simp: build_finish_def Let_def)
    from segments_mono [OF segments_persist [OF this r]] show ?thesis by (intro segments_trans [OF s2]) simp
  next
    case False
    then show ?thesis using assms(1) \<open>succeeded oc\<close> ins s2 by (auto simp: build_finish_def Let_def)
  qed
next
  case False
  then show ?thesis using assms(1) by (auto simp: build_finish_def Let_def intro!: segments_intros)
qed

lemma segments_build:
  assumes "build_impl env req s = Some ((res, own), s')"
  shows "segments {Silent, Tally, Meta, Insert} s s'"
proof -
  let ?K = "{Silent, Tally, Meta, Insert}"
  let ?rq = "default_namespace s (req\<lparr>req_key := finalized (req_key req)\<rparr>)"
  have noise: "segments ?K t u" if "segments noise t u" for t u :: "'a Impl"
    using that by (rule segments_mono) simp
  show ?thesis
  proof (cases own)
    case True
    then have "build_impl env req s = Some ((res, True), s')" using assms by simp
    then show ?thesis
    proof (rule build_owner)
      fix f s1 att gen oc s2
      assume claim: "build_claim env ?rq s = ((True, f), s1)" and run: "run_build env ?rq gen att s1 = (oc, s2)"
        and fin: "build_finish env att oc (build_retire (finalized (req_key req)) f (build_publish f oc s2)) = Some (res, s')"
      have "segments noise s (build_retire (finalized (req_key req)) f (build_publish f oc s2))"
        using segments_claim [OF claim] segments_run_build [OF run] segments_publish segments_retire segments_trans by metis
      with segments_finish [OF fin] run_build_outcome [OF run] noise show ?thesis using segments_trans by blast
    qed
  next
    case False
    then show ?thesis
      using assms by (auto simp: build_impl_def Let_def split: prod.splits bool.splits dest!: segments_claim intro: noise)
  qed
qed

text \<open>What a call that hands out leases consists of; one that fails grants nothing.\<close>

definition lease_kinds :: "'a result \<Rightarrow> Kind set" where
  "lease_kinds res = (case res of Inl _ \<Rightarrow> UNIV - {Grant, Release} | Inr _ \<Rightarrow> UNIV - {Release})"

lemma lease_kinds_basic:
  "UNIV - {Grant, Release} \<subseteq> lease_kinds res" "{Silent, Tally, Meta, Move, Fate} \<subseteq> lease_kinds res"
  "{Silent, Tally, Meta, Insert} \<subseteq> lease_kinds res" "noise \<subseteq> lease_kinds res"
  "(if isl res then {} else {Silent, Tally, Grant}) \<subseteq> lease_kinds res"
  by (auto simp: lease_kinds_def split: sum.split)

lemma segments_promote_and_grant:
  assumes "promote_and_grant env i req s = Some (res, s')"
  shows "segments (lease_kinds res) s s'"
proof -
  obtain p t where p: "promote_to_tier env i (desired_tier req) (req_device req) s = Some (p, t)"
    using assms by (auto simp: promote_and_grant_def split: option.splits)
  show ?thesis
  proof (cases p)
    case (Inl e)
    then have "t = s'" using assms p by (simp add: promote_and_grant_def)
    then show ?thesis using segments_mono [OF segments_promote [OF p] lease_kinds_basic(2)] by simp
  next
    case (Inr u)
    then have "grant_lease env i req t = (res, s')" using assms p by (simp add: promote_and_grant_def)
    from segments_append [OF segments_promote [OF p] segments_grant [OF this] lease_kinds_basic(2,5)]
    show ?thesis .
  qed
qed

lemma segments_acquire:
  assumes "acquire_impl env req s = Some (res, s')"
  shows "segments (lease_kinds res) s s'"
proof -
  let ?rq = "req\<lparr>req_key := finalized (req_key req)\<rparr>"
  obtain dec s1 where l: "lookup_impl env ?rq s = (dec, s1)" by fastforce
  have s1: "segments (lease_kinds res) s s1"
    using segments_mono [OF segments_lookup [of s env ?rq] lease_kinds_basic(4)] l by simp
  have b: "segments (lease_kinds res) s u" if "build_impl env q s1 = Some ((d, own), u)" for q d own u
    using segments_trans [OF s1 segments_mono [OF segments_build [OF that] lease_kinds_basic(3)]] .
  have g: "segments (lease_kinds res) s s'"
    if "promote_and_grant env i q t = Some (res, s')" "segments (lease_kinds res) s t" for i q t
    using segments_trans [OF that(2) segments_promote_and_grant [OF that(1)]] .
  show ?thesis
    using assms l s1
    by (auto simp: acquire_impl_def Let_def split: sum.splits if_splits option.splits prod.splits dest: b intro: g)
qed

text \<open>Registering a backend is the one operation that is not made of segments.\<close>

fun kinds :: "Operation \<Rightarrow> Kind set" where
  "kinds (OpAcquire q) = UNIV - {Release}"
| "kinds (OpRelease n) = {Tally, Release}"
| "kinds (OpTouch n) = {Silent, Meta}"
| "kinds (OpBuild q) = {Silent, Tally, Meta, Insert}"
| "kinds (OpPut d b) = {Silent, Insert}"
| "kinds OpRecover = {Silent, Tally, Insert}"
| "kinds (OpValidate q i) = {Fate}"
| "kinds (OpUnload i) = {Fate}"
| "kinds (OpInvalidate q) = {Silent, Tally, Fate}"
| "kinds (OpEvict i f) = {Silent, Tally, Fate}"
| "kinds (OpLoad i) = {Silent, Tally, Meta, Move, Fate}"
| "kinds (OpPin i) = {Meta}"
| "kinds (OpUnpin i) = {Meta}"
| "kinds _ = {Silent, Tally}"

fun registers :: "Operation \<Rightarrow> bool" where
  "registers (OpRegister b) = True"
| "registers _ = False"

lemma segments_exec:
  assumes "exec env x c = Some c'" and "\<not> registers x"
  shows "segments (kinds x) (cache c) (cache c')"
proof -
  have acquire: "segments (UNIV - {Release}) s s'" if "acquire_impl env q s = Some (res, s')" for q s res s'
    by (rule segments_mono [OF segments_acquire [OF that]]) (auto simp: lease_kinds_def split: sum.split)
  have some: "segments {Silent, Tally} s s'" if "segments {Silent} s s' \<or> segments {Tally} s s'" for s s' :: "'a Impl"
    using that by (auto elim: segments_mono)
  show ?thesis
    using assms
    by (cases x)
      (auto intro: segments_lookup segments_touch segments_put segments_validate segments_unload segments_invalidate
        segments_evict segments_pin segments_unpin segments_explain segments_recover acquire
        some [OF disjI1, OF segments_candidates] some [OF disjI1, OF segments_roll] some [OF disjI2, OF segments_reset]
        dest: segments_build segments_load segments_release
        split: option.splits sum.splits prod.splits if_splits)
qed

end
