(* ===== verification/KC_SingleFlight.thy ===== *)
theory KC_SingleFlight
  imports KC_Samples
begin

text \<open>
  Concurrent builders (\<^verbatim>\<open>build_impl\<close> of \<^verbatim>\<open>src/cache.cpp\<close>): any number of threads, each running the
  sections of \<^verbatim>\<open>build_impl\<close>, interleaved at the points where the source holds no lock. The
  functions are those of the sequential model.
\<close>

datatype Phase =
    Idle
  | Compiling fence_ref                          \<comment> \<open>owner, the backend has not answered\<close>
  | Compiled fence_ref BuildOutcome              \<comment> \<open>owner, before \<^verbatim>\<open>set_value\<close>\<close>
  | Published fence_ref BuildOutcome             \<comment> \<open>owner, before the fence is erased\<close>
  | Retiring fence_ref BuildOutcome              \<comment> \<open>owner, before the record is inserted\<close>
  | Waiting fence_ref                            \<comment> \<open>waiter on the shared future\<close>
  | Done "ArtifactDescriptor result"

record 'p Threads =
  shared :: "'p Impl"
  phase :: "nat \<Rightarrow> Phase"

definition at_phase :: "'p Threads \<Rightarrow> 'p Impl \<Rightarrow> nat \<Rightarrow> Phase \<Rightarrow> 'p Threads" where
  "at_phase w s t p = \<lparr>shared = s, phase = (phase w)(t := p)\<rparr>"

text \<open>Thread \<open>t\<close> builds for the normalized request \<open>rq t\<close>.\<close>

inductive thread_step :: "'p Env \<Rightarrow> (nat \<Rightarrow> KernelLookupRequest) \<Rightarrow> 'p Threads \<Rightarrow> 'p Threads \<Rightarrow> bool"
  for env rq where
  claim: "phase w t = Idle \<Longrightarrow> build_claim env (rq t) (shared w) = ((True, f), s) \<Longrightarrow>
    thread_step env rq w (at_phase w s t (Compiling f))"
| join: "phase w t = Idle \<Longrightarrow> build_claim env (rq t) (shared w) = ((False, f), s) \<Longrightarrow>
    thread_step env rq w (at_phase w s t (Waiting f))"
| compile: "phase w t = Compiling f \<Longrightarrow>
    run_build env (rq t) (build_generation (fences (shared w) ! f)) (attempt (fences (shared w) ! f)) (shared w) = (oc, s) \<Longrightarrow>
    thread_step env rq w (at_phase w s t (Compiled f oc))"
| publish: "phase w t = Compiled f oc \<Longrightarrow>
    thread_step env rq w (at_phase w (build_publish f oc (shared w)) t (Published f oc))"
| retire: "phase w t = Published f oc \<Longrightarrow>
    thread_step env rq w (at_phase w (build_retire (req_key (rq t)) f (shared w)) t (Retiring f oc))"
| finish: "phase w t = Retiring f oc \<Longrightarrow>
    build_finish env (attempt (fences (shared w) ! f)) oc (shared w) = Some (res, s) \<Longrightarrow>
    thread_step env rq w (at_phase w s t (Done res))"
| wake: "phase w t = Waiting f \<Longrightarrow> waiter_result f (shared w) = Some res \<Longrightarrow>
    thread_step env rq w (at_phase w (shared w) t (Done res))"

inductive_cases thread_stepE: "thread_step env rq w w'"

definition threads_start :: "'p Impl \<Rightarrow> 'p Threads" where
  "threads_start s = \<lparr>shared = s, phase = (\<lambda>t. Idle)\<rparr>"

text \<open>No build in flight when the threads start.\<close>

definition quiet :: "'p Impl \<Rightarrow> bool" where
  "quiet s \<longleftrightarrow> index_inv s \<and> in_flight s = [] \<and> (\<forall>x \<in> set (fences s). fence_outcome x \<noteq> None)"

abbreviation interleaves ::
  "'p Env \<Rightarrow> (nat \<Rightarrow> KernelLookupRequest) \<Rightarrow> 'p Impl \<Rightarrow> 'p Threads \<Rightarrow> bool" where
  "interleaves env rq s w \<equiv> (thread_step env rq)\<^sup>*\<^sup>* (threads_start s) w"

subsection \<open>Ownership\<close>

text \<open>The fence a thread is the registered owner of.\<close>

fun owns :: "Phase \<Rightarrow> fence_ref option" where
  "owns (Compiling f) = Some f"
| "owns (Compiled f oc) = Some f"
| "owns (Published f oc) = Some f"
| "owns _ = None"

fun unset :: "Phase \<Rightarrow> fence_ref option" where
  "unset (Compiling f) = Some f"
| "unset (Compiled f oc) = Some f"
| "unset _ = None"

fun held_outcome :: "Phase \<Rightarrow> BuildOutcome option" where
  "held_outcome (Compiled f oc) = Some oc"
| "held_outcome (Published f oc) = Some oc"
| "held_outcome (Retiring f oc) = Some oc"
| "held_outcome _ = None"

definition registered :: "(nat \<Rightarrow> KernelLookupRequest) \<Rightarrow> 'p Impl \<Rightarrow> (nat \<Rightarrow> Phase) \<Rightarrow> bool" where
  "registered rq s ph \<longleftrightarrow>
     (\<forall>t f. owns (ph t) = Some f \<longrightarrow>
        map_of (in_flight s) (key_digest (req_key (rq t))) = Some f \<and> f < length (fences s)) \<and>
     (\<forall>t u f. owns (ph t) = Some f \<longrightarrow> owns (ph u) = Some f \<longrightarrow> t = u) \<and>
     (\<forall>k f. map_of (in_flight s) k = Some f \<longrightarrow>
        (\<exists>t. owns (ph t) = Some f \<and> key_digest (req_key (rq t)) = k))"

definition fenced :: "'p Impl \<Rightarrow> (nat \<Rightarrow> Phase) \<Rightarrow> bool" where
  "fenced s ph \<longleftrightarrow>
     (\<forall>t f. ph t = Waiting f \<longrightarrow> f < length (fences s)) \<and>
     (\<forall>f < length (fences s). fence_outcome (fences s ! f) = None \<longleftrightarrow> (\<exists>t. unset (ph t) = Some f))"

definition outcomes_ok :: "(nat \<Rightarrow> Phase) \<Rightarrow> bool" where
  "outcomes_ok ph \<longleftrightarrow> (\<forall>t oc. held_outcome (ph t) = Some oc \<longrightarrow> outcome_ok oc)"

definition build_inv :: "(nat \<Rightarrow> KernelLookupRequest) \<Rightarrow> 'p Threads \<Rightarrow> bool" where
  "build_inv rq w \<longleftrightarrow> index_inv (shared w) \<and> registered rq (shared w) (phase w) \<and>
     fenced (shared w) (phase w) \<and> outcomes_ok (phase w)"

lemma unset_owns: "unset p = Some f \<Longrightarrow> owns p = Some f"
  by (cases p) auto

lemma same_records_inv: "same_records s s' \<Longrightarrow> index_inv s \<Longrightarrow> index_inv s'"
  using same_records_evolves by (auto simp: evolves_def)

lemma registeredD:
  "registered rq s ph \<Longrightarrow> owns (ph t) = Some f \<Longrightarrow>
    map_of (in_flight s) (key_digest (req_key (rq t))) = Some f \<and> f < length (fences s)"
  "registered rq s ph \<Longrightarrow> owns (ph t) = Some f \<Longrightarrow> owns (ph u) = Some f \<Longrightarrow> t = u"
  "registered rq s ph \<Longrightarrow> map_of (in_flight s) k = Some f \<Longrightarrow>
    \<exists>t. owns (ph t) = Some f \<and> key_digest (req_key (rq t)) = k"
  unfolding registered_def by blast+

text \<open>A step that touches neither the table nor the fences.\<close>

lemma registered_frame:
  "registered rq s ph \<Longrightarrow> in_flight s' = in_flight s \<Longrightarrow> length (fences s') = length (fences s) \<Longrightarrow>
    owns p = owns (ph t) \<Longrightarrow> registered rq s' (ph(t := p))"
proof -
  assume a: "registered rq s ph" "in_flight s' = in_flight s" "length (fences s') = length (fences s)" "owns p = owns (ph t)"
  then have "owns ((ph(t := p)) u) = owns (ph u)" for u by simp
  with a show ?thesis unfolding registered_def by presburger
qed

lemma fenced_frame:
  "fenced s ph \<Longrightarrow> fences s' = fences s \<Longrightarrow> unset p = unset (ph t) \<Longrightarrow>
    (\<forall>f. p = Waiting f \<longrightarrow> f < length (fences s)) \<Longrightarrow> fenced s' (ph(t := p))"
proof -
  assume a: "fenced s ph" "fences s' = fences s" "unset p = unset (ph t)" "\<forall>f. p = Waiting f \<longrightarrow> f < length (fences s)"
  then have "unset ((ph(t := p)) u) = unset (ph u)" for u by simp
  with a show ?thesis unfolding fenced_def by (auto split: if_splits)
qed

lemma outcomes_ok_upd:
  "outcomes_ok ph \<Longrightarrow> (\<forall>oc. held_outcome p = Some oc \<longrightarrow> outcome_ok oc) \<Longrightarrow> outcomes_ok (ph(t := p))"
  by (simp add: outcomes_ok_def)

lemma outcomes_okD: "outcomes_ok ph \<Longrightarrow> held_outcome (ph t) = Some oc \<Longrightarrow> outcome_ok oc"
  by (simp add: outcomes_ok_def)

lemma registered_claim:
  assumes reg: "registered rq s ph" and idle: "ph t = Idle"
    and claim: "build_claim env (rq t) s = ((True, f), s')"
  shows "registered rq s' (ph(t := Compiling f))"
proof -
  note c = claim_owner [OF claim]
  let ?k = "\<lambda>t. key_digest (req_key (rq t))"
  have old: "g < length (fences s) \<and> map_of (in_flight s) (?k u) = Some g" if "owns (ph u) = Some g" for u g
    using registeredD(1) [OF reg that] by simp
  then have diff: "?k u \<noteq> ?k t" if "owns (ph u) = Some g" for u g
    using c that by (metis option.distinct(1))
  have "\<exists>u. owns ((ph(t := Compiling f)) u) = Some g \<and> ?k u = k" if "map_of (in_flight s') k = Some g" for k g
  proof (cases "k = ?k t")
    case True
    then show ?thesis using that c by (intro exI [of _ t]) simp
  next
    case False
    then have "map_of (in_flight s) k = Some g" using that c by auto
    from registeredD(3) [OF reg this] obtain u where u: "owns (ph u) = Some g" "?k u = k" by blast
    then have "u \<noteq> t" using idle by (metis option.distinct(1) owns.simps(4))
    with u show ?thesis by (intro exI [of _ u]) simp
  qed
  then show ?thesis
    using c old diff registeredD(2) [OF reg] unfolding registered_def by (fastforce split: if_splits)
qed

lemma fenced_claim:
  assumes "fenced s ph" and reg: "registered rq s ph" and idle: "ph t = Idle"
    and claim: "build_claim env (rq t) s = ((True, f), s')"
  shows "fenced s' (ph(t := Compiling f))"
proof -
  from claim_owner [OF claim]
  obtain x where x: "fences s' = fences s @ [x]" "fence_outcome x = None" "f = length (fences s)" by auto
  have lt: "g < f" if "unset (ph u) = Some g" for u g
    using registeredD(1) [OF reg unset_owns [OF that]] x(3) by simp
  have "(\<exists>u. unset ((ph(t := Compiling f)) u) = Some g) \<longleftrightarrow> g = f \<or> (\<exists>u. unset (ph u) = Some g)" for g
  proof
    assume "g = f \<or> (\<exists>u. unset (ph u) = Some g)"
    then obtain u where "g = f \<or> unset (ph u) = Some g \<and> u \<noteq> t"
      using idle by (metis option.distinct(1) unset.simps(3))
    then show "\<exists>u. unset ((ph(t := Compiling f)) u) = Some g"
      by (cases "g = f") (auto intro: exI [of _ t] exI [of _ u])
  qed (auto split: if_splits)
  then show ?thesis
    using assms(1) x lt unfolding fenced_def by (auto simp: nth_append less_Suc_eq split: if_splits)
qed

lemma fenced_publish:
  assumes "fenced s ph" and reg: "registered rq s ph" and ph: "ph t = Compiled f oc"
  shows "fenced (build_publish f oc s) (ph(t := Published f oc))"
proof -
  have own: "owns (ph t) = Some f" using ph by simp
  have f: "f < length (fences s)" using registeredD(1) [OF reg own] by simp
  have only: "u = t" if "unset (ph u) = Some f" for u
    using registeredD(2) [OF reg unset_owns [OF that] own] .
  have "(\<exists>u. unset ((ph(t := Published f oc)) u) = Some g) \<longleftrightarrow> g \<noteq> f \<and> (\<exists>u. unset (ph u) = Some g)" for g
  proof
    assume "\<exists>u. unset ((ph(t := Published f oc)) u) = Some g"
    then show "g \<noteq> f \<and> (\<exists>u. unset (ph u) = Some g)" using only by (auto split: if_splits)
  next
    assume g: "g \<noteq> f \<and> (\<exists>u. unset (ph u) = Some g)"
    then obtain u where "unset (ph u) = Some g" "u \<noteq> t" using ph by (metis option.inject unset.simps(2))
    then show "\<exists>u. unset ((ph(t := Published f oc)) u) = Some g" by (intro exI [of _ u]) simp
  qed
  then show ?thesis
    using assms(1) f unfolding fenced_def
    by (auto simp: build_publish_def Let_def nth_list_update split: if_splits)
qed

lemma registered_retire:
  assumes reg: "registered rq s ph" and ph: "ph t = Published f oc"
  shows "registered rq (build_retire (req_key (rq t)) f s) (ph(t := Retiring f oc))"
proof -
  let ?k = "\<lambda>t. key_digest (req_key (rq t))"
  let ?s = "build_retire (req_key (rq t)) f s"
  have own: "owns (ph t) = Some f" using ph by simp
  have tab: "map_of (in_flight ?s) k = (if k = ?k t then None else map_of (in_flight s) k)" "fences ?s = fences s" for k
    using registeredD(1) [OF reg own] by (auto simp: build_retire_def delete_conv')
  have diff: "?k u \<noteq> ?k t" if "owns (ph u) = Some g" "u \<noteq> t" for u g
    using registeredD(1) [OF reg own] registeredD(1) [OF reg that(1)] registeredD(2) [OF reg that(1)] own that(2)
    by fastforce
  have "\<exists>u. owns ((ph(t := Retiring f oc)) u) = Some g \<and> ?k u = k" if "map_of (in_flight ?s) k = Some g" for k g
  proof -
    from that have "k \<noteq> ?k t" "map_of (in_flight s) k = Some g" using tab by (auto split: if_splits)
    then obtain u where "owns (ph u) = Some g" "?k u = k" "u \<noteq> t" using registeredD(3) [OF reg] by fastforce
    then show ?thesis by (intro exI [of _ u]) simp
  qed
  moreover have "owns (ph u) = None" if "u \<noteq> t" "?k u = ?k t" for u
    using diff [of u] that by (cases "owns (ph u)") auto
  ultimately show ?thesis
    using tab registeredD(1,2) [OF reg] unfolding registered_def by (auto split: if_splits)
qed

lemma finish_fences:
  "build_finish env att oc s = Some (res, s') \<Longrightarrow> in_flight s' = in_flight s \<and> fences s' = fences s"
  by (auto simp: build_finish_def build_insert_def build_persist_def now_ns_def Let_def
      split: if_splits option.splits prod.splits sum.splits bool.splits)


lemma build_inv_step:
  assumes step: "thread_step env rq w w'" and inv: "build_inv rq w"
  shows "build_inv rq w'"
proof -
  have i: "index_inv (shared w)" and r: "registered rq (shared w) (phase w)"
    and f: "fenced (shared w) (phase w)" and o: "outcomes_ok (phase w)"
    using inv by (simp_all add: build_inv_def)
  from step show ?thesis
  proof (cases rule: thread_step.cases)
    case (claim t g s)
    then show ?thesis
      using registered_claim [OF r] fenced_claim [OF f r] claim_frame [OF claim(3)] same_records_inv [OF _ i] o
      by (auto simp: build_inv_def at_phase_def intro!: outcomes_ok_upd)
  next
    case (join t g s)
    have "g < length (fences (shared w))"
      using claim_waiter [OF join(3)] registeredD(1,3) [OF r] by blast
    then show ?thesis
      using join claim_frame [OF join(3)] claim_waiter [OF join(3)] same_records_inv [OF _ i] o
      by (auto simp: build_inv_def at_phase_def same_outer_def
          intro!: outcomes_ok_upd registered_frame [OF r] fenced_frame [OF f])
  next
    case (compile t g oc s)
    then show ?thesis
      using run_build_frame [OF compile(3)] run_build_outcome [OF compile(3)] same_records_inv [OF _ i] o
      by (auto simp: build_inv_def at_phase_def same_outer_def
          intro!: outcomes_ok_upd registered_frame [OF r] fenced_frame [OF f])
  next
    case (publish t g oc)
    have "registered rq (build_publish g oc (shared w)) ((phase w)(t := Published g oc))"
      using publish by (intro registered_frame [OF r]) (simp_all add: build_publish_def Let_def)
    moreover have "outcome_ok oc" using outcomes_okD [OF o, of t oc] publish by simp
    ultimately show ?thesis
      using publish fenced_publish [OF f r] same_records_inv [OF publish_frame i] o
      by (auto simp: build_inv_def at_phase_def intro!: outcomes_ok_upd)
  next
    case (retire t g oc)
    have "outcome_ok oc" using outcomes_okD [OF o, of t oc] retire by simp
    then show ?thesis
      using retire registered_retire [OF r] same_records_inv [OF retire_frame i] o
      by (auto simp: build_inv_def at_phase_def build_retire_def intro!: outcomes_ok_upd fenced_frame [OF f])
  next
    case (finish t g oc res s)
    have "outcome_ok oc" using outcomes_okD [OF o, of t oc] finish by simp
    then have "index_inv s" using evolves_finish [OF finish(3)] i by (simp add: evolves_def)
    then show ?thesis
      using finish finish_fences [OF finish(3)] o
      by (auto simp: build_inv_def at_phase_def
          intro!: outcomes_ok_upd registered_frame [OF r] fenced_frame [OF f])
  next
    case (wake t g res)
    then show ?thesis
      using i o by (auto simp: build_inv_def at_phase_def
          intro!: outcomes_ok_upd registered_frame [OF r] fenced_frame [OF f])
  qed
qed

lemma build_inv_start: "quiet s \<Longrightarrow> build_inv rq (threads_start s)"
  by (auto simp: quiet_def build_inv_def threads_start_def registered_def fenced_def outcomes_ok_def)

lemma interleaves_inv: "interleaves env rq s w \<Longrightarrow> quiet s \<Longrightarrow> build_inv rq w"
  by (induction rule: rtranclp_induct) (auto intro: build_inv_start build_inv_step)


subsection \<open>A build that succeeds\<close>

text \<open>A backend that is complete for a key, builds every request for it and passes what it built.\<close>

definition reliable_backend :: "KernelCompatibilityKey \<Rightarrow> 'p Impl \<Rightarrow> bool" where
  "reliable_backend k s \<longleftrightarrow>
     (\<exists>be bu va ld. complete_backend (find_backend k s) = Some (be, bu, va, ld) \<and>
        (\<forall>br. br_key br = k \<longrightarrow> (\<exists>res. build_fn bu br = Inr res \<and>
          (\<forall>d. \<exists>vd. va k (bres_bytes res) d = Inr vd \<and> all_passed vd))))"

lemma run_build_succeeds:
  assumes "reliable_backend (finalized (req_key q)) s"
  shows "succeeded (fst (run_build env q gen att s))"
proof -
  let ?k = "finalized (req_key q)" and ?s = "s\<lparr>ticks := Suc (ticks s)\<rparr>"
  from assms obtain be bu va ld where b: "complete_backend (find_backend ?k s) = Some (be, bu, va, ld)"
    and ok: "\<forall>br. br_key br = ?k \<longrightarrow> (\<exists>res. build_fn bu br = Inr res \<and>
      (\<forall>d. \<exists>vd. va ?k (bres_bytes res) d = Inr vd \<and> all_passed vd))"
    by (auto simp: reliable_backend_def)
  let ?br = "make_build_request ?s (q\<lparr>req_key := ?k\<rparr>) be"
  have "br_key ?br = ?k" by (simp add: make_build_request_def Let_def)
  then obtain res where res: "build_fn bu ?br = Inr res"
    "\<forall>d. \<exists>vd. va ?k (bres_bytes res) d = Inr vd \<and> all_passed vd" using ok by blast
  then obtain vd where "va ?k (bres_bytes res) (req_device q) = Inr vd" "all_passed vd" by blast
  moreover have "complete_backend (find_backend ?k ?s) = Some (be, bu, va, ld)"
    using b by (simp add: find_backend_ticks)
  ultimately show ?thesis using res(1) by (auto simp: run_build_def Let_def now_ns_def)
qed

lemma reliable_frame: "backends s' = backends s \<Longrightarrow> reliable_backend k s' = reliable_backend k s"
proof -
  assume "backends s' = backends s"
  then have "find_backend k s' = find_backend k s" unfolding find_backend_def by presburger
  then show ?thesis by (simp only: reliable_backend_def)
qed

text \<open>Two threads with the same request: the first claims, the second joins it.\<close>

lemma claim_then_join:
  assumes "in_flight s = []"
  obtains s1 s2 f where "build_claim env q s = ((True, f), s1)" "build_claim env q s1 = ((False, f), s2)"
    "same_records s s2" "backends s2 = backends s" "f < length (fences s2)"
proof -
  obtain own f s1 where c: "build_claim env q s = ((own, f), s1)" by (metis surj_pair)
  then have own: own using assms by (auto simp: build_claim_def Let_def now_ns_def rand_def)
  obtain own' g s2 where j: "build_claim env q s1 = ((own', g), s2)" by (metis surj_pair)
  have "map_of (in_flight s1) (key_digest (req_key q)) = Some f"
    using claim_owner [of env q s f s1] c own by auto
  then have jo: "\<not> own'" "g = f" using j by (auto simp: build_claim_def Let_def split: option.splits)
  have "f < length (fences s2)"
    using claim_owner [of env q s f s1] claim_waiter [of env q s1 f s2] c j own jo by (auto simp: same_outer_def)
  then show thesis
    using that [of f s1 s2] c j own jo claim_frame [OF c] claim_frame [OF j] by (auto simp: same_records_def)
qed

lemma waiter_race_run:
  assumes "quiet s" and "reliable_backend (finalized (req_key q)) s" and "\<And>i. find_rec i s = None"
  shows "\<exists>w f oc. interleaves env (\<lambda>t. q) s w \<and> phase w 0 = Published f oc \<and> succeeded oc \<and> phase w 1 = Waiting f \<and>
    waiter_result f (shared w) = Some (fail EC_NotFound ''built artifact not in index'')"
proof -
  have "in_flight s = []" using assms(1) by (simp add: quiet_def)
  then obtain s1 s2 f where c: "build_claim env q s = ((True, f), s1)" and j: "build_claim env q s1 = ((False, f), s2)"
    and s2: "same_records s s2" "backends s2 = backends s" "f < length (fences s2)"
    by (rule claim_then_join)
  obtain oc s3 where b: "run_build env q (build_generation (fences s2 ! f)) (attempt (fences s2 ! f)) s2 = (oc, s3)"
    by fastforce
  have ok: "succeeded oc"
    using run_build_succeeds [of q s2] assms(2) reliable_frame [OF s2(2)] b by (metis fst_conv)
  define w where "w p p' x = \<lparr>shared = x, phase = (\<lambda>t. Idle)(0 := p, 1 := p')\<rparr>" for p p' and x :: "'a Impl"
  let ?s4 = "build_publish f oc s3"
  have up: "at_phase (w p p' x) y 0 p2 = w p2 p' y" "at_phase (w p p' x) y 1 p2 = w p p2 y" for p p' x y p2
    by (simp_all add: w_def at_phase_def fun_upd_twist)
  have start: "threads_start s = w Idle Idle s" by (simp add: w_def threads_start_def fun_eq_iff)
  have ph: "phase (w p p' x) 0 = p" "phase (w p p' x) 1 = p'" "shared (w p p' x) = x" for p p' x
    by (simp_all add: w_def)
  have st1: "thread_step env (\<lambda>t. q) (threads_start s) (w (Compiling f) Idle s1)"
    unfolding start using thread_step.claim [of "w Idle Idle s" 0 env "\<lambda>t. q" f s1] c by (simp add: ph up)
  have st2: "thread_step env (\<lambda>t. q) (w (Compiling f) Idle s1) (w (Compiling f) (Waiting f) s2)"
    using thread_step.join [of "w (Compiling f) Idle s1" 1 env "\<lambda>t. q" f s2] j
    by (simp add: ph [unfolded One_nat_def] up [unfolded One_nat_def])
  have st3: "thread_step env (\<lambda>t. q) (w (Compiling f) (Waiting f) s2) (w (Compiled f oc) (Waiting f) s3)"
    using thread_step.compile [of "w (Compiling f) (Waiting f) s2" 0 f env "\<lambda>t. q" oc s3] b by (simp add: ph up)
  have st4: "thread_step env (\<lambda>t. q) (w (Compiled f oc) (Waiting f) s3) (w (Published f oc) (Waiting f) ?s4)"
    using thread_step.publish [of "w (Compiled f oc) (Waiting f) s3" 0 f oc env "\<lambda>t. q"] by (simp add: ph up)
  from st1 st2 st3 st4 have run: "interleaves env (\<lambda>t. q) s (w (Published f oc) (Waiting f) ?s4)"
    by (meson rtranclp.rtrancl_into_rtrancl rtranclp.rtrancl_refl)
  have "same_records s ?s4"
    using s2(1) run_build_frame [OF b] publish_frame [of s3 f oc] by (simp add: same_records_def)
  then have "find_rec (o_id oc) ?s4 = None" using assms(3) same_records_find by metis
  moreover have "fence_outcome (fences ?s4 ! f) = Some oc"
    using s2(3) run_build_frame [OF b] by (simp add: build_publish_def Let_def same_outer_def)
  ultimately have "waiter_result f ?s4 = Some (fail EC_NotFound ''built artifact not in index'')"
    using ok by (simp add: waiter_result_def)
  with run ok show ?thesis by (metis ph)
qed

text \<open>Alone, such a build returns its artifact, whether or not a store takes it.\<close>

lemma build_returns:
  assumes "reliable_backend (finalized (req_key q)) s"
    and "map_of (in_flight s) (key_digest (finalized (req_key q))) = None"
    and "\<forall>p. persistence_open s \<and> persistence s = Some p \<longrightarrow> (\<forall>sa. \<exists>p'. ps_put (store env) p sa = (ok, p'))"
  shows "\<exists>d s'. build_impl env q s = Some ((Inr d, True), s')"
proof -
  let ?rq = "default_namespace s (q\<lparr>req_key := finalized (req_key q)\<rparr>)"
  obtain f s1 where c: "build_claim env ?rq s = ((True, f), s1)"
    using claims_free [of s ?rq env] assms(2) by auto
  let ?att = "attempt (fences s1 ! f)" and ?gen = "build_generation (fences s1 ! f)"
  obtain oc s2 where b: "run_build env ?rq ?gen ?att s1 = (oc, s2)" by fastforce
  let ?t = "build_retire (finalized (req_key q)) f (build_publish f oc s2)"
  have ok: "succeeded oc"
    using run_build_succeeds [of ?rq s1 env ?gen ?att] reliable_frame [of s1 s] claim_frame [OF c] assms(1) b by simp
  have t: "persistence_open ?t = persistence_open s" "persistence ?t = persistence s"
    using claim_frame [OF c] run_build_frame [OF b]
    by (auto simp: build_retire_def build_publish_def Let_def same_outer_def)
  let ?t1 = "record_event env ''build'' (''succeeded attempt='' @ str ?att @ '' id='' @ str (o_id oc)) ?t"
  obtain nw u where u: "build_insert env oc ?t1 = (nw, u)" by fastforce
  have pu: "persistence_open u = persistence_open s" "persistence u = persistence s"
    using u t by (auto simp: build_insert_def now_ns_def split: option.splits)
  have "build_persist env oc u \<noteq> None"
  proof (cases "persistence_open s \<and> persistence s \<noteq> None")
    case True
    then obtain p where p: "persistence s = Some p" "persistence_open s" by blast
    obtain p' where "ps_put (store env) p (stored_of oc (clk env (ticks u))) = (ok, p')" using assms(3) p by blast
    with p pu show ?thesis by (simp add: build_persist_def now_ns_def Let_def)
  qed (use pu in \<open>auto simp: build_persist_def split: option.splits bool.splits\<close>)
  then obtain v where "build_persist env oc u = Some v" by blast
  then have "\<exists>d s'. build_finish env ?att oc ?t = Some (Inr d, s')"
    using ok u by (auto simp: build_finish_def Let_def)
  then show ?thesis by (auto simp: build_impl_def Let_def c b)
qed

subsection \<open>Properties\<close>

lemma quiet_sample: "quiet sample_cache"
  by (simp add: quiet_def) (simp add: sample_cache_def Impl_new_def)

lemma reliable_sample: "reliable_backend k sample_cache"
  by (auto simp: reliable_backend_def complete_backend_sample) (auto simp: text_backend_def)

text \<open>
  C9. Single flight: in every interleaving of any number of builders, at most one of the threads
  that want the same kernel is compiling it or publishing it; the others wait on its fence.
\<close>

theorem single_flight:
  assumes "quiet s" and "interleaves env rq s w" and "t \<noteq> u"
    and "key_eq (req_key (rq t)) (req_key (rq u))" and "owns (phase w t) = Some f"
  shows "owns (phase w u) = None"
proof (rule ccontr)
  assume "owns (phase w u) \<noteq> None"
  then obtain g where g: "owns (phase w u) = Some g" by blast
  have r: "registered rq (shared w) (phase w)"
    using interleaves_inv [OF assms(2,1)] by (simp add: build_inv_def)
  have "map_of (in_flight (shared w)) (key_digest (req_key (rq t))) = Some f"
    "map_of (in_flight (shared w)) (key_digest (req_key (rq u))) = Some g"
    using r assms(5) g by (auto simp: registered_def)
  then have "f = g" using assms(4) by (simp add: key_eq_def key_digest_def)
  then show False using r assms(3,5) g by (auto simp: registered_def)
qed

text \<open>
  C28. Progress: a waiter whose future is not ready waits for a thread that is still compiling, or
  about to publish, the very fence it waits on; and a thread in either of these states can always
  take its next step, so no waiter is left behind.
\<close>

theorem waiter_has_owner:
  assumes "quiet s" and "interleaves env rq s w" and "phase w t = Waiting f" and "waiter_result f (shared w) = None"
  shows "\<exists>u w'. unset (phase w u) = Some f \<and> thread_step env rq w w' \<and> phase w' u \<noteq> phase w u"
proof -
  have "fenced (shared w) (phase w)"
    using interleaves_inv [OF assms(2,1)] by (simp add: build_inv_def)
  moreover have "fence_outcome (fences (shared w) ! f) = None"
    using assms(4) by (simp add: waiter_result_def split: option.splits)
  ultimately obtain u where u: "unset (phase w u) = Some f"
    using assms(3) by (auto simp: fenced_def)
  then consider "phase w u = Compiling f" | oc where "phase w u = Compiled f oc"
    by (cases "phase w u") auto
  then show ?thesis
  proof cases
    case 1
    obtain oc s' where "run_build env (rq u) (build_generation (fences (shared w) ! f))
      (attempt (fences (shared w) ! f)) (shared w) = (oc, s')" by fastforce
    from thread_step.compile [where rq = rq, OF 1 this] 1 u show ?thesis by (fastforce simp: at_phase_def)
  next
    case (2 oc)
    from thread_step.publish [OF 2] 2 u show ?thesis by (fastforce simp: at_phase_def)
  qed
qed

text \<open>
  The publication race: the owner sets the promise before it inserts the record, so with a
  backend that succeeds there is an interleaving in which a waiter of a successful build is told
  that the built artifact is not in the index.
\<close>

theorem waiter_race:
  assumes "quiet s" and "reliable_backend (finalized (req_key q)) s" and "\<forall>i. find_rec i s = None"
  shows "\<exists>w f oc. interleaves env (\<lambda>t. q) s w \<and> phase w 0 = Published f oc \<and> succeeded oc \<and> phase w 1 = Waiting f \<and>
    waiter_result f (shared w) = Some (fail EC_NotFound ''built artifact not in index'')"
  using assms by (intro waiter_race_run) auto

theorem waiter_race_witness:
  "\<exists>w f oc. interleaves sample_env (\<lambda>t. sample_request) sample_cache w \<and> phase w 0 = Published f oc \<and>
    succeeded oc \<and> phase w 1 = Waiting f \<and>
    waiter_result f (shared w) = Some (fail EC_NotFound ''built artifact not in index'')"
  by (rule waiter_race [OF quiet_sample reliable_sample]) simp

text \<open>The first two steps of two threads with one request: thread 0 claims, thread 1 joins.\<close>

lemma two_builders:
  "\<exists>w f. interleaves sample_env (\<lambda>t. sample_request) sample_cache w \<and> phase w 0 = Compiling f \<and>
    phase w 1 = Waiting f \<and> waiter_result f (shared w) = None"
proof -
  have "in_flight sample_cache = []" using quiet_sample by (simp add: quiet_def)
  then obtain s1 s2 f where c: "build_claim sample_env sample_request sample_cache = ((True, f), s1)"
    and j: "build_claim sample_env sample_request s1 = ((False, f), s2)" by (rule claim_then_join)
  let ?w1 = "at_phase (threads_start sample_cache) s1 0 (Compiling f)"
  let ?w2 = "at_phase ?w1 s2 1 (Waiting f)"
  have "thread_step sample_env (\<lambda>t. sample_request) (threads_start sample_cache) ?w1"
    by (rule thread_step.claim) (simp_all add: threads_start_def c)
  moreover have "thread_step sample_env (\<lambda>t. sample_request) ?w1 ?w2"
    by (rule thread_step.join) (simp_all add: threads_start_def at_phase_def j)
  ultimately have "interleaves sample_env (\<lambda>t. sample_request) sample_cache ?w2"
    by (meson rtranclp.rtrancl_into_rtrancl rtranclp.rtrancl_refl)
  moreover have "waiter_result f s2 = None"
    using claim_owner [OF c] claim_waiter [OF j] by (auto simp: waiter_result_def same_outer_def nth_append)
  ultimately show ?thesis by (fastforce simp: at_phase_def threads_start_def)
qed

theorem single_flight_witness:
  "\<exists>w f. interleaves sample_env (\<lambda>t. sample_request) sample_cache w \<and> owns (phase w 0) = Some f \<and>
    owns (phase w 1) = None"
proof -
  obtain w f where w: "interleaves sample_env (\<lambda>t. sample_request) sample_cache w" "phase w 0 = Compiling f"
    using two_builders by blast
  from w(2) have own: "owns (phase w 0) = Some f" by simp
  have "owns (phase w 1) = None"
    by (rule single_flight [OF quiet_sample w(1) _ _ own]) (simp_all add: key_eq_def)
  with w own show ?thesis by blast
qed

theorem waiter_has_owner_witness:
  "\<exists>w w' f u. interleaves sample_env (\<lambda>t. sample_request) sample_cache w \<and> phase w 1 = Waiting f \<and>
    unset (phase w u) = Some f \<and> thread_step sample_env (\<lambda>t. sample_request) w w' \<and> phase w' u \<noteq> phase w u"
  using two_builders waiter_has_owner [OF quiet_sample] by meson

end
