(* ===== verification/KC_Demo.thy ===== *)
theory KC_Demo
  imports KC_System KC_SingleFlight
begin

text \<open>
  A concrete run of the whole system, with an in-memory store and the sample backend: the states on
  which the properties of the cache are applied.
\<close>

definition demo_start :: "StoredArtifact list System" where
  "demo_start = fresh sample_env (\<lambda>root. Inr []) sample_config"

definition demo :: "StoredArtifact list System" where
  "demo = \<lparr>cache = snd (put sample_env sample_desc [1, 2, 3] (snd (register_backend text_backend (cache demo_start)))),
     leases = []\<rparr>"

definition demo_record :: ArtifactRecord where
  "demo_record = make_record sample_desc [1, 2, 3] 1"

text \<open>A request for the stored key that asks for no particular residency.\<close>

definition demo_request :: KernelLookupRequest where
  "demo_request = KernelLookupRequest_new\<lparr>req_key := derive (canonicalize matmul_key), desired_tier := RT_None\<rparr>"

lemma demo_run: "run_ops sample_env [OpRegister text_backend, OpPut sample_desc [1, 2, 3]] demo_start = Some demo"
  by (simp add: demo_def demo_start_def fresh_def)

lemma demo_reachable: "reachable sample_env demo"
  using demo_run run_ops_reachable unfolding demo_start_def by blast

lemma demo_index_inv: "index_inv (cache demo)"
  using reachable_index_inv [OF demo_reachable] .

lemma demo_key_final: "finalize (derive (canonicalize matmul_key)) = (True, derive (canonicalize matmul_key))"
  using finalize_idem [OF sample_keys_final(1)] .

lemma sample_id_nonzero [simp]: "sample_id \<noteq> default_id"
  by (simp add: sample_id_def default_id_def mk_id_def)

lemma sample_desc_sel [simp]:
  "ad_id sample_desc = sample_id" "ad_generation sample_desc = 1"
  "ad_key sample_desc = derive (canonicalize matmul_key)" "ad_validation sample_desc = passed"
  by (simp_all add: sample_desc_def)

lemma demo_record_sel [simp]:
  "rec_id demo_record = sample_id" "rec_key demo_record = derive (canonicalize matmul_key)"
  "lease_count demo_record = 0" "pin_count demo_record = 0" "rec_state demo_record = AS_Valid"
  "invalidated demo_record = False" "corrupt demo_record = False" "validated demo_record"
  "rec_tier demo_record = RT_MetadataOnly" "rec_generation demo_record = 1"
  by (simp_all add: demo_record_def make_record_def)

lemma demo_record_usable [simp]: "usable demo_record" "\<not> held demo_record"
  by (simp_all add: usable_def is_eligible_def held_def)

lemma demo_find: "find_rec i (cache demo) = (if i = sample_id then Some demo_record else None)"
  by (simp add: demo_def demo_start_def fresh_def KernelCache_new_def register_backend_def text_backend_def
      put_def now_ns_def record_event_def Let_def sample_config_def KernelCacheConfig_new_def Impl_new_def
      find_rec_insert make_record_def demo_record_def sample_env_def)
    (simp add: find_rec_def)

lemma demo_request_sel [simp]:
  "req_key demo_request = derive (canonicalize matmul_key)" "desired_tier demo_request = RT_None"
  "allow_miss_build demo_request = False" "req_pin demo_request = False"
  by (simp_all add: demo_request_def KernelLookupRequest_new_def)

lemma demo_structure [simp]: "structure_ok (derive (canonicalize matmul_key))"
  by (simp add: sample_keys_ok)

lemma demo_finalized [simp]: "finalized (derive (canonicalize matmul_key)) = derive (canonicalize matmul_key)"
  using demo_key_final by simp

lemma demo_candidate: "demo_record \<in> candidate_records (derive (canonicalize matmul_key)) (cache demo)"
  by (rule candidate_exactI [OF demo_index_inv]) (simp_all add: demo_find)

lemma demo_acceptable: "acceptable demo_request demo_record"
  using evaluate_same [of "derive (canonicalize matmul_key)" "derive (canonicalize matmul_key)"]
  by (simp add: acceptable_def)

lemma demo_lookup:
  "\<exists>lr s. lookup_impl sample_env demo_request (cache demo) = (Inr lr, s) \<and> is_hit lr \<and>
    lr_artifact lr = Some sample_id \<and> same_records (cache demo) s"
proof -
  obtain res s where l: "lookup_impl sample_env demo_request (cache demo) = (res, s)" by fastforce
  have "rec_id r = sample_id" if "r \<in> candidate_records k (cache demo)" for r k
    using that by (auto simp: candidate_records_def demo_find split: if_splits)
  then show ?thesis
    using lookup_cases [OF demo_index_inv _ l] lookup_frame [OF l] demo_candidate demo_acceptable l
    by (auto simp: sample_keys_ok)
qed

lemma demo_request_final [simp]: "demo_request\<lparr>req_key := derive (canonicalize matmul_key)\<rparr> = demo_request"
  by (simp add: demo_request_def)

lemma demo_acquire:
  "\<exists>s st t. acquire_impl sample_env demo_request (cache demo) = Some (Inr (Some st), s) \<and> ls_rec st = sample_id \<and>
    \<not> released st \<and> find_rec sample_id s = Some (grant_update t False demo_record)"
proof -
  obtain lr s where l: "lookup_impl sample_env demo_request (cache demo) = (Inr lr, s)" "is_hit lr"
    "lr_artifact lr = Some sample_id" "same_records (cache demo) s"
    using demo_lookup by blast
  have "find_rec sample_id s = Some demo_record" using same_records_find [OF l(4)] by (simp add: demo_find)
  then show ?thesis
    using l by (auto simp: acquire_impl_def promote_and_grant_def promote_to_tier_def grant_lease_def
        lease_eligible_usable now_ns_def Let_def)
qed

text \<open>The system after that acquire, and after the artifact was invalidated under the lease.\<close>

lemma demo_leased:
  "\<exists>c st t. sys_step sample_env demo c \<and> leases c = [Some st] \<and> ls_rec st = sample_id \<and> \<not> released st \<and>
    find_rec sample_id (cache c) = Some (grant_update t False demo_record)"
proof -
  obtain s st t where a: "acquire_impl sample_env demo_request (cache demo) = Some (Inr (Some st), s)"
    "ls_rec st = sample_id" "\<not> released st" "find_rec sample_id s = Some (grant_update t False demo_record)"
    using demo_acquire by blast
  then have "exec sample_env (OpAcquire demo_request) demo = Some (demo\<lparr>cache := s, leases := [Some st]\<rparr>)"
    by (simp add: demo_def)
  from sys_step.call [OF this] a show ?thesis by fastforce
qed

text \<open>Invalidating everything, on its own and under the lease.\<close>

lemma invalidate_everything:
  assumes "reachable env c" and "find_rec i (cache c) = Some r"
  shows "\<exists>c' r'. sys_step env c c' \<and> leases c' = leases c \<and> find_rec i (cache c') = Some r' \<and> invalidated r' \<and> \<not> usable r'"
proof -
  let ?q = "InvalidationRequest_new\<lparr>target := IT_All\<rparr>"
  obtain res s where v: "invalidate_impl env ?q (cache c) = (res, s)" by fastforce
  have "find_rec i s = Some (if invalidated r then r else invalidate_update r)"
    using invalidate_find [OF reachable_index_inv [OF assms(1)] v, of i] assms(2) by (simp add: invalidation_match_def)
  moreover have "sys_step env c (c\<lparr>cache := s\<rparr>)" using v by (intro sys_step.call [of _ "OpInvalidate ?q"]) simp
  ultimately show ?thesis by (fastforce simp: usable_def)
qed

lemma demo_invalidated: "\<exists>c r. sys_step sample_env demo c \<and> find_rec sample_id (cache c) = Some r \<and> \<not> usable r"
  using invalidate_everything [OF demo_reachable, of sample_id demo_record] by (auto simp: demo_find)

lemma demo_leased_invalidated:
  "\<exists>c st r. reachable sample_env c \<and> leases c = [Some st] \<and> ls_rec st = sample_id \<and> \<not> released st \<and>
    find_rec sample_id (cache c) = Some r \<and> invalidated r"
proof -
  obtain c st t where c: "sys_step sample_env demo c" "leases c = [Some st]" "ls_rec st = sample_id" "\<not> released st"
    "find_rec sample_id (cache c) = Some (grant_update t False demo_record)"
    using demo_leased by blast
  have r: "reachable sample_env c" using demo_reachable c(1) by (rule reachable.step)
  from invalidate_everything [OF r c(5)] c r show ?thesis by (metis reachable.step)
qed

end
