(* ===== verification/KC_Modules.thy ===== *)
theory KC_Modules
  imports KC_Segments KC_Demo "HOL-Library.Multiset"
begin

text \<open>
  Invariants of the whole cache that hold segment by segment: the lookup counters add up, and every
  device module that a loader has handed out is either unloaded again, by the same backend and once,
  or still held by the record it was loaded for.
\<close>

lemma segment_evolves: "segment k s s' \<Longrightarrow> evolves s s'"
  by (induction rule: segment.induct) (auto intro!: evolves_intros evolves_insert simp: same_records_evolves)

lemma segment_index_inv: "segment k s s' \<Longrightarrow> index_inv s \<Longrightarrow> index_inv s'"
  using segment_evolves by (auto simp: evolves_def)

lemma segment_backends: "segment k s s' \<Longrightarrow> backends s' = backends s"
  by (induction rule: segment.induct) simp_all

subsection \<open>Lookup counters\<close>

lemma stats_bump [simp]: "stats (bump f s) = f (stats s)"
  by (simp add: bump_def)

lemma segment_tallied: "segment k s s' \<Longrightarrow> tallied (stats s) \<Longrightarrow> tallied (stats s')"
  by (induction rule: segment.induct) simp_all

lemma exec_tallied:
  assumes "exec env x c = Some c'" and "tallied (stats (cache c))"
  shows "tallied (stats (cache c'))"
proof (cases "registers x")
  case True
  then show ?thesis using assms by (cases x) (auto simp: register_backend_def)
next
  case False
  from segments_exec [OF assms(1) False] show ?thesis
    by (induction rule: segments_induct) (use assms(2) segment_tallied in auto)
qed

lemma reachable_tallied: "reachable env c \<Longrightarrow> tallied (stats (cache c))"
proof (induction rule: reachable.induct)
  case (start op cf)
  show ?case
    by (auto simp: fresh_def KernelCache_new_def Impl_new_def Let_def tallied_new split: sum.splits)
next
  case (step c c')
  then show ?case by (auto elim!: sys_stepE intro: exec_tallied)
qed

subsection \<open>Device modules\<close>

fun loaded_by :: "ModuleCall \<Rightarrow> (string \<times> LoadedModule) multiset" where
  "loaded_by (Loaded b m) = {#(b, m)#}"
| "loaded_by (Unloaded b m) = {#}"

fun unloaded_by :: "ModuleCall \<Rightarrow> (string \<times> LoadedModule) multiset" where
  "unloaded_by (Loaded b m) = {#}"
| "unloaded_by (Unloaded b m) = {#(b, m)#}"

definition loads :: "ModuleCall list \<Rightarrow> (string \<times> LoadedModule) multiset" where
  "loads cs = sum_list (map loaded_by cs)"

definition unloads :: "ModuleCall list \<Rightarrow> (string \<times> LoadedModule) multiset" where
  "unloads cs = sum_list (map unloaded_by cs)"

text \<open>The module a record holds, with the backend that would be asked to unload it.\<close>

definition module_of :: "'p Impl \<Rightarrow> ArtifactRecord \<Rightarrow> (string \<times> LoadedModule) multiset" where
  "module_of s r =
     (case (device_loader (rec_key r) s, native_handle r) of
        (Some (b, ld), Some m) \<Rightarrow> {#(b, m)#}
      | _ \<Rightarrow> {#})"

definition held_modules :: "'p Impl \<Rightarrow> (string \<times> LoadedModule) multiset" where
  "held_modules s = sum_list (map (module_of s \<circ> snd) (by_id s))"

text \<open>Only device-resident records hold a module, and its backend is known.\<close>

definition module_placed :: "'p Impl \<Rightarrow> ArtifactRecord \<Rightarrow> bool" where
  "module_placed s r \<longleftrightarrow> native_handle r \<noteq> None \<longrightarrow> rec_tier r = RT_DeviceResident \<and> device_loader (rec_key r) s \<noteq> None"

definition modules_inv :: "'p Impl \<Rightarrow> bool" where
  "modules_inv s \<longleftrightarrow> (\<forall>i r. find_rec i s = Some r \<longrightarrow> module_placed s r) \<and>
     loads (module_calls s) = unloads (module_calls s) + held_modules s"

lemma loads_append [simp]: "loads (xs @ ys) = loads xs + loads ys" "unloads (xs @ ys) = unloads xs + unloads ys"
  by (simp_all add: loads_def unloads_def)

lemma loads_simps [simp]:
  "loads [] = {#}" "unloads [] = {#}" "loads (c # cs) = loaded_by c + loads cs" "unloads (c # cs) = unloaded_by c + unloads cs"
  by (simp_all add: loads_def unloads_def)

lemma device_loader_cong: "backends s = backends t \<Longrightarrow> device_loader k s = device_loader k t"
  by (simp add: device_loader_def find_backend_def split: option.split)

lemma held_modules_cong: "by_id s = by_id t \<Longrightarrow> backends s = backends t \<Longrightarrow> held_modules s = held_modules t"
  by (simp add: held_modules_def module_of_def device_loader_cong [of s t] comp_def)

lemma sum_list_map_entry:
  fixes g :: "'b \<Rightarrow> 'c multiset"
  assumes "distinct (map fst m)" and "map_of m i = Some r"
  shows "sum_list (map (g \<circ> snd) (AList.map_entry i f m)) + g r = sum_list (map (g \<circ> snd) m) + g (f r)"
  using assms
proof (induction m)
  case (Cons e m)
  obtain j x where e: "e = (j, x)" by (cases e)
  show ?case
  proof (cases "j = i")
    case True
    then show ?thesis using Cons e by (simp add: ac_simps)
  next
    case False
    then show ?thesis using Cons e by (simp add: ac_simps)
  qed
qed simp


lemma held_modules_modify:
  assumes "index_inv s" and "find_rec i s = Some r"
  shows "held_modules (modify i f s) + module_of s r = held_modules s + module_of s (f r)"
proof -
  have "module_of (modify i f s) = module_of s" by (simp add: fun_eq_iff module_of_def)
  then show ?thesis
    using sum_list_map_entry [of "by_id s" i r "module_of s" f] assms
    by (simp add: held_modules_def modify_def find_rec_def index_inv_def)
qed

lemma modify_unknown: "find_rec i s = None \<Longrightarrow> modify i f s = s"
proof -
  have "map_of m i = None \<Longrightarrow> AList.map_entry i f m = m" for m :: index
    by (induction m) (auto split: if_splits)
  then show "find_rec i s = None \<Longrightarrow> modify i f s = s" by (simp add: modify_def find_rec_def)
qed

lemma update_unknown: "map_of m i = None \<Longrightarrow> AList.update i v m = m @ [(i, v)]"
  by (induction m) (auto split: if_splits)

lemma no_module_below:
  "modules_inv s \<Longrightarrow> find_rec i s = Some r \<Longrightarrow> rec_tier r \<noteq> RT_DeviceResident \<Longrightarrow> native_handle r = None"
  unfolding modules_inv_def module_placed_def by blast

text \<open>A change of a record that leaves its module, or takes away what has just been unloaded.\<close>

lemma modules_inv_plain:
  assumes "modules_inv s" "index_inv s"
    and "\<And>r. find_rec i s = Some r \<Longrightarrow> native_handle (f r) = native_handle r \<and> rec_key (f r) = rec_key r \<and>
      (native_handle r \<noteq> None \<longrightarrow> rec_tier (f r) = rec_tier r)"
  shows "modules_inv (modify i f s)"
proof (cases "find_rec i s")
  case (Some r)
  have "module_of s (f r) = module_of s r" using assms(3) [OF Some] by (simp add: module_of_def)
  then have "held_modules (modify i f s) = held_modules s" using held_modules_modify [OF assms(2) Some, of f] by simp
  then show ?thesis using assms Some by (auto simp: modules_inv_def module_placed_def)
qed (use assms in \<open>simp add: modify_unknown\<close>)

lemma unload_module_calls:
  assumes "find_rec i s = Some r" and "module_placed s r"
  shows "loads (module_calls (unload_module i s)) = loads (module_calls s)"
    and "unloads (module_calls (unload_module i s)) = unloads (module_calls s) + module_of s r"
  using assms
  by (auto simp: unload_module_def note_unload_def module_of_def module_placed_def split: option.split)

lemma modules_inv_unload:
  assumes "modules_inv s" "index_inv s" "\<And>r. native_handle (f r) = None"
  shows "modules_inv (modify i f (unload_module i s))"
proof (cases "find_rec i s")
  case (Some r)
  let ?t = "unload_module i s"
  have "module_of ?t x = module_of s x" for x by (simp add: module_of_def)
  moreover have "module_of s (f r) = {#}" using assms(3) by (simp add: module_of_def split: option.split)
  moreover have "held_modules ?t = held_modules s" by (rule held_modules_cong) simp_all
  ultimately have "held_modules (modify i f ?t) + module_of s r = held_modules s"
    using held_modules_modify [of ?t i r f] assms(2) Some by simp
  moreover have "module_placed s r" using assms(1) Some by (auto simp: modules_inv_def)
  ultimately show ?thesis
    using assms Some unload_module_calls [OF Some]
    by (auto simp: modules_inv_def module_placed_def add.assoc split: if_splits) (metis add.assoc add.commute)+
qed (use assms in \<open>simp add: modify_unknown unload_module_def\<close>)

lemma modules_inv_load:
  assumes "modules_inv s" "index_inv s" "find_rec i s = Some r" "rec_tier r < RT_DeviceResident"
    and "device_loader (rec_key r) s = Some (b, ld)"
  shows "modules_inv (modify i (device_update h fp) (note_load b h s))"
proof -
  let ?t = "note_load b h s"
  let ?f = "device_update h fp"
  have none: "native_handle r = None" using no_module_below [OF assms(1,3)] assms(4) by auto
  have f: "native_handle (?f r) = h" "rec_key (?f r) = rec_key r" "rec_tier (?f r) = RT_DeviceResident"
    by (simp_all add: device_update_def try_state_def)
  have "module_of ?t x = module_of s x" for x by (simp add: module_of_def)
  moreover have "held_modules ?t = held_modules s" by (rule held_modules_cong) simp_all
  moreover have "module_of s r = {#}" using none by (simp add: module_of_def split: option.split)
  ultimately have "held_modules (modify i ?f ?t) = held_modules s + module_of s (?f r)"
    using held_modules_modify [of ?t i r ?f] assms(2,3) by simp
  moreover have "loads (module_calls ?t) = loads (module_calls s) + module_of s (?f r)"
    "unloads (module_calls ?t) = unloads (module_calls s)"
    using f assms(5) by (simp_all add: note_load_def module_of_def split: option.split)
  ultimately show ?thesis
    using assms f by (auto simp: modules_inv_def module_placed_def)
qed

lemma modules_inv_insert:
  assumes "modules_inv s" "find_rec (rec_id r) s = None" "native_handle r = None"
  shows "modules_inv (insert_index_locked r s)"
proof -
  let ?t = "insert_index_locked r s"
  let ?r = "r\<lparr>rec_key := ensure_finalized (rec_key r)\<rparr>"
  have "module_of ?t = module_of s"
    using device_loader_cong [of ?t s] by (simp add: fun_eq_iff module_of_def)
  moreover have "AList.update (rec_id r) ?r (by_id s) = by_id s @ [(rec_id r, ?r)]"
    using assms(2) by (simp add: update_unknown find_rec_def)
  moreover have "module_of s ?r = {#}" using assms(3) by (simp add: module_of_def split: option.split)
  ultimately have "held_modules ?t = held_modules s" by (simp add: held_modules_def insert_index_locked_def Let_def)
  then show ?thesis
    using assms device_loader_cong [of ?t s] by (auto simp: modules_inv_def module_placed_def find_rec_insert)
qed

lemma modules_inv_frame:
  assumes "modules_inv s" "by_id s' = by_id s" "backends s' = backends s" "module_calls s' = module_calls s"
  shows "modules_inv s'"
  using assms held_modules_cong [of s' s] device_loader_cong [of s' s]
  by (simp add: modules_inv_def module_placed_def find_rec_def)

lemma tier_host_device: "t < RT_HostResident \<Longrightarrow> t \<noteq> RT_DeviceResident"
  by (auto simp: less_ResidencyTier_def)

lemma segment_modules: "segment k s s' \<Longrightarrow> index_inv s \<Longrightarrow> modules_inv s \<Longrightarrow> modules_inv s'"
proof (induction rule: segment.induct)
  case (silent s s')
  then show ?case by (auto intro: modules_inv_frame simp: same_records_def)
next
  case (tally f s)
  then show ?case by (auto intro: modules_inv_frame [of s])
next
  case (host i s r)
  then have "native_handle r = None"
    using no_module_below tier_host_device by blast
  then show ?case using host by (intro modules_inv_plain) (auto simp: host_update_def try_state_def Let_def)
next
  case (load i s r b ld h fp)
  then show ?case by (intro modules_inv_load)
qed (auto intro!: modules_inv_plain modules_inv_unload modules_inv_insert
    simp: record_defs try_state_def demoted_tier_def)


lemma exec_modules:
  assumes "exec env x c = Some c'" and "\<not> registers x" and "index_inv (cache c)" and "modules_inv (cache c)"
  shows "modules_inv (cache c')"
proof -
  have "index_inv (cache c') \<and> modules_inv (cache c')"
    using segments_exec [OF assms(1,2)]
    by (induction rule: segments_induct) (use assms(3,4) in \<open>blast intro: segment_index_inv segment_modules\<close>)+
  then show ?thesis ..
qed

lemma run_modules:
  "run_ops env xs c = Some c' \<Longrightarrow> \<not> list_ex registers xs \<Longrightarrow> index_inv (cache c) \<Longrightarrow> modules_inv (cache c) \<Longrightarrow>
    modules_inv (cache c')"
proof (induction xs arbitrary: c)
  case (Cons x xs)
  then obtain d where d: "exec env x c = Some d" "run_ops env xs d = Some c'"
    by (auto simp: Option.bind_eq_Some_conv)
  have "index_inv (cache d)" using evolves_exec [OF d(1)] Cons.prems(3) by (simp add: evolves_def)
  then show ?case using Cons.IH [OF d(2)] exec_modules [OF d(1)] Cons.prems by simp
qed simp

text \<open>Registering backends before anything else leaves the cache without records.\<close>

definition set_up :: "KernelBackend list \<Rightarrow> 'p Impl \<Rightarrow> 'p Impl" where
  "set_up bs s = fold (\<lambda>b s. snd (register_backend b s)) bs s"

lemma run_set_up: "run_ops env (map OpRegister bs @ xs) c = run_ops env xs (c\<lparr>cache := set_up bs (cache c)\<rparr>)"
  by (induction bs arbitrary: c) (simp_all add: set_up_def)

lemma set_up_empty:
  "by_id s = [] \<Longrightarrow> module_calls s = [] \<Longrightarrow> index_inv s \<Longrightarrow>
    by_id (set_up bs s) = [] \<and> module_calls (set_up bs s) = [] \<and> index_inv (set_up bs s)"
  unfolding set_up_def
proof (induction bs arbitrary: s)
  case (Cons b bs)
  show ?case using Cons.IH [of "snd (register_backend b s)"] Cons.prems by (simp add: register_backend_def)
qed simp

lemma modules_inv_set_up:
  "modules_inv (set_up bs (cache (fresh env open_store cf))) \<and> index_inv (set_up bs (cache (fresh env open_store cf)))"
proof -
  let ?s = "cache (fresh env open_store cf)"
  have "by_id ?s = []" "module_calls ?s = []"
    by (auto simp: fresh_def KernelCache_new_def Impl_new_def Let_def split: sum.splits)
  from set_up_empty [OF this index_inv_fresh, of bs] show ?thesis
    by (simp add: modules_inv_def held_modules_def find_rec_def)
qed

subsection \<open>Properties\<close>

text \<open>
  C11. Every device module is accounted for: when the backends are registered first, then after any
  sequence of operations the modules the loaders have handed out are exactly those that have been
  unloaded, once each and by the backend that loaded them, and those that device-resident records hold.
\<close>

theorem modules_balanced:
  assumes "run_ops env (map OpRegister bs @ xs) (fresh env open_store cf) = Some c" and "\<not> list_ex registers xs"
  shows "loads (module_calls (cache c)) = unloads (module_calls (cache c)) + held_modules (cache c) \<and>
    (\<forall>i r m. find_rec i (cache c) = Some r \<and> native_handle r = Some m \<longrightarrow> rec_tier r = RT_DeviceResident)"
proof -
  have "modules_inv (cache c)"
    using run_modules [OF assms(1) [unfolded run_set_up] assms(2)] modules_inv_set_up by auto
  then show ?thesis by (auto simp: modules_inv_def module_placed_def)
qed

text \<open>
  C23. The lookup counters add up: in every reachable state, whatever was looked up, acquired, explained
  or reset, the number of lookups is the sum of the hits of each kind and the misses (as 64-bit
  numbers), so the hit ratio is the share of all lookups.
\<close>

theorem lookup_accounting:
  assumes "reachable env c" and "st = stats (cache c)"
  shows "lookups st = exact_hits st + compatible_hits st + persistent_hits st + host_hits st + device_hits st + misses st \<and>
    hit_ratio st = (if lookups st = 0 then None else Some (lookups st - misses st, lookups st))"
  using reachable_tallied [OF assms(1)] assms(2) by (auto simp: tallied_def hit_ratio_def Let_def)


subsection \<open>A run with a module\<close>

definition loaded_record :: ArtifactRecord where
  "loaded_record = device_update (Some 3) (3, False) demo_record"

lemma loaded_record_sel [simp]:
  "native_handle loaded_record = Some 3" "rec_tier loaded_record = RT_DeviceResident"
  "rec_key loaded_record = derive (canonicalize matmul_key)" "pin_count loaded_record = 0"
  "lease_count loaded_record = 0" "\<not> invalidated loaded_record" "\<not> corrupt loaded_record" "device_footprint loaded_record = 3"
  by (simp_all add: loaded_record_def device_update_def try_state_def)

lemma demo_fields:
  "backends (cache demo) = [(''text'', text_backend)]" "by_id (cache demo) = [(sample_id, demo_record)]"
  "module_calls (cache demo) = []" "cfg (cache demo) = sample_config"
  by (simp_all add: demo_def demo_start_def fresh_def KernelCache_new_def register_backend_def text_backend_def
      put_def now_ns_def record_event_def Let_def sample_config_def KernelCacheConfig_new_def Impl_new_def
      insert_index_locked_def make_record_def demo_record_def sample_env_def find_rec_def ensure_finalized_def derive_sel)


lemma demo_loader: "backends s = [(''text'', text_backend)] \<Longrightarrow> device_loader k s = Some (''text'', the (loader text_backend))"
  by (simp add: device_loader_def find_backend_def text_backend_def split: option.split)

lemma fits_device:
  assumes "by_id s = [(sample_id, loaded_record)]" and "cfg s = sample_config"
  shows "\<exists>n. evict_to_fit env RT_DeviceResident s = Some (s\<lparr>ticks := n\<rparr>)"
proof -
  let ?v = "scan_victims env RT_DeviceResident s"
  have "used ?v = 3" by (simp add: scan_victims_used used_bytes_def assms load_of_def skip_record_def)
  moreover have "budget_for RT_DeviceResident s = 2 ^ 30"
    by (simp add: budget_for_def assms sample_config_def KernelCacheConfig_new_def ResidencyPolicy_new_def)
  ultimately show ?thesis
    by (subst evict_to_fit.simps) (auto simp: Let_def split: option.split intro: exI [of _ "ticks s"])
qed

lemma demo_load:
  "\<exists>h s. cache_load sample_env sample_id (cache demo) = Some (Inr h, s) \<and> by_id s = [(sample_id, loaded_record)] \<and>
    backends s = [(''text'', text_backend)] \<and> module_calls s = [Loaded ''text'' 3] \<and> cfg s = sample_config"
proof -
  let ?ld = "the (loader text_backend)"
  let ?t = "install_device sample_env sample_id (Some 3) (3, False) (note_load ''text'' (Some 3) (cache demo))"
  have "by_id ?t = [(sample_id, loaded_record)]" "cfg ?t = sample_config"
    by (simp_all add: install_device_def modify_def demo_fields loaded_record_def Let_def)
  from fits_device [OF this] obtain n where n: "evict_to_fit sample_env RT_DeviceResident ?t = Some (?t\<lparr>ticks := n\<rparr>)" by blast
  have b: "ensure_bytes sample_env sample_id (cache demo) = (Inr [1, 2, 3], cache demo)"
    by (simp add: ensure_bytes_def demo_find demo_record_def make_record_def)
  have l: "load_fn ?ld k [1, 2, 3] d = Inr (Some 3)" "resident_footprint ?ld (Some 3) = (3, False)" for k d
    by (simp_all add: text_backend_def)
  have "promote_to_tier sample_env sample_id RT_DeviceResident d (cache demo) = Some (ok, ?t\<lparr>ticks := n\<rparr>)" for d
    using n by (simp add: promote_to_tier_def demo_find b demo_loader [OF demo_fields(1)] l less_eq_ResidencyTier_def)
  then show ?thesis
    using \<open>by_id ?t = _\<close> \<open>cfg ?t = _\<close>
    by (simp add: cache_load_def demo_find install_device_def demo_fields note_load_def Let_def)
qed

theorem modules_balanced_witness:
  "\<exists>c. run_ops sample_env (map OpRegister [text_backend] @ [OpPut sample_desc [1, 2, 3], OpLoad sample_id]) demo_start = Some c \<and>
    loads (module_calls (cache c)) = {#(''text'', 3)#} \<and> held_modules (cache c) = {#(''text'', 3)#}"
proof -
  obtain h s where s: "cache_load sample_env sample_id (cache demo) = Some (Inr h, s)"
    "backends s = [(''text'', text_backend)]" "module_calls s = [Loaded ''text'' 3]"
    using demo_load by blast
  let ?xs = "[OpPut sample_desc [1, 2, 3], OpLoad sample_id]"
  have run: "run_ops sample_env (map OpRegister [text_backend] @ ?xs) demo_start = Some (demo\<lparr>cache := s\<rparr>)"
    using demo_run s(1) by (simp add: Option.bind_eq_Some_conv)
  from modules_balanced [OF run [unfolded demo_start_def]] s(3) run show ?thesis by auto
qed

lemma lookup_hit_counts:
  "lookup_impl env q s = (Inr lr, s') \<Longrightarrow> is_hit lr \<Longrightarrow>
    lookups (stats s') = lookups (stats s) + 1 \<and> misses (stats s') = misses (stats s)"
  by (auto simp: lookup_impl_def lookup_hit_def lookup_miss_def now_ns_def Let_def is_hit_def count_hit_def
      KernelLookupResult_new_def split: if_splits option.splits)

theorem lookup_accounting_witness:
  "\<exists>c. reachable sample_env c \<and> lookups (stats (cache c)) = 1 \<and> hit_ratio (stats (cache c)) = Some (1, 1)"
proof -
  obtain lr s where l: "lookup_impl sample_env demo_request (cache demo) = (Inr lr, s)" "is_hit lr"
    using demo_lookup by blast
  let ?c = "demo\<lparr>cache := s\<rparr>"
  have "sys_step sample_env demo ?c" using l by (intro sys_step.call [of _ "OpLookup demo_request"]) simp
  with demo_reachable have r: "reachable sample_env ?c" by (rule reachable.step)
  have "stats (cache demo) = Stats_new"
    by (simp add: demo_def demo_start_def fresh_def KernelCache_new_def register_backend_def text_backend_def
        put_def now_ns_def record_event_def Let_def sample_config_def KernelCacheConfig_new_def Impl_new_def find_rec_def)
  then have "lookups (stats s) = 1 \<and> misses (stats s) = 0"
    using lookup_hit_counts [OF l] by (simp add: Stats_new_def)
  with lookup_accounting [OF r refl] r show ?thesis by (intro exI [of _ ?c]) simp
qed

text \<open>
  A backend that is registered again under the same name takes over the modules of the old one:
  here the new one has no loader, so the module of the evicted artifact is dropped without an unload.
\<close>

theorem replaced_backend_leaks:
  "\<exists>c. run_ops sample_env [OpRegister text_backend, OpPut sample_desc [1, 2, 3], OpLoad sample_id,
        OpRegister (text_backend\<lparr>loader := None\<rparr>), OpEvict sample_id False] demo_start = Some c \<and>
    loads (module_calls (cache c)) = {#(''text'', 3)#} \<and> unloads (module_calls (cache c)) = {#} \<and>
    held_modules (cache c) = {#}"
proof -
  obtain h s where s: "cache_load sample_env sample_id (cache demo) = Some (Inr h, s)" "by_id s = [(sample_id, loaded_record)]"
    "backends s = [(''text'', text_backend)]" "module_calls s = [Loaded ''text'' 3]"
    using demo_load by blast
  let ?t = "s\<lparr>backends := [(''text'', text_backend\<lparr>loader := None\<rparr>)]\<rparr>"
  let ?u = "snd (evict_impl sample_env sample_id False ?t)"
  have reg: "register_backend (text_backend\<lparr>loader := None\<rparr>) s = (ok, ?t)"
    using s(3) by (simp add: register_backend_def text_backend_def)
  have no: "device_loader k ?t = None" for k
    by (simp add: device_loader_def find_backend_def text_backend_def split: option.split)
  have find: "find_rec sample_id ?t = Some loaded_record" using s(2) by (simp add: find_rec_def)
  then have u: "module_calls ?u = [Loaded ''text'' 3]" "by_id ?u = [(sample_id, evicted loaded_record)]"
    using s(2,4) evict_success [OF find, of sample_env False]
    by (simp_all add: evict_impl_def unload_module_def no held_def Let_def)
  have "native_handle (evicted loaded_record) = None"
    by (simp add: evicted_def evict_end_update_def Let_def try_state_def)
  then have "held_modules ?u = {#}" using u by (simp add: held_modules_def module_of_def split: option.split)
  moreover have "run_ops sample_env [OpRegister text_backend, OpPut sample_desc [1, 2, 3], OpLoad sample_id,
        OpRegister (text_backend\<lparr>loader := None\<rparr>), OpEvict sample_id False] demo_start = Some (demo\<lparr>cache := ?u\<rparr>)"
    using demo_run s(1) reg by (simp add: Option.bind_eq_Some_conv)
  ultimately show ?thesis using u by (intro exI [of _ "demo\<lparr>cache := ?u\<rparr>"]) simp
qed

end
