(* ===== verification/KC_Spec.thy ===== *)
theory KC_Spec
  imports KC_Modules
begin

text \<open>
  What the cache promises its clients, as an abstract machine: a table of offers, each with a key, a
  generation and whether it can still be leased, and the handles the clients hold. Every operation
  may change the table only in the way its name says. The cache of \<^verbatim>\<open>src/cache.cpp\<close> implements this
  machine: each call is one step of it.
\<close>

subsection \<open>The abstract machine\<close>

record Offer =
  offer_key :: KernelCompatibilityKey
  offer_generation :: u64
  alive :: bool

record Spec =
  offers :: "ArtifactId \<rightharpoonup> Offer"
  handles :: "ArtifactId option list"

text \<open>An offer may end; it never changes its key or generation, and never starts again.\<close>

definition aged :: "Offer \<Rightarrow> Offer \<Rightarrow> bool" where
  "aged x y \<longleftrightarrow> offer_key y = offer_key x \<and> offer_generation y = offer_generation x \<and> (alive y \<longrightarrow> alive x)"

definition succeeds :: "(ArtifactId \<rightharpoonup> Offer) \<Rightarrow> (ArtifactId \<rightharpoonup> Offer) \<Rightarrow> bool" where
  "succeeds T T' \<longleftrightarrow> (\<forall>i x. T i = Some x \<longrightarrow> (\<exists>y. T' i = Some y \<and> aged x y))"

fun spec_step :: "Operation \<Rightarrow> Spec \<Rightarrow> Spec \<Rightarrow> bool" where
  "spec_step (OpAcquire q) A A' \<longleftrightarrow> succeeds (offers A) (offers A') \<and>
     (handles A' = handles A \<or>
      (\<exists>i x. offers A' i = Some x \<and> alive x \<and> handles A' = handles A @ [Some i]))"
| "spec_step (OpRelease n) A A' \<longleftrightarrow> offers A' = offers A \<and> handles A' = (handles A)[n := None]"
| "spec_step (OpBuild q) A A' \<longleftrightarrow> offers A \<subseteq>\<^sub>m offers A' \<and> handles A' = handles A"
| "spec_step (OpPut d b) A A' \<longleftrightarrow> offers A \<subseteq>\<^sub>m offers A' \<and> handles A' = handles A"
| "spec_step OpRecover A A' \<longleftrightarrow> offers A \<subseteq>\<^sub>m offers A' \<and> handles A' = handles A"
| "spec_step (OpValidate q i) A A' \<longleftrightarrow> succeeds (offers A) (offers A') \<and> dom (offers A') = dom (offers A) \<and> handles A' = handles A"
| "spec_step (OpLoad i) A A' \<longleftrightarrow> succeeds (offers A) (offers A') \<and> dom (offers A') = dom (offers A) \<and> handles A' = handles A"
| "spec_step (OpUnload i) A A' \<longleftrightarrow> succeeds (offers A) (offers A') \<and> dom (offers A') = dom (offers A) \<and> handles A' = handles A"
| "spec_step (OpInvalidate q) A A' \<longleftrightarrow> succeeds (offers A) (offers A') \<and> dom (offers A') = dom (offers A) \<and> handles A' = handles A"
| "spec_step (OpEvict i f) A A' \<longleftrightarrow> succeeds (offers A) (offers A') \<and> dom (offers A') = dom (offers A) \<and> handles A' = handles A"
| "spec_step _ A A' \<longleftrightarrow> A' = A"

definition spec_start :: Spec where
  "spec_start = \<lparr>offers = Map.empty, handles = []\<rparr>"

subsection \<open>Simulation\<close>

fun run_all :: "('x \<Rightarrow> 's \<Rightarrow> 's option) \<Rightarrow> 'x list \<Rightarrow> 's \<Rightarrow> 's option" where
  "run_all f [] s = Some s"
| "run_all f (x # xs) s = Option.bind (f x s) (run_all f xs)"

fun rel_all :: "('x \<Rightarrow> 'a \<Rightarrow> 'a \<Rightarrow> bool) \<Rightarrow> 'x list \<Rightarrow> 'a \<Rightarrow> 'a \<Rightarrow> bool" where
  "rel_all R [] A B \<longleftrightarrow> B = A"
| "rel_all R (x # xs) A C \<longleftrightarrow> (\<exists>B. R x A B \<and> rel_all R xs B C)"

text \<open>One step of the program is one step of the specification, as long as an invariant holds.\<close>

locale simulation =
  fixes step :: "'x \<Rightarrow> 's \<Rightarrow> 's option" and inv :: "'s \<Rightarrow> bool" and abs :: "'s \<Rightarrow> 'a" and astep :: "'x \<Rightarrow> 'a \<Rightarrow> 'a \<Rightarrow> bool"
  assumes keeps: "inv s \<Longrightarrow> step x s = Some s' \<Longrightarrow> inv s'"
    and simulates: "inv s \<Longrightarrow> step x s = Some s' \<Longrightarrow> astep x (abs s) (abs s')"
begin

lemma runs_simulate: "inv s \<Longrightarrow> run_all step xs s = Some s' \<Longrightarrow> rel_all astep xs (abs s) (abs s')"
proof (induction xs arbitrary: s)
  case (Cons x xs)
  then obtain t where t: "step x s = Some t" "run_all step xs t = Some s'" by (auto simp: Option.bind_eq_Some_conv)
  with Cons.IH [OF keeps, OF Cons.prems(1) t] simulates [OF Cons.prems(1) t(1)] show ?case by auto
qed simp

end

subsection \<open>The cache as an abstract machine\<close>

definition offer_of :: "ArtifactRecord \<Rightarrow> Offer" where
  "offer_of r = \<lparr>offer_key = rec_key r, offer_generation = rec_generation r, alive = usable r\<rparr>"

definition offers_of :: "'p Impl \<Rightarrow> ArtifactId \<rightharpoonup> Offer" where
  "offers_of s i = map_option offer_of (find_rec i s)"

definition handle_of_lease :: "KernelLease \<Rightarrow> ArtifactId option" where
  "handle_of_lease l = (if lease_valid l then Some (lease_artifact_id l) else None)"

definition abs_system :: "'p System \<Rightarrow> Spec" where
  "abs_system c = \<lparr>offers = offers_of (cache c), handles = map handle_of_lease (leases c)\<rparr>"

lemma succeeds_refl [simp]: "succeeds T T"
  by (simp add: succeeds_def aged_def)

lemma succeeds_trans: "succeeds T U \<Longrightarrow> succeeds U V \<Longrightarrow> succeeds T V"
  unfolding succeeds_def aged_def by metis

lemma evolves_succeeds: "evolves s s' \<Longrightarrow> index_inv s \<Longrightarrow> succeeds (offers_of s) (offers_of s')"
  unfolding succeeds_def evolves_def offers_of_def
  by (fastforce simp: record_evolves_def aged_def offer_of_def)

lemma offers_of_modify:
  assumes "index_inv s" and "\<And>r. rec_ok r \<Longrightarrow> usable (f r) = usable r"
    and "\<And>r. rec_key (f r) = rec_key r" "\<And>r. rec_generation (f r) = rec_generation r"
  shows "offers_of (modify i f s) = offers_of s"
proof
  fix j
  have "offer_of (f r) = offer_of r" if "find_rec i s = Some r" for r
    using index_inv_find [OF assms(1) that] assms(2-4) by (simp add: offer_of_def)
  then show "offers_of (modify i f s) j = offers_of s j"
    by (cases "find_rec i s") (auto simp: offers_of_def)
qed

lemma offers_of_frame [simp]:
  "offers_of (bump f s) = offers_of s" "offers_of (note_load b h s) = offers_of s" "offers_of (unload_module i s) = offers_of s"
  by (simp_all add: fun_eq_iff offers_of_def)

text \<open>The updates that leave open whether a record can be leased.\<close>

lemma usable_same:
  "usable (touch_update t r) = usable r" "usable (reload_update b r) = usable r" "usable (pin_update r) = usable r"
  "usable (unpin_update r) = usable r" "usable (persisted_update r) = usable r"
  "usable (release_update r) = usable r" "usable (grant_update t p r) = usable r"
  by (auto simp: record_defs usable_def try_state_def is_eligible_def)

lemma usable_resident:
  "rec_ok r \<Longrightarrow> usable (host_update r) = usable r" "rec_ok r \<Longrightarrow> usable (device_update h fp r) = usable r"
  by (cases "rec_state r"; auto simp: record_defs usable_def try_state_def is_eligible_def rec_ok_def published_state_def successors)+

lemma dom_offers_modify: "dom (offers_of (modify i f s)) = dom (offers_of s)"
  by (auto simp: offers_of_def dom_def)

lemma same_records_offers: "same_records s s' \<Longrightarrow> offers_of s' = offers_of s"
  by (simp add: fun_eq_iff offers_of_def same_records_find)

lemma offers_insert: "find_rec (rec_id r) s = None \<Longrightarrow> offers_of s \<subseteq>\<^sub>m offers_of (insert_index_locked r s)"
  by (auto simp: map_le_def offers_of_def find_rec_insert dom_def)

lemma segment_offers:
  "segment k s s' \<Longrightarrow> index_inv s \<Longrightarrow> k \<notin> {Fate, Insert} \<Longrightarrow> offers_of s' = offers_of s"
  by (induction rule: segment.induct)
    (simp_all add: same_records_offers offers_of_modify usable_same usable_resident device.contract host.contract
      touch.contract reload.contract pin.contract unpin.contract persisted.contract release.contract grant.contract)

lemma segment_dom: "segment k s s' \<Longrightarrow> k \<noteq> Insert \<Longrightarrow> dom (offers_of s') = dom (offers_of s)"
  by (induction rule: segment.induct) (simp_all add: same_records_offers dom_offers_modify)

text \<open>What the kinds of segments of an operation say about the offers.\<close>

lemma segments_offers:
  assumes "segments K s s'" and "index_inv s"
  shows "K \<inter> {Fate, Insert} = {} \<Longrightarrow> offers_of s' = offers_of s"
    and "Fate \<notin> K \<Longrightarrow> offers_of s \<subseteq>\<^sub>m offers_of s'"
    and "Insert \<notin> K \<Longrightarrow> dom (offers_of s') = dom (offers_of s)"
    and "succeeds (offers_of s) (offers_of s')"
proof -
  show "offers_of s' = offers_of s" if "K \<inter> {Fate, Insert} = {}"
  proof -
    have "index_inv s' \<and> offers_of s' = offers_of s"
      using assms(1)
    proof (induction rule: segments_induct)
      case (step k t u)
      then have "k \<notin> {Fate, Insert}" using that by blast
      then show ?case using step segment_offers [of k t u] segment_index_inv [of k t u] by simp
    qed (use assms(2) in simp)
    then show ?thesis ..
  qed
  show "offers_of s \<subseteq>\<^sub>m offers_of s'" if "Fate \<notin> K"
  proof -
    have "index_inv s' \<and> offers_of s \<subseteq>\<^sub>m offers_of s'"
      using assms(1)
    proof (induction rule: segments_induct)
      case (step k t u)
      have "offers_of t \<subseteq>\<^sub>m offers_of u"
      proof (cases "k = Insert")
        case True
        then show ?thesis using step(2) by (auto elim: segmentE intro: offers_insert)
      next
        case False
        then have "k \<notin> {Fate, Insert}" using step(1) that by blast
        then show ?thesis using segment_offers [of k t u] step by simp
      qed
      then show ?case using step segment_index_inv map_le_trans by blast
    qed (use assms(2) in simp)
    then show ?thesis ..
  qed
  show "dom (offers_of s') = dom (offers_of s)" if "Insert \<notin> K"
    using assms(1)
  proof (induction rule: segments_induct)
    case (step k t u)
    then have "k \<noteq> Insert" using that by blast
    then show ?case using step segment_dom [of k t u] by simp
  qed simp
  have "evolves s s'"
    using assms(1) by (induction rule: segments_induct) (auto intro: evolves_trans segment_evolves)
  then show "succeeds (offers_of s) (offers_of s')" using assms(2) by (rule evolves_succeeds)
qed


lemma acquire_alive:
  assumes "acquire_impl env q s = Some (Inr l, s')"
  shows "lease_valid l \<and> (\<exists>r. find_rec (lease_artifact_id l) s' = Some r \<and> usable r)"
proof -
  have "\<exists>i rq t. promote_and_grant env i rq t = Some (Inr l, s')"
    using assms by (auto simp: acquire_impl_def Let_def split: sum.splits if_splits option.splits prod.splits)
  then obtain i rq t where "promote_and_grant env i rq t = Some (Inr l, s')" by blast
  from promote_and_grant_lease [OF this] show ?thesis
    by (auto simp: usable_same lease_valid_def lease_artifact_id_def)
qed

lemma release_handle: "lease_release l s = (l', s') \<Longrightarrow> handle_of_lease l' = None"
  by (auto simp: lease_release_def handle_of_lease_def lease_valid_def split: option.splits if_splits)

lemma exec_simulates:
  assumes inv: "index_inv (cache c)" and ex: "exec env x c = Some c'"
  shows "spec_step x (abs_system c) (abs_system c')"
proof (cases "registers x")
  case True
  then obtain b where "x = OpRegister b" by (cases x) auto
  then show ?thesis using ex by (auto simp: abs_system_def fun_eq_iff offers_of_def register_backend_def)
next
  case False
  note o = segments_offers [OF segments_exec [OF ex False] inv]
  show ?thesis
  proof (cases "moves_leases x")
    case False
    have "leases c' = leases c" using exec_neutral [OF ex False inv] by simp
    then show ?thesis using o False by (cases x) (simp_all add: abs_system_def)
  next
    case True
    then consider q where "x = OpAcquire q" | n where "x = OpRelease n" by (cases x) auto
    then show ?thesis
    proof cases
      case (1 q)
      obtain res s where "acquire_impl env q (cache c) = Some (res, s)" using ex 1 by (auto split: option.splits)
      then show ?thesis
        using ex o(4) acquire_alive [of env q "cache c" _ s] 1
        by (cases res) (auto simp: abs_system_def handle_of_lease_def offers_of_def offer_of_def)
    next
      case (2 n)
      have "offers_of (cache c') = offers_of (cache c)" using o(1) 2 by simp
      then show ?thesis
        using ex 2 by (auto simp: abs_system_def map_update list_update_beyond dest: release_handle split: if_splits prod.splits)
    qed
  qed
qed

interpretation cache_sim: simulation "exec env" "\<lambda>c. index_inv (cache c)" abs_system spec_step
proof
  fix c x c' assume "index_inv (cache c)" "exec env x c = Some c'"
  then show "index_inv (cache c')" "spec_step x (abs_system c) (abs_system c')"
    using evolves_exec exec_simulates by (auto simp: evolves_def)
qed

lemma run_ops_all: "run_ops env xs c = run_all (exec env) xs c"
proof (induction xs arbitrary: c)
  case (Cons x xs)
  show ?case by (cases "exec env x c") (simp_all add: Cons.IH)
qed simp

subsection \<open>Properties\<close>

text \<open>
  C2. The cache implements its specification: whatever the clients call from the start, every call is a
  step of the abstract machine. Looking up, pinning and touching change no offer; building, putting and
  recovering only add offers; validating, loading, unloading, evicting and invalidating only end offers;
  releasing gives back one handle; acquiring hands out a handle on an offer that is alive, and no offer
  ever changes its key or generation or comes back to life.
\<close>

theorem cache_refines_spec:
  assumes "run_ops env xs (fresh env open_store cf) = Some c"
  shows "rel_all spec_step xs spec_start (abs_system c)"
proof -
  have "find_rec i (cache (fresh env open_store cf)) = None" for i
    by (auto simp: fresh_def KernelCache_new_def Impl_new_def find_rec_def Let_def split: sum.splits)
  then have "abs_system (fresh env open_store cf) = spec_start"
    by (simp add: abs_system_def spec_start_def offers_of_def fun_eq_iff) (simp add: fresh_def)
  then show ?thesis
    using cache_sim.runs_simulate [OF index_inv_fresh, of env xs env open_store cf c] assms by (simp add: run_ops_all)
qed

theorem cache_refines_spec_witness:
  "rel_all spec_step [OpRegister text_backend, OpPut sample_desc [1, 2, 3]] spec_start (abs_system demo) \<and>
    offers (abs_system demo) sample_id = Some \<lparr>offer_key = derive (canonicalize matmul_key), offer_generation = 1, alive = True\<rparr>"
proof -
  have "rec_generation demo_record = 1" "usable demo_record" by simp_all
  then have "offers (abs_system demo) sample_id =
      Some \<lparr>offer_key = derive (canonicalize matmul_key), offer_generation = 1, alive = True\<rparr>"
    by (simp add: abs_system_def offers_of_def demo_find offer_of_def)
  with cache_refines_spec [OF demo_run [unfolded demo_start_def]] show ?thesis by blast
qed

end
