(* ===== verification/KC_Races.thy ===== *)
theory KC_Races
  imports KC_Spec
begin

text \<open>
  Concurrent callers of \<^verbatim>\<open>acquire\<close>, \<^verbatim>\<open>evict\<close> and \<^verbatim>\<open>release\<close> (\<^verbatim>\<open>src/cache.cpp\<close>, \<^verbatim>\<open>src/leases.cpp\<close>,
  \<^verbatim>\<open>src/residency.cpp\<close>). A thread runs the critical sections of its call one by one and other threads
  may run between them, wherever the source holds no lock; every other operation of the cache may run
  at any time. The sections are those of the sequential functions: run without interruption they give
  the sequential results.
\<close>

subsection \<open>The sections of the calls\<close>

text \<open>\<^verbatim>\<open>evict_impl\<close>: the first locked block, and the second one with what follows it.\<close>

definition evict_mark :: "ArtifactId \<Rightarrow> bool \<Rightarrow> 'p Impl \<Rightarrow> unit result \<times> 'p Impl" where
  "evict_mark i force s =
     (case find_rec i s of
        None \<Rightarrow> (fail EC_NotFound ''artifact not found'', s)
      | Some r \<Rightarrow>
          if lease_count r > 0 \<or> pin_count r > 0 then
            (if \<not> force then (fail EC_EvictionForbidden ''leased or pinned artifact'', s)
             else (fail EC_EvictionForbidden ''cannot evict an actively leased/pinned artifact'', s))
          else (ok, modify i evict_begin_update s))"

definition evict_clear :: "'p Env \<Rightarrow> ArtifactId \<Rightarrow> 'p Impl \<Rightarrow> 'p Impl" where
  "evict_clear env i s =
     (let s = modify i evict_end_update s;
          s = bump (\<lambda>st. st\<lparr>evictions := evictions st + 1\<rparr>) s
      in record_event env ''evict'' (''id='' @ str i) s)"

text \<open>One round of \<^verbatim>\<open>evict_to_fit\<close> under the lock: the victim of this round, if one has to go.\<close>

definition fit_round :: "'p Env \<Rightarrow> ResidencyTier \<Rightarrow> 'p Impl \<Rightarrow> ArtifactId option \<times> 'p Impl" where
  "fit_round env tier s =
     (if \<not> applies tier s then (None, s)
      else
        let v = scan_victims env tier s
        in (if victim v = None \<or> used v \<le> budget_for tier s then None else victim v, s\<lparr>ticks := readings v\<rparr>))"

text \<open>\<^verbatim>\<open>ensure_bytes\<close> after its first locked block found no bytes.\<close>

definition fetch_stored :: "'p Env \<Rightarrow> ArtifactId \<Rightarrow> 'p Impl \<Rightarrow> bytes result \<times> 'p Impl" where
  "fetch_stored env i s =
     (case (persistence_open s, persistence s) of
        (True, Some p) \<Rightarrow>
          (case ps_get (store env) p i of
             Inr sa \<Rightarrow> (Inr (sa_bytes sa), modify i (reload_update (sa_bytes sa)) s)
           | Inl e \<Rightarrow> (Inl e, s))
      | _ \<Rightarrow> (fail EC_NotFound ''bytes absent and no persistence to reload from'', s))"

lemma ensure_sections:
  "find_rec i s = Some r \<Longrightarrow>
    ensure_bytes env i s = (if rec_bytes r \<noteq> [] then (Inr (rec_bytes r), s) else fetch_stored env i s)"
  by (simp add: ensure_bytes_def fetch_stored_def)

lemma evict_sections:
  "evict_impl env i force s =
     (case evict_mark i force s of
        (Inl e, t) \<Rightarrow> (Inl e, t)
      | (Inr _, t) \<Rightarrow> (ok, evict_clear env i (unload_module i t)))"
  by (simp add: evict_impl_def evict_mark_def evict_clear_def Let_def split: option.split)

lemma fit_sections:
  "evict_to_fit env tier s =
     (case fit_round env tier s of
        (None, t) \<Rightarrow> Some t
      | (Some i, t) \<Rightarrow> evict_to_fit env tier (snd (evict_impl env i False t)))"
  by (subst evict_to_fit.simps) (auto simp: fit_round_def Let_def split: option.split)

text \<open>
  Where a thread stands. The stages of \<^verbatim>\<open>acquire_impl\<close> after a hit: the record is chosen, its tier
  was found too low, its bytes are there, its module is loaded but not installed, room is being made, it
  is placed, the lease is held. The stages of an eviction, with the thread's return to \<^verbatim>\<open>evict_to_fit\<close>.
\<close>

datatype Job = Acquire KernelLookupRequest | Evict ArtifactId bool

datatype Stage =
    Ready
  | Chosen ArtifactId
  | Wanting ArtifactId
  | Reading ArtifactId
  | Fetched ArtifactId bytes
  | ModuleLoaded ArtifactId LoadedModuleHandle "u64 \<times> bool"
  | Fitting ArtifactId
  | Victim ArtifactId ArtifactId
  | Placed ArtifactId
  | Holding KernelLease
  | Marked ArtifactId "ArtifactId option"
  | Cleared ArtifactId "ArtifactId option"
  | Finished

record 'p World =
  mem :: "'p Impl"
  stage :: "nat \<Rightarrow> Stage"

definition goes :: "'p World \<Rightarrow> 'p Impl \<Rightarrow> nat \<Rightarrow> Stage \<Rightarrow> 'p World" where
  "goes w s t x = \<lparr>mem = s, stage = (stage w)(t := x)\<rparr>"

fun resume :: "ArtifactId option \<Rightarrow> Stage" where
  "resume None = Finished"
| "resume (Some i) = Fitting i"

text \<open>The request of a thread, its key finalized as \<^verbatim>\<open>acquire_impl\<close> does first.\<close>

definition final_request :: "KernelLookupRequest \<Rightarrow> KernelLookupRequest" where
  "final_request q = q\<lparr>req_key := finalized (req_key q)\<rparr>"

fun thread_section :: "'p Env \<Rightarrow> Job \<Rightarrow> Stage \<Rightarrow> 'p Impl \<Rightarrow> Stage \<times> 'p Impl" where
  "thread_section env (Acquire q) Ready s =
     (case lookup_impl env (final_request q) s of
        (Inr dec, s') \<Rightarrow> (if is_hit dec then Chosen (the (lr_artifact dec)) else Finished, s')
      | (Inl e, s') \<Rightarrow> (Finished, s'))"
| "thread_section env (Evict i force) Ready s =
     (case evict_mark i force s of
        (Inr _, s') \<Rightarrow> (Marked i None, s')
      | (Inl e, s') \<Rightarrow> (Finished, s'))"
| "thread_section env (Acquire q) (Chosen i) s =
     (case find_rec i s of
        None \<Rightarrow> (Finished, s)
      | Some r \<Rightarrow>
          (if desired_tier q = RT_None \<or> rec_tier r \<ge> desired_tier q \<or>
              desired_tier q \<notin> {RT_DeviceResident, RT_HostResident}
           then Placed i else Wanting i, s))"
| "thread_section env (Acquire q) (Wanting i) s =
     (case find_rec i s of
        None \<Rightarrow> (Finished, s)
      | Some r \<Rightarrow> (if rec_bytes r \<noteq> [] then Fetched i (rec_bytes r) else Reading i, s))"
| "thread_section env (Acquire q) (Reading i) s =
     (case fetch_stored env i s of
        (Inr b, s') \<Rightarrow> (Fetched i b, s')
      | (Inl e, s') \<Rightarrow> (Finished, s'))"
| "thread_section env (Acquire q) (Fetched i b) s =
     (if desired_tier q = RT_HostResident then (Placed i, modify i host_update s)
      else case find_rec i s of
             None \<Rightarrow> (Finished, s)
           | Some r \<Rightarrow>
               (case device_loader (rec_key r) s of
                  None \<Rightarrow> (Finished, s)
                | Some (be, ld) \<Rightarrow>
                    (case load_fn ld (rec_key r) b (req_device q) of
                       Inl e \<Rightarrow> (Finished, s)
                     | Inr h \<Rightarrow> (ModuleLoaded i h (resident_footprint ld h), note_load be h s))))"
| "thread_section env (Acquire q) (ModuleLoaded i h fp) s = (Fitting i, install_device env i h fp s)"
| "thread_section env (Acquire q) (Fitting i) s =
     (case fit_round env RT_DeviceResident s of
        (None, s') \<Rightarrow> (Placed i, s')
      | (Some v, s') \<Rightarrow> (Victim v i, s'))"
| "thread_section env (Acquire q) (Victim v i) s =
     (case evict_mark v False s of
        (Inr _, s') \<Rightarrow> (Marked v (Some i), s')
      | (Inl e, s') \<Rightarrow> (Fitting i, s'))"
| "thread_section env (Acquire q) (Placed i) s =
     (case grant_lease env i (final_request q) s of
        (Inr l, s') \<Rightarrow> (Holding l, s')
      | (Inl e, s') \<Rightarrow> (Finished, s'))"
| "thread_section env (Acquire q) (Holding l) s = (Finished, snd (lease_release l s))"
| "thread_section env j (Marked i k) s = (Cleared i k, unload_module i s)"
| "thread_section env j (Cleared i k) s = (resume k, evict_clear env i s)"
| "thread_section env j x s = (x, s)"

text \<open>The threads are numbered below \<open>n\<close>.\<close>

inductive world_step :: "'p Env \<Rightarrow> nat \<Rightarrow> (nat \<Rightarrow> Job) \<Rightarrow> 'p World \<Rightarrow> 'p World \<Rightarrow> bool" for env n job where
  own: "t < n \<Longrightarrow> thread_section env (job t) (stage w t) (mem w) = (x, s) \<Longrightarrow> world_step env n job w (goes w s t x)"
| other: "exec env x \<lparr>cache = mem w, leases = []\<rparr> = Some c \<Longrightarrow> \<not> moves_leases x \<Longrightarrow>
    world_step env n job w (w\<lparr>mem := cache c\<rparr>)"

inductive_cases world_stepE: "world_step env n job w w'"

definition world_start :: "'p Impl \<Rightarrow> 'p World" where
  "world_start s = \<lparr>mem = s, stage = (\<lambda>t. Ready)\<rparr>"

lemma goes_sel [simp]: "mem (goes w s t x) = s" "stage (goes w s t x) u = (if u = t then x else stage w u)"
  by (simp_all add: goes_def)

subsection \<open>Every section evolves the cache\<close>

lemma evolves_mark: "evict_mark i force s = (res, s') \<Longrightarrow> evolves s s'"
  by (auto simp: evict_mark_def intro!: evolves_intros split: option.splits if_splits)

lemma evolves_clear: "evolves s (evict_clear env i s)"
  by (auto simp: evict_clear_def Let_def intro!: evolves_intros)

lemma evolves_fetch: "fetch_stored env i s = (res, s') \<Longrightarrow> evolves s s'"
  by (auto simp: fetch_stored_def intro!: evolves_intros split: option.splits bool.splits sum.splits)

lemma evolves_fit_round: "fit_round env tier s = (v, s') \<Longrightarrow> evolves s s'"
  by (auto simp: fit_round_def Let_def split: if_splits)

lemma evolves_install: "evolves s (install_device env i h fp s)"
  by (auto simp: install_device_def Let_def intro!: evolves_intros)

lemma evolves_lookup_run: "lookup_impl env q s = (res, s') \<Longrightarrow> evolves s s'"
  using lookup_frame same_records_evolves by blast

lemma section_evolves: "thread_section env j x s = (y, s') \<Longrightarrow> evolves s s'"
  by (induction env j x s rule: thread_section.induct)
    (auto simp: evolves_clear evolves_install intro: evolves_intros evolves_mark evolves_fetch evolves_fit_round
      evolves_grant evolves_release [OF prod.collapse [symmetric]] evolves_lookup_run
      split: prod.splits sum.splits option.splits if_splits)


lemma step_evolves: "world_step env n job w w' \<Longrightarrow> evolves (mem w) (mem w')"
  by (auto elim!: world_stepE dest: section_evolves evolves_exec)

lemma steps_evolves: "(world_step env n job)\<^sup>*\<^sup>* w w' \<Longrightarrow> evolves (mem w) (mem w')"
  by (induction rule: rtranclp_induct) (auto intro: evolves_trans step_evolves)

subsection \<open>Who holds a lease\<close>

fun holds :: "Stage \<Rightarrow> ArtifactId option" where
  "holds (Holding l) = (if lease_valid l then Some (lease_artifact_id l) else None)"
| "holds _ = None"

lemma holds_resume [simp]: "holds (resume k) = None"
  by (cases k) simp_all

definition holders :: "nat \<Rightarrow> 'p World \<Rightarrow> ArtifactId \<Rightarrow> nat" where
  "holders n w i = card {t. t < n \<and> holds (stage w t) = Some i}"

lemma same_leases_mark: "evict_mark i force s = (res, s') \<Longrightarrow> same_leases s s'"
  by (auto simp: evict_mark_def intro!: same_leases_intros split: option.splits if_splits)

lemma same_leases_clear: "same_leases s (evict_clear env i s)"
  by (auto simp: evict_clear_def Let_def intro!: same_leases_intros)

lemma same_leases_fetch: "fetch_stored env i s = (res, s') \<Longrightarrow> same_leases s s'"
  by (auto simp: fetch_stored_def intro!: same_leases_intros split: option.splits bool.splits sum.splits)

lemma same_leases_fit_round: "fit_round env tier s = (v, s') \<Longrightarrow> same_leases s s'"
  by (auto simp: fit_round_def Let_def split: if_splits)

lemma same_leases_install: "same_leases s (install_device env i h fp s)"
  by (auto simp: install_device_def Let_def intro!: same_leases_intros)

lemma same_leases_lookup_run: "lookup_impl env q s = (res, s') \<Longrightarrow> same_leases s s'"
  using lookup_frame same_records_leases by blast

text \<open>A section that is neither a grant nor a release leaves every lease where it is.\<close>

lemma section_neutral:
  assumes "thread_section env j x s = (y, s')" and "holds x = None"
    and "\<And>q i. j = Acquire q \<Longrightarrow> x = Placed i \<Longrightarrow> False" and "\<And>l. x = Holding l \<Longrightarrow> False"
  shows "same_leases s s' \<and> holds y = None"
  using assms
  by (induction env j x s rule: thread_section.induct)
    (auto simp: same_leases_clear same_leases_install intro: same_leases_intros same_leases_mark same_leases_fetch
      same_leases_fit_round same_leases_lookup_run
      split: prod.splits sum.splits option.splits if_splits)

lemma section_grant:
  assumes "thread_section env (Acquire q) (Placed i) s = (y, s')"
  shows "same_leases s s' \<and> holds y = None \<or>
    (\<exists>r. find_rec i s = Some r \<and> usable r \<and> holds y = Some i \<and> (\<forall>j. leases_of j s' = leases_of j s + of_bool (j = i)))"
proof -
  obtain res t where g: "grant_lease env i (final_request q) s = (res, t)" by fastforce
  show ?thesis
    using grant_cases [OF g] leases_grant [OF g] assms g
    by (cases res) (auto simp: lease_valid_def lease_artifact_id_def)
qed

lemma section_holding:
  assumes "thread_section env j (Holding l) s = (y, s')"
  shows "same_leases s s' \<and> holds y = holds (Holding l) \<or>
    holds y = None \<and> (\<exists>l'. lease_release l s = (l', s'))"
  using assms by (cases j) (auto simp: prod_eq_iff)


text \<open>How the number of holders follows the stage of one thread.\<close>

lemma holders_goes:
  assumes "t < n"
  shows "holders n (goes w s t y) i + of_bool (holds (stage w t) = Some i) = holders n w i + of_bool (holds y = Some i)"
proof -
  let ?R = "{u. u < n \<and> u \<noteq> t \<and> holds (stage w u) = Some i}"
  have split: "{u. u < n \<and> holds (f u) = Some i} = (if holds (f t) = Some i then insert t ?R else ?R)"
    if "\<And>u. u \<noteq> t \<Longrightarrow> f u = stage w u" for f
  proof -
    have "{u. u < n \<and> holds (f u) = Some i} - {t} = ?R" using that by auto
    then show ?thesis using assms by auto
  qed
  have fin: "finite ?R" by simp
  have "card {u. u < n \<and> holds (f u) = Some i} = card ?R + of_bool (holds (f t) = Some i)"
    if "\<And>u. u \<noteq> t \<Longrightarrow> f u = stage w u" for f using split [OF that] fin by simp
  from this [of "stage w"] this [of "stage (goes w s t y)"] show ?thesis by (simp add: holders_def)
qed

lemma holders_le: "holders n w i \<le> n"
  unfolding holders_def by (rule order_trans [OF card_mono [of "{..<n}"]]) auto

definition counted :: "nat \<Rightarrow> 'p World \<Rightarrow> bool" where
  "counted n w \<longleftrightarrow> index_inv (mem w) \<and> (\<forall>i. leases_of i (mem w) = word_of_nat (holders n w i))"

lemma counted_same:
  assumes "counted n w" "same_leases (mem w) s" "t < n" "holds y = holds (stage w t)" "index_inv s"
  shows "counted n (goes w s t y)"
  using assms holders_goes [OF assms(3), of w s y] by (simp add: counted_def same_leases_def)

lemma counted_step:
  assumes "world_step env n job w w'" and "counted n w" and "n < 2 ^ 64"
  shows "counted n w'"
  using assms(1)
proof cases
  case (own t x s)
  let ?x = "stage w t"
  have inv: "index_inv s" using section_evolves [OF own(3)] assms(2) by (simp add: evolves_def counted_def)
  note h = holders_goes [OF own(2), of w s x]
  consider q i where "job t = Acquire q" "?x = Placed i" | l where "?x = Holding l"
    | "\<And>q i. job t = Acquire q \<Longrightarrow> ?x = Placed i \<Longrightarrow> False" "\<And>l. ?x = Holding l \<Longrightarrow> False"
    by blast
  then show ?thesis
  proof cases
    case (1 q i)
    then consider "same_leases (mem w) s" "holds x = holds ?x"
      | "holds ?x = None" "holds x = Some i" "\<forall>j. leases_of j s = leases_of j (mem w) + of_bool (j = i)"
      using section_grant [of env q i "mem w" x s] own(3) by auto
    then show ?thesis
    proof cases
      case 1
      then show ?thesis using counted_same [OF assms(2)] own inv by simp
    next
      case 2
      then show ?thesis using h assms(2) inv own(1) by (auto simp: counted_def eq_commute [of i])
    qed
  next
    case (2 l)
    consider "same_leases (mem w) s" "holds x = holds ?x"
      | l' where "holds x = None" "lease_release l (mem w) = (l', s)"
      using section_holding [of env "job t" l "mem w" x s] own(3) 2 by auto
    then show ?thesis
    proof cases
      case 1
      then show ?thesis using counted_same [OF assms(2)] own inv by simp
    next
      case rel: (2 l')
      have "leases_of i s = word_of_nat (holders n w' i)" for i
      proof -
        have c: "leases_of i (mem w) = word_of_nat (holders n w i)" using assms(2) by (simp add: counted_def)
        have "holders n w i < 2 ^ 64" using holders_le [of n w i] assms(3) by simp
        then have "leases_of i (mem w) > 0" if "holders n w i > 0"
          using that c by (auto simp: word_gt_0 word_of_nat_eq_0_iff dest: dvd_imp_le)
        moreover have "holders n w i = holders n w' i + of_bool (lease_valid l \<and> lease_artifact_id l = i)"
          using h [of i] rel(1) 2 own(1) by (auto split: if_splits)
        ultimately show ?thesis
          using leases_release [OF rel(2), of i] c by (cases "lease_valid l \<and> lease_artifact_id l = i") auto
      qed
      then show ?thesis using inv own(1) by (simp add: counted_def)
    qed
  next
    case 3
    then have "holds ?x = None" by (cases ?x) auto
    with section_neutral [OF own(3) _ 3] show ?thesis using counted_same [OF assms(2)] own inv by simp
  qed
next
  case (other x c)
  have "index_inv (cache c)" "same_leases (mem w) (cache c)"
    using exec_neutral [OF other(2,3)] evolves_exec [OF other(2)] assms(2) by (auto simp: counted_def evolves_def)
  then show ?thesis using other(1) assms(2) by (simp add: counted_def same_leases_def holders_def)
qed


lemma counted_steps: "(world_step env n job)\<^sup>*\<^sup>* w w' \<Longrightarrow> counted n w \<Longrightarrow> n < 2 ^ 64 \<Longrightarrow> counted n w'"
  by (induction rule: rtranclp_induct) (auto intro: counted_step)

lemma counted_start: "index_inv s \<Longrightarrow> (\<And>i. leases_of i s = 0) \<Longrightarrow> counted n (world_start s)"
  by (simp add: counted_def world_start_def holders_def)

text \<open>A lease that a step hands out is on an artifact that is usable in that very step.\<close>

lemma new_holder_usable:
  assumes "world_step env n job w w'" and "holds (stage w' t) = Some i" and "holds (stage w t) \<noteq> Some i"
  shows "\<exists>r. find_rec i (mem w) = Some r \<and> usable r"
  using assms(1)
proof cases
  case (own u x s)
  have u: "t = u" "holds x = Some i" using own(1) assms(2,3) by (auto split: if_splits)
  show ?thesis
  proof (cases "\<exists>q j. job u = Acquire q \<and> stage w u = Placed j")
    case True
    then show ?thesis using section_grant own(3) u by fastforce
  next
    case False
    then have "\<exists>l. stage w u = Holding l"
      using section_neutral [OF own(3)] u(2) by (cases "stage w u") auto
    then show ?thesis using section_holding [of env "job u" _ "mem w" x s] own(3) u assms(3) by auto
  qed
next
  case (other x c)
  then show ?thesis using assms(2,3) by simp
qed

lemma dead_stays:
  assumes "(world_step env n job)\<^sup>*\<^sup>* w w'" and "index_inv (mem w)" and "find_rec i (mem w) = Some r" and "\<not> usable r"
  shows "\<exists>r'. find_rec i (mem w') = Some r' \<and> \<not> usable r'"
  using steps_evolves [OF assms(1)] assms(2-4) by (auto simp: evolves_def record_evolves_def)

lemma no_new_holder:
  assumes "(world_step env n job)\<^sup>*\<^sup>* w w'" and "index_inv (mem w)" and "find_rec i (mem w) = Some r" and "\<not> usable r"
    and "holds (stage w' t) = Some i"
  shows "holds (stage w t) = Some i"
  using assms(1,5)
proof (induction rule: rtranclp_induct)
  case (step u v)
  have "holds (stage u t) = Some i"
    using dead_stays [OF step.hyps(1) assms(2-4)] new_holder_usable [OF step.hyps(2) step.prems] by fastforce
  then show ?case by (rule step.IH)
qed simp

text \<open>Marking a record that was never leased makes it unusable.\<close>

lemma marked_unusable:
  assumes "rec_ok r" and "rec_state r \<noteq> AS_InUse"
  shows "\<not> usable (evict_begin_update r)"
  using assms by (cases "rec_state r")
    (auto simp: evict_begin_update_def try_state_def usable_def is_eligible_def rec_ok_def published_state_def successors)

lemma mark_success:
  "evict_mark i force s = (Inr u, s') \<Longrightarrow> find_rec i s = Some r \<Longrightarrow>
    lease_count r = 0 \<and> find_rec i s' = Some (evict_begin_update r)"
  by (auto simp: evict_mark_def word_gt_0 split: if_splits)

subsection \<open>Properties\<close>

text \<open>
  C4. Lease counters are exact under concurrency: in every interleaving of the sections of any number of
  acquiring, evicting and releasing threads with any other operations, the lease counter of every
  record is the number of threads that hold a valid lease on it.
\<close>

theorem concurrent_lease_count:
  assumes "(world_step env n job)\<^sup>*\<^sup>* (world_start s) w" and "index_inv s" and "\<And>i. leases_of i s = 0" and "n < 2 ^ 64"
    and "find_rec i (mem w) = Some r"
  shows "unat (lease_count r) = holders n w i"
proof -
  have "counted n w" using counted_steps [OF assms(1) counted_start assms(4)] assms(2,3) by blast
  then have "lease_count r = word_of_nat (holders n w i)"
    using assms(5) by (auto simp: counted_def leases_of_def dest: spec [of _ i])
  then show ?thesis using holders_le [of n w i] assms(4) by (simp add: unat_of_nat)
qed

text \<open>
  C5. In every interleaving, once an artifact is unusable no thread obtains a lease on it any more, not
  even one whose lookup had chosen it before: the check under the lock in \<^verbatim>\<open>grant_lease\<close> decides.
  Threads that held a lease before may keep it.
\<close>

theorem no_lease_after_death:
  assumes "(world_step env n job)\<^sup>*\<^sup>* (world_start s) w" and "index_inv s"
    and "find_rec i (mem w) = Some r" and "\<not> usable r" and "(world_step env n job)\<^sup>*\<^sup>* w w'"
    and "holds (stage w' t) = Some i"
  shows "holds (stage w t) = Some i"
proof -
  have "index_inv (mem w)" using steps_evolves [OF assms(1)] assms(2) by (simp add: evolves_def world_start_def)
  then show ?thesis using no_new_holder [OF assms(5) _ assms(3,4,6)] by blast
qed

text \<open>
  C6. Eviction excludes leases on an artifact that has not been leased before: once a thread has passed
  the first section of \<^verbatim>\<open>evict_impl\<close> on it, no thread holds a lease on it, now or after any further steps of
  anyone, so that the unload and the demotion that follow take it away from nobody.
\<close>

theorem marked_never_leased:
  assumes "(world_step env n job)\<^sup>*\<^sup>* (world_start s) w" and "index_inv s" and "\<And>i. leases_of i s = 0" and "n < 2 ^ 64"
    and "find_rec i (mem w) = Some r" and "rec_state r \<noteq> AS_InUse"
    and "evict_mark i force (mem w) = (ok, m)" and "(world_step env n job)\<^sup>*\<^sup>* (goes w m t (Marked i k)) w'" and "u < n"
  shows "holds (stage w' u) \<noteq> Some i"
proof
  assume "holds (stage w' u) = Some i"
  let ?v = "goes w m t (Marked i k)"
  have c: "counted n w" using counted_steps [OF assms(1) counted_start assms(4)] assms(2,3) by blast
  have m: "lease_count r = 0" "find_rec i (mem ?v) = Some (evict_begin_update r)"
    using mark_success [OF assms(7,5)] by auto
  have inv: "index_inv (mem ?v)" using evolves_mark [OF assms(7)] c by (simp add: evolves_def counted_def)
  have "\<not> usable (evict_begin_update r)"
    using marked_unusable assms(5,6) c index_inv_find by (blast intro: counted_def [THEN iffD1, THEN conjunct1])
  with no_new_holder [OF assms(8) inv m(2)] \<open>holds (stage w' u) = Some i\<close> have "holds (stage ?v u) = Some i" by blast
  then have "holds (stage w u) = Some i" by (auto split: if_splits)
  then have "holders n w i > 0" using assms(9) by (auto simp: holders_def card_gt_0_iff)
  moreover have "word_of_nat (holders n w i) = (0 :: u64)"
    using c m(1) assms(5) by (auto simp: counted_def leases_of_def dest: spec [of _ i])
  ultimately show False
    using holders_le [of n w i] assms(4) by (auto simp: word_of_nat_eq_0_iff dest: dvd_imp_le)
qed


subsection \<open>Schedules\<close>

lemma play:
  "(world_step env n job)\<^sup>*\<^sup>* v w \<Longrightarrow> t < n \<Longrightarrow> thread_section env (job t) (stage w t) (mem w) = (x, s) \<Longrightarrow>
    (world_step env n job)\<^sup>*\<^sup>* v (goes w s t x)"
  by (blast intro: rtranclp.rtrancl_into_rtrancl world_step.own)

text \<open>A cache with the sample artifact alone, its record and the loader calls so far.\<close>

definition only :: "'p Impl \<Rightarrow> ArtifactRecord \<Rightarrow> ModuleCall list \<Rightarrow> bool" where
  "only s r cs \<longleftrightarrow> index_inv s \<and> by_id s = [(sample_id, r)] \<and> backends s = [(''text'', text_backend)] \<and> module_calls s = cs"

lemma onlyD:
  "only s r cs \<Longrightarrow> find_rec i s = (if i = sample_id then Some r else None)"
  "only s r cs \<Longrightarrow> device_loader k s = Some (''text'', the (loader text_backend))"
  by (auto simp: only_def find_rec_def demo_loader)

lemma only_section:
  assumes "only s r cs" and "thread_section env j x s = (y, s')"
    and "by_id s' = [(sample_id, r')]" "backends s' = backends s" "module_calls s' = cs'"
  shows "only s' r' cs'"
  using assms section_evolves [OF assms(2)] by (simp add: only_def evolves_def)

lemma only_lookup:
  assumes "only s r cs" and "usable r" "validated r" "rec_key r = derive (canonicalize matmul_key)"
  shows "\<exists>s'. thread_section env (Acquire demo_request) Ready s = (Chosen sample_id, s') \<and> only s' r cs"
proof -
  have q: "final_request demo_request = demo_request" by (simp add: final_request_def)
  obtain res s' where l: "lookup_impl env demo_request s = (res, s')" by fastforce
  have inv: "index_inv s" using assms(1) by (simp add: only_def)
  have "r \<in> candidate_records (derive (canonicalize matmul_key)) s"
    by (rule candidate_exactI [OF inv]) (use onlyD(1) [OF assms(1)] assms index_inv_find [OF inv] in auto)
  moreover have "acceptable demo_request r"
    using evaluate_same [of "derive (canonicalize matmul_key)" "derive (canonicalize matmul_key)"] assms
    by (simp add: acceptable_def)
  moreover have "rec_id x = sample_id" if "x \<in> candidate_records k s" for x k
    using that onlyD(1) [OF assms(1)] by (auto simp: candidate_records_def split: if_splits)
  ultimately obtain dec where d: "res = Inr dec" "is_hit dec" "lr_artifact dec = Some sample_id"
    using lookup_cases [OF inv _ l] by (auto simp: sample_keys_ok)
  have run: "thread_section env (Acquire demo_request) Ready s = (Chosen sample_id, s')" using l d q by simp
  have "by_id s' = by_id s" "backends s' = backends s" "module_calls s' = module_calls s"
    using lookup_frame [OF l] l
    by (auto simp: same_records_def lookup_impl_def lookup_hit_def lookup_miss_def now_ns_def Let_def split: if_splits option.splits)
  with only_section [OF assms(1) run] assms(1) have "only s' r cs" by (simp add: only_def)
  with run show ?thesis by blast
qed

lemma only_chosen:
  "only s r cs \<Longrightarrow> thread_section env (Acquire demo_request) (Chosen sample_id) s = (Placed sample_id, s)"
  by (simp add: onlyD)

lemma only_grant:
  assumes "only s r cs" and "usable r"
  shows "\<exists>l t s'. thread_section env (Acquire demo_request) (Placed sample_id) s = (Holding l, s') \<and>
    holds (Holding l) = Some sample_id \<and> only s' (grant_update t False r) cs"
proof -
  have q: "final_request demo_request = demo_request" by (simp add: final_request_def)
  obtain l s' where g: "grant_lease env sample_id demo_request s = (Inr l, s')" "holds (Holding l) = Some sample_id"
    "by_id s' = [(sample_id, grant_update (clk env (ticks s)) False r)]" "backends s' = backends s" "module_calls s' = cs"
    using assms onlyD(1) [OF assms(1)]
    by (auto simp: grant_lease_def lease_eligible_usable now_ns_def modify_def Let_def only_def lease_valid_def lease_artifact_id_def)
  have run: "thread_section env (Acquire demo_request) (Placed sample_id) s = (Holding l, s')" using g(1) q by simp
  from only_section [OF assms(1) run g(3,4,5)] run g(2) show ?thesis by blast
qed

lemma only_release:
  assumes "only s r cs" and "holds (Holding l) = Some sample_id"
  shows "\<exists>s'. thread_section env (Acquire demo_request) (Holding l) s = (Finished, s') \<and> only s' (release_update r) cs"
proof -
  obtain s' where g: "snd (lease_release l s) = s'" by blast
  have run: "thread_section env (Acquire demo_request) (Holding l) s = (Finished, s')" using g by simp
  have "by_id s' = [(sample_id, release_update r)]" "backends s' = backends s" "module_calls s' = cs"
    using g assms by (auto simp: lease_release_def on_lease_release_def only_def modify_def Let_def lease_valid_def
        lease_artifact_id_def split: option.splits if_splits)
  from only_section [OF assms(1) run this] run show ?thesis by blast
qed

lemma only_mark:
  assumes "only s r cs" and "\<not> held r"
  shows "\<exists>s'. thread_section env (Evict sample_id False) Ready s = (Marked sample_id None, s') \<and> only s' (evict_begin_update r) cs"
proof -
  let ?s = "modify sample_id evict_begin_update s"
  have run: "thread_section env (Evict sample_id False) Ready s = (Marked sample_id None, ?s)"
    using assms onlyD(1) [OF assms(1)] by (simp add: evict_mark_def held_def)
  from only_section [OF assms(1) run, of "evict_begin_update r" cs] run assms(1) show ?thesis
    by (auto simp: only_def modify_def)
qed

lemma only_unload:
  assumes "only s r cs" and "native_handle r = Some m"
  shows "\<exists>s'. thread_section env (Evict sample_id False) (Marked sample_id None) s = (Cleared sample_id None, s') \<and>
    only s' r (cs @ [Unloaded ''text'' m])"
proof -
  have run: "thread_section env (Evict sample_id False) (Marked sample_id None) s = (Cleared sample_id None, unload_module sample_id s)"
    by simp
  have "module_calls (unload_module sample_id s) = cs @ [Unloaded ''text'' m]"
    using assms onlyD [OF assms(1)] by (auto simp: unload_module_def note_unload_def only_def)
  from only_section [OF assms(1) run _ _ this, of r] run assms(1) show ?thesis by (auto simp: only_def)
qed

lemma only_clear:
  assumes "only s r cs"
  shows "\<exists>s'. thread_section env (Evict sample_id False) (Cleared sample_id None) s = (Finished, s') \<and>
    only s' (evict_end_update r) cs"
proof -
  have run: "thread_section env (Evict sample_id False) (Cleared sample_id None) s = (Finished, evict_clear env sample_id s)"
    by simp
  from only_section [OF assms(1) run, of "evict_end_update r" cs] run assms(1) show ?thesis
    by (auto simp: only_def evict_clear_def modify_def Let_def)
qed


definition loaded_cache :: "StoredArtifact list Impl" where
  "loaded_cache = snd (the (cache_load sample_env sample_id (cache demo)))"

lemma only_loaded: "only loaded_cache loaded_record [Loaded ''text'' 3]"
proof -
  obtain h s where s: "cache_load sample_env sample_id (cache demo) = Some (Inr h, s)" "by_id s = [(sample_id, loaded_record)]"
    "backends s = [(''text'', text_backend)]" "module_calls s = [Loaded ''text'' 3]"
    using demo_load by blast
  moreover have "index_inv s" using evolves_load [OF s(1)] demo_index_inv by (simp add: evolves_def)
  ultimately show ?thesis by (simp add: only_def loaded_cache_def)
qed

lemma loaded_record_more [simp]:
  "rec_state loaded_record = AS_Valid" "usable loaded_record" "validated loaded_record" "\<not> held loaded_record"
  by (simp_all add: loaded_record_def device_update_def try_state_def successors usable_def is_eligible_def held_def)

text \<open>The record after a first lease has come and gone: still \<^verbatim>\<open>InUse\<close>, which eviction cannot mark.\<close>

definition used_record :: "u64 \<Rightarrow> ArtifactRecord" where
  "used_record t = release_update (grant_update t False loaded_record)"

lemma used_record_sel [simp]:
  "usable (used_record t)" "validated (used_record t)" "rec_key (used_record t) = derive (canonicalize matmul_key)"
  "\<not> held (used_record t)" "evict_begin_update (used_record t) = used_record t" "native_handle (used_record t) = Some 3"
  "rec_tier (used_record t) = RT_DeviceResident" "\<not> persistent (used_record t)"
  by (simp_all add: used_record_def release_update_def grant_update_def evict_begin_update_def try_state_def
      successors usable_def is_eligible_def held_def Let_def loaded_record_def device_update_def demo_record_def make_record_def)

text \<open>Parts of a schedule: thread \<open>t\<close> runs, the others stand still.\<close>

definition plays ::
  "'p Env \<Rightarrow> nat \<Rightarrow> (nat \<Rightarrow> Job) \<Rightarrow> nat \<Rightarrow> 'p World \<Rightarrow> 'p World \<Rightarrow> bool" where
  "plays env n job t w w' \<longleftrightarrow> (world_step env n job)\<^sup>*\<^sup>* w w' \<and> (\<forall>u. u \<noteq> t \<longrightarrow> stage w' u = stage w u)"

lemma plays_one:
  "t < n \<Longrightarrow> thread_section env (job t) (stage w t) (mem w) = (x, s) \<Longrightarrow> plays env n job t w (goes w s t x)"
  by (auto simp: plays_def intro: world_step.own)

lemma plays_trans: "plays env n job t u v \<Longrightarrow> plays env n job t v w \<Longrightarrow> plays env n job t u w"
  by (auto simp: plays_def)

lemma plays_steps: "plays env n job t w w' \<Longrightarrow> (world_step env n job)\<^sup>*\<^sup>* v w \<Longrightarrow> (world_step env n job)\<^sup>*\<^sup>* v w'"
  by (auto simp: plays_def)

lemma play_place:
  assumes "t < n" "job t = Acquire demo_request" "stage w t = Ready" "only (mem w) r cs"
    and "usable r" "validated r" "rec_key r = derive (canonicalize matmul_key)"
  shows "\<exists>w'. plays env n job t w w' \<and> stage w' t = Placed sample_id \<and> only (mem w') r cs"
proof -
  obtain s where a: "thread_section env (Acquire demo_request) Ready (mem w) = (Chosen sample_id, s)" "only s r cs"
    using only_lookup [OF assms(4-7)] by blast
  let ?v = "goes w s t (Chosen sample_id)"
  have "plays env n job t w ?v" by (rule plays_one) (use assms a in auto)
  moreover have "plays env n job t ?v (goes ?v s t (Placed sample_id))"
    by (rule plays_one) (use assms only_chosen [OF a(2)] in auto)
  ultimately show ?thesis using a(2) plays_trans by (intro exI [of _ "goes ?v s t (Placed sample_id)"]) auto
qed

lemma play_grant:
  assumes "t < n" "job t = Acquire demo_request" "stage w t = Placed sample_id" "only (mem w) r cs" "usable r"
  shows "\<exists>w' u l. plays env n job t w w' \<and> stage w' t = Holding l \<and> holds (Holding l) = Some sample_id \<and>
    only (mem w') (grant_update u False r) cs"
proof -
  obtain l u s where a: "thread_section env (Acquire demo_request) (Placed sample_id) (mem w) = (Holding l, s)"
    "holds (Holding l) = Some sample_id" "only s (grant_update u False r) cs"
    using only_grant [OF assms(4,5)] by blast
  have "plays env n job t w (goes w s t (Holding l))" by (rule plays_one) (use assms a in auto)
  then show ?thesis using a by (intro exI [of _ "goes w s t (Holding l)"] exI [of _ u] exI [of _ l]) auto
qed

lemma play_release:
  assumes "t < n" "job t = Acquire demo_request" "stage w t = Holding l" "holds (Holding l) = Some sample_id" "only (mem w) r cs"
  shows "\<exists>w'. plays env n job t w w' \<and> stage w' t = Finished \<and> only (mem w') (release_update r) cs"
proof -
  obtain s where a: "thread_section env (Acquire demo_request) (Holding l) (mem w) = (Finished, s)" "only s (release_update r) cs"
    using only_release [OF assms(5,4)] by blast
  have "plays env n job t w (goes w s t Finished)" by (rule plays_one) (use assms a in auto)
  then show ?thesis using a by (intro exI [of _ "goes w s t Finished"]) auto
qed

lemma play_mark:
  assumes "t < n" "job t = Evict sample_id False" "stage w t = Ready" "only (mem w) r cs" "\<not> held r"
  shows "\<exists>w'. plays env n job t w w' \<and> stage w' t = Marked sample_id None \<and> only (mem w') (evict_begin_update r) cs"
proof -
  obtain s where a: "thread_section env (Evict sample_id False) Ready (mem w) = (Marked sample_id None, s)"
    "only s (evict_begin_update r) cs"
    using only_mark [OF assms(4,5)] by blast
  have "plays env n job t w (goes w s t (Marked sample_id None))" by (rule plays_one) (use assms a in auto)
  then show ?thesis using a by (intro exI [of _ "goes w s t (Marked sample_id None)"]) auto
qed

lemma play_unload:
  assumes "t < n" "job t = Evict sample_id False" "stage w t = Marked sample_id None" "only (mem w) r cs" "native_handle r = Some m"
  shows "\<exists>w'. plays env n job t w w' \<and> stage w' t = Cleared sample_id None \<and> only (mem w') r (cs @ [Unloaded ''text'' m])"
proof -
  obtain s where a: "thread_section env (Evict sample_id False) (Marked sample_id None) (mem w) = (Cleared sample_id None, s)"
    "only s r (cs @ [Unloaded ''text'' m])"
    using only_unload [OF assms(4,5)] by blast
  have "plays env n job t w (goes w s t (Cleared sample_id None))" by (rule plays_one) (use assms a in auto)
  then show ?thesis using a by (intro exI [of _ "goes w s t (Cleared sample_id None)"]) auto
qed

lemma play_clear:
  assumes "t < n" "job t = Evict sample_id False" "stage w t = Cleared sample_id None" "only (mem w) r cs"
  shows "\<exists>w'. plays env n job t w w' \<and> stage w' t = Finished \<and> only (mem w') (evict_end_update r) cs"
proof -
  obtain s where a: "thread_section env (Evict sample_id False) (Cleared sample_id None) (mem w) = (Finished, s)"
    "only s (evict_end_update r) cs"
    using only_clear [OF assms(4)] by blast
  have "plays env n job t w (goes w s t Finished)" by (rule plays_one) (use assms a in auto)
  then show ?thesis using a by (intro exI [of _ "goes w s t Finished"]) auto
qed

definition race_jobs :: "nat \<Rightarrow> Job" where
  "race_jobs t = (if t = 1 then Evict sample_id False else Acquire demo_request)"

lemma race_start: "only (mem (world_start loaded_cache)) loaded_record [Loaded ''text'' 3]" "stage (world_start s) t = Ready"
  using only_loaded by (simp_all add: world_start_def)

text \<open>
  Eviction can take an artifact away from a client that holds a valid lease: thread 1 passes the check of
  \<^verbatim>\<open>evict_impl\<close>, thread 2 is granted a lease, then thread 1 unloads the module and demotes the record.
  It takes a record that was leased before, because its state \<^verbatim>\<open>InUse\<close> is eligible and is not marked
  as pending.
\<close>

theorem eviction_races_lease:
  "\<exists>w r. (world_step sample_env 3 race_jobs)\<^sup>*\<^sup>* (world_start loaded_cache) w \<and> holds (stage w 2) = Some sample_id \<and>
    find_rec sample_id (mem w) = Some r \<and> native_handle r = None \<and> rec_tier r = RT_MetadataOnly \<and>
    unloads (module_calls (mem w)) = {#(''text'', 3)#}"
proof -
  let ?p = "plays sample_env 3 race_jobs"
  have j [simp]: "race_jobs 0 = Acquire demo_request" "race_jobs (Suc 0) = Evict sample_id False"
    "race_jobs 2 = Acquire demo_request"
    by (simp_all add: race_jobs_def)
  obtain a where a: "?p 0 (world_start loaded_cache) a" "stage a 0 = Placed sample_id" "only (mem a) loaded_record [Loaded ''text'' 3]"
    using play_place [where t = "0" and n = 3 and job = race_jobs and env = sample_env, OF _ j(1) race_start(2,1)] by force
  obtain b u l where b: "?p 0 a b" "stage b 0 = Holding l" "holds (Holding l) = Some sample_id"
    "only (mem b) (grant_update u False loaded_record) [Loaded ''text'' 3]"
    using play_grant [where t = "0" and n = 3 and job = race_jobs and env = sample_env, OF _ j(1) a(2,3)] by force
  obtain c where c: "?p 0 b c" "only (mem c) (used_record u) [Loaded ''text'' 3]"
    using play_release [where t = "0" and n = 3 and job = race_jobs and env = sample_env, OF _ j(1) b(2,3,4)] by (force simp: used_record_def)
  have c12: "stage c (Suc 0) = Ready" "stage c 2 = Ready" using a b c by (auto simp: plays_def race_start)
  obtain d where d: "?p (Suc 0) c d" "stage d (Suc 0) = Marked sample_id None" "only (mem d) (used_record u) [Loaded ''text'' 3]"
    using play_mark [where t = "Suc 0" and n = 3 and job = race_jobs and env = sample_env, OF _ j(2) c12(1) c(2)] by force
  obtain e where e: "?p 2 d e" "stage e 2 = Placed sample_id" "only (mem e) (used_record u) [Loaded ''text'' 3]"
    using play_place [where t = "2" and n = 3 and job = race_jobs and env = sample_env, OF _ j(3) _ d(3)] c12(2) d(1) by (force simp: plays_def)
  let ?r = "\<lambda>v. grant_update v False (used_record u)"
  obtain f v l' where f: "?p 2 e f" "stage f 2 = Holding l'" "holds (Holding l') = Some sample_id" "only (mem f) (?r v) [Loaded ''text'' 3]"
    using play_grant [where t = "2" and n = 3 and job = race_jobs and env = sample_env, OF _ j(3) e(2,3)] by force
  have r: "native_handle (?r v) = Some 3" "rec_tier (?r v) = RT_DeviceResident" "\<not> persistent (?r v)"
    by (simp_all add: grant_update_def Let_def)
  obtain g where g: "?p (Suc 0) f g" "stage g (Suc 0) = Cleared sample_id None" "only (mem g) (?r v) ([Loaded ''text'' 3] @ [Unloaded ''text'' 3])"
    using play_unload [where t = "Suc 0" and n = 3 and job = race_jobs and env = sample_env, OF _ j(2) _ f(4) r(1)] d(2) e(1) f(1) by (force simp: plays_def)
  obtain h where h: "?p (Suc 0) g h" "only (mem h) (evict_end_update (?r v)) ([Loaded ''text'' 3] @ [Unloaded ''text'' 3])"
    using play_clear [where t = "Suc 0" and n = 3 and job = race_jobs and env = sample_env, OF _ j(2) g(2,3)] by force
  have "(world_step sample_env 3 race_jobs)\<^sup>*\<^sup>* (world_start loaded_cache) h"
    by (intro rtranclp.rtrancl_refl plays_steps [OF h(1)] plays_steps [OF g(1)] plays_steps [OF f(1)] plays_steps [OF e(1)]
        plays_steps [OF d(1)] plays_steps [OF c(1)] plays_steps [OF b(1)] plays_steps [OF a(1)])
  moreover have "stage h 2 = Holding l'" using f(2) g(1) h(1) by (auto simp: plays_def)
  ultimately show ?thesis
    using f(3) h(2) onlyD(1) [OF h(2), of sample_id] r
    by (intro exI [of _ h]) (auto simp: only_def evict_end_update_def demoted_tier_def try_state_def Let_def)
qed


text \<open>Two evictions of one artifact at the same time unload its module twice.\<close>

theorem concurrent_evictions_unload_twice:
  "\<exists>w. (world_step sample_env 2 (\<lambda>t. Evict sample_id False))\<^sup>*\<^sup>* (world_start loaded_cache) w \<and>
    loads (module_calls (mem w)) = {#(''text'', 3)#} \<and> unloads (module_calls (mem w)) = {#(''text'', 3), (''text'', 3)#}"
proof -
  let ?job = "\<lambda>t::nat. Evict sample_id False"
  let ?p = "plays sample_env 2 ?job"
  let ?r = "evict_begin_update loaded_record"
  have r [simp]: "evict_begin_update ?r = ?r" "\<not> held ?r" "native_handle ?r = Some 3"
    by (simp_all add: evict_begin_update_def try_state_def successors held_def)
  obtain a where a: "?p 0 (world_start loaded_cache) a" "stage a 0 = Marked sample_id None" "only (mem a) ?r [Loaded ''text'' 3]"
    using play_mark [where t = 0 and n = 2 and job = ?job and env = sample_env, OF _ refl race_start(2,1)] by force
  have a1: "stage a (Suc 0) = Ready" using a(1) by (simp add: plays_def race_start)
  obtain b where b: "?p (Suc 0) a b" "stage b (Suc 0) = Marked sample_id None" "only (mem b) ?r [Loaded ''text'' 3]"
    using play_mark [where t = "Suc 0" and n = 2 and job = ?job and env = sample_env, OF _ refl a1 a(3)] by force
  have b0: "stage b 0 = Marked sample_id None" using a(2) b(1) by (simp add: plays_def)
  obtain c where c: "?p 0 b c" "only (mem c) ?r ([Loaded ''text'' 3] @ [Unloaded ''text'' 3])"
    using play_unload [where t = 0 and n = 2 and job = ?job and env = sample_env, OF _ refl b0 b(3) r(3)] by force
  have c1: "stage c (Suc 0) = Marked sample_id None" using b(2) c(1) by (simp add: plays_def)
  obtain d where d: "?p (Suc 0) c d" "only (mem d) ?r (([Loaded ''text'' 3] @ [Unloaded ''text'' 3]) @ [Unloaded ''text'' 3])"
    using play_unload [where t = "Suc 0" and n = 2 and job = ?job and env = sample_env, OF _ refl c1 c(2) r(3)] by force
  have "(world_step sample_env 2 ?job)\<^sup>*\<^sup>* (world_start loaded_cache) d"
    by (intro rtranclp.rtrancl_refl plays_steps [OF d(1)] plays_steps [OF c(1)] plays_steps [OF b(1)] plays_steps [OF a(1)])
  then show ?thesis using d(2) by (intro exI [of _ d]) (simp add: only_def)
qed

lemma only_no_leases: "only s r cs \<Longrightarrow> lease_count r = 0 \<Longrightarrow> leases_of i s = 0"
  by (simp add: leases_of_def onlyD)

theorem concurrent_lease_count_witness:
  "\<exists>w r. (world_step sample_env 3 race_jobs)\<^sup>*\<^sup>* (world_start loaded_cache) w \<and> find_rec sample_id (mem w) = Some r \<and>
    lease_count r = 1 \<and> holders 3 w sample_id = 1"
proof -
  have j: "race_jobs 0 = Acquire demo_request" by (simp add: race_jobs_def)
  obtain a where a: "plays sample_env 3 race_jobs 0 (world_start loaded_cache) a" "stage a 0 = Placed sample_id"
    "only (mem a) loaded_record [Loaded ''text'' 3]"
    using play_place [where t = 0 and n = 3 and job = race_jobs and env = sample_env, OF _ j race_start(2,1)] by force
  obtain b u where b: "plays sample_env 3 race_jobs 0 a b" "only (mem b) (grant_update u False loaded_record) [Loaded ''text'' 3]"
    using play_grant [where t = 0 and n = 3 and job = race_jobs and env = sample_env, OF _ j a(2,3)] by force
  have run: "(world_step sample_env 3 race_jobs)\<^sup>*\<^sup>* (world_start loaded_cache) b"
    by (intro rtranclp.rtrancl_refl plays_steps [OF b(1)] plays_steps [OF a(1)])
  have inv: "index_inv loaded_cache" using only_loaded by (simp add: only_def)
  have find: "find_rec sample_id (mem b) = Some (grant_update u False loaded_record)" using onlyD(1) [OF b(2)] by simp
  have "unat (lease_count (grant_update u False loaded_record)) = holders 3 b sample_id"
    by (rule concurrent_lease_count [OF run inv _ _ find]) (simp_all add: only_no_leases [OF only_loaded])
  then show ?thesis using run find by (intro exI [of _ b]) auto
qed

text \<open>The artifact is invalidated between the lookup of thread 0 and its grant.\<close>

theorem no_lease_after_death_witness:
  "\<exists>w r. (world_step sample_env 3 race_jobs)\<^sup>*\<^sup>* (world_start loaded_cache) w \<and> stage w 0 = Placed sample_id \<and>
    find_rec sample_id (mem w) = Some r \<and> \<not> usable r \<and>
    (\<forall>w'. (world_step sample_env 3 race_jobs)\<^sup>*\<^sup>* w w' \<longrightarrow> holds (stage w' 0) \<noteq> Some sample_id)"
proof -
  have j: "race_jobs 0 = Acquire demo_request" by (simp add: race_jobs_def)
  obtain a where a: "plays sample_env 3 race_jobs 0 (world_start loaded_cache) a" "stage a 0 = Placed sample_id"
    "only (mem a) loaded_record [Loaded ''text'' 3]"
    using play_place [where t = 0 and n = 3 and job = race_jobs and env = sample_env, OF _ j race_start(2,1)] by force
  let ?q = "InvalidationRequest_new\<lparr>target := IT_All\<rparr>"
  obtain res s where v: "invalidate_impl sample_env ?q (mem a) = (res, s)" by fastforce
  let ?w = "a\<lparr>mem := s\<rparr>"
  have "world_step sample_env 3 race_jobs a (a\<lparr>mem := cache \<lparr>cache = s, leases = []\<rparr>\<rparr>)"
    by (rule world_step.other [of _ "OpInvalidate ?q"]) (simp_all add: v)
  then have run: "(world_step sample_env 3 race_jobs)\<^sup>*\<^sup>* (world_start loaded_cache) ?w"
    using plays_steps [OF a(1) rtranclp.rtrancl_refl] by (simp add: rtranclp.rtrancl_into_rtrancl)
  have inv: "index_inv loaded_cache" "index_inv (mem a)" using only_loaded a(3) by (simp_all add: only_def)
  have find: "find_rec sample_id (mem ?w) = Some (invalidate_update loaded_record)"
    using invalidate_find [OF inv(2) v, of sample_id] onlyD(1) [OF a(3), of sample_id] by (simp add: invalidation_match_def)
  have dead: "\<not> usable (invalidate_update loaded_record)"
    by (auto simp: invalidate_update_def usable_def try_state_def Let_def)
  have "holds (stage w' 0) \<noteq> Some sample_id" if "(world_step sample_env 3 race_jobs)\<^sup>*\<^sup>* ?w w'" for w'
    using no_lease_after_death [OF run inv(1) find dead that, of 0] a(2) by auto
  then show ?thesis using run find dead a(2) by (intro exI [of _ ?w]) auto
qed


theorem marked_never_leased_witness:
  "\<exists>m. evict_mark sample_id False loaded_cache = (ok, m) \<and>
    (\<forall>w'. (world_step sample_env 3 race_jobs)\<^sup>*\<^sup>* (goes (world_start loaded_cache) m 1 (Marked sample_id None)) w' \<longrightarrow>
      holds (stage w' 2) \<noteq> Some sample_id)"
proof -
  have start: "mem (world_start loaded_cache) = loaded_cache" by (simp add: world_start_def)
  have find: "find_rec sample_id loaded_cache = Some loaded_record" using onlyD(1) [OF only_loaded] by simp
  let ?m = "modify sample_id evict_begin_update loaded_cache"
  have m: "evict_mark sample_id False loaded_cache = (ok, ?m)" using find by (simp add: evict_mark_def)
  have inv: "index_inv loaded_cache" using only_loaded by (simp add: only_def)
  have "holds (stage w' 2) \<noteq> Some sample_id"
    if "(world_step sample_env 3 race_jobs)\<^sup>*\<^sup>* (goes (world_start loaded_cache) ?m 1 (Marked sample_id None)) w'" for w'
    by (rule marked_never_leased [where r = loaded_record and force = False, OF rtranclp.rtrancl_refl inv _ _ _ _ _ that])
      (simp_all add: only_no_leases [OF only_loaded] start find m)
  with m show ?thesis by blast
qed

end
