(* ===== verification/KC_Base64.thy ===== *)
theory KC_Base64
  imports KC_Prelude
begin

unbundle bit_operations_syntax

text \<open>
  The base64 coder of \<^verbatim>\<open>src/persistence.cpp\<close>: a 32-bit accumulator that is never cleared, of which only
  the low bits are read, and a bit counter. The reference is the grouping of RFC 4648.
\<close>

definition kB64 :: string where
  "kB64 = ''ABCDEFGHIJKLMNOPQRSTUVWXYZabcdefghijklmnopqrstuvwxyz0123456789+/''"

text \<open>The inner \<^verbatim>\<open>while (bits >= 0)\<close> loop of the encoder; \<^verbatim>\<open>>>\<close> on \<^verbatim>\<open>int\<close> is the arithmetic shift.\<close>

function b64_flush :: "u32 \<Rightarrow> int \<Rightarrow> string \<Rightarrow> string \<times> int" where
  "b64_flush val bits out =
     (if bits \<ge> 0
      then b64_flush val (bits - 6) (out @ [kB64 ! unat (signed_drop_bit (nat bits) val AND 0x3f)])
      else (out, bits))"
  by auto
termination by (relation "measure (\<lambda>(_, bits, _). nat (bits + 1))") auto

declare b64_flush.simps [simp del]

definition b64_step :: "char \<Rightarrow> string \<times> u32 \<times> int \<Rightarrow> string \<times> u32 \<times> int" where
  "b64_step c st =
     (let (out, val, bits) = st;
          val = push_bit 8 val + ucast (byte_of_char c);
          (out, bits) = b64_flush val (bits + 8) out
      in (out, val, bits))"

function b64_pad :: "string \<Rightarrow> string" where
  "b64_pad out = (if length out mod 4 \<noteq> 0 then b64_pad (out @ [CHR ''='']) else out)"
  by auto
termination
proof (relation "measure (\<lambda>out. (4 - length out mod 4) mod 4)")
  fix out :: string
  assume "length out mod 4 \<noteq> 0"
  moreover have "length out mod 4 < 4" by simp
  ultimately consider "length out mod 4 = 1" | "length out mod 4 = 2" | "length out mod 4 = 3" by linarith
  then show "(out @ [CHR ''=''], out) \<in> measure (\<lambda>out. (4 - length out mod 4) mod 4)"
    by cases (simp_all add: mod_Suc)
qed simp

declare b64_pad.simps [simp del]

text \<open>What follows the loop over the input: the last digit and the padding.\<close>

definition b64_finish :: "string \<times> u32 \<times> int \<Rightarrow> string" where
  "b64_finish st =
     (let (out, val, bits) = st;
          out = (if bits > - 6
                 then out @ [kB64 ! unat (signed_drop_bit (nat (bits + 8)) (push_bit 8 val) AND 0x3f)] else out)
      in b64_pad out)"

definition b64encode :: "string \<Rightarrow> string" where
  "b64encode inp = b64_finish (fold b64_step inp ([], 0, - 6))"

text \<open>\<^verbatim>\<open>strchr\<close> also finds the terminating NUL, at the index of the string's length.\<close>

definition strchr :: "string \<Rightarrow> char \<Rightarrow> nat option" where
  "strchr s c = find (\<lambda>i. (s @ [CHR 0x00]) ! i = c) [0..<Suc (length s)]"

fun b64_loop :: "string \<Rightarrow> string \<Rightarrow> u32 \<Rightarrow> int \<Rightarrow> string" where
  "b64_loop [] out val bits = out"
| "b64_loop (c # cs) out val bits =
     (if c = CHR ''='' then out
      else case strchr kB64 c of
             None \<Rightarrow> []
           | Some p \<Rightarrow>
               let val = push_bit 6 val + word_of_nat p;
                   bits = bits + 6
               in if bits \<ge> 0
                  then b64_loop cs (out @ [char_of_byte (ucast (signed_drop_bit (nat bits) val AND 0xff))]) val (bits - 8)
                  else b64_loop cs out val bits)"

definition b64decode :: "string \<Rightarrow> string" where
  "b64decode inp = b64_loop inp [] 0 (- 8)"

subsection \<open>Reference definition\<close>

text \<open>The four six-bit digits of three bytes.\<close>

definition dig1 :: "u8 \<Rightarrow> u8" where "dig1 a = drop_bit 2 a"
definition dig2 :: "u8 \<Rightarrow> u8 \<Rightarrow> u8" where "dig2 a b = push_bit 4 (take_bit 2 a) OR drop_bit 4 b"
definition dig3 :: "u8 \<Rightarrow> u8 \<Rightarrow> u8" where "dig3 b c = push_bit 2 (take_bit 4 b) OR drop_bit 6 c"
definition dig4 :: "u8 \<Rightarrow> u8" where "dig4 c = take_bit 6 c"

definition b64_char :: "u8 \<Rightarrow> char" where
  "b64_char d = kB64 ! unat d"

fun b64_spec :: "bytes \<Rightarrow> string" where
  "b64_spec [] = []"
| "b64_spec [a] = [b64_char (dig1 a), b64_char (dig2 a 0), CHR ''='', CHR ''='']"
| "b64_spec [a, b] = [b64_char (dig1 a), b64_char (dig2 a b), b64_char (dig3 b 0), CHR ''='']"
| "b64_spec (a # b # c # r) =
     b64_char (dig1 a) # b64_char (dig2 a b) # b64_char (dig3 b c) # b64_char (dig4 c) # b64_spec r"

subsection \<open>Bits\<close>

lemma and_3f_take_bit: "w AND (0x3f :: 'a::len word) = take_bit 6 w"
  by (simp add: take_bit_eq_mask mask_eq_exp_minus_1)

lemma push_add_or:
  fixes v d :: u32
  assumes "take_bit n d = d"
  shows "push_bit n v + d = push_bit n v OR d"
proof -
  have "bit d i \<Longrightarrow> i < n" for i using assms by (metis bit_take_bit_iff)
  then have "push_bit n v AND d = 0" by (fastforce intro!: bit_word_eqI simp: bit_simps)
  then show ?thesis by (simp add: disjunctive_add_eq_or)
qed

lemma bit_byte: "bit (d :: u8) n \<longleftrightarrow> n < 8 \<and> bit d n"
  using bit_byte_less by blast

lemma bit_six: "take_bit 6 d = d \<Longrightarrow> bit (d :: u8) n \<longleftrightarrow> n < 6 \<and> bit d n"
  by (metis bit_take_bit_iff)

lemma take_ucast8: "take_bit 8 (ucast (a :: u8) :: u32) = ucast a"
  by (rule bit_word_eqI) (auto simp: bit_simps dest: bit_byte_less)

lemma take_ucast6: "take_bit 6 (a :: u8) = a \<Longrightarrow> take_bit 6 (ucast a :: u32) = ucast a"
  by (metis of_nat_unat take_bit_of_nat unsigned_take_bit_eq)

lemma six_bits [simp]:
  "take_bit 6 (dig1 a) = dig1 a" "take_bit 6 (dig2 a b) = dig2 a b" "take_bit 6 (dig3 a b) = dig3 a b"
  "take_bit 6 (dig4 a) = dig4 a"
  unfolding dig1_def dig2_def dig3_def dig4_def
  by (rule bit_word_eqI; simp add: bit_simps; subst (1 2) bit_byte; auto)+

lemma six_less: "take_bit 6 d = d \<Longrightarrow> unat (d :: u8) < 64"
proof -
  assume d: "take_bit 6 d = d"
  have "unat (take_bit 6 d) < 2 ^ 6" unfolding unsigned_take_bit_eq by (rule take_bit_nat_less_exp)
  then show ?thesis by (simp add: d)
qed

lemma encode_bits:
  fixes v :: u32
  defines "v1 a \<equiv> push_bit 8 v + ucast a"
  defines "v2 a b \<equiv> push_bit 8 (v1 a) + ucast b"
  defines "v3 a b c \<equiv> push_bit 8 (v2 a b) + ucast c"
  shows "signed_drop_bit 2 (v1 a) AND 0x3f = ucast (dig1 a)"
    and "signed_drop_bit 4 (v2 a b) AND 0x3f = ucast (dig2 a b)"
    and "signed_drop_bit 6 (v3 a b c) AND 0x3f = ucast (dig3 b c)"
    and "v3 a b c AND 0x3f = ucast (dig4 c)"
    and "signed_drop_bit 4 (push_bit 8 (v1 a)) AND 0x3f = ucast (dig2 a 0)"
    and "signed_drop_bit 6 (push_bit 8 (v2 a b)) AND 0x3f = ucast (dig3 b 0)"
  unfolding v1_def v2_def v3_def and_3f_take_bit push_add_or [OF take_ucast8] dig1_def dig2_def dig3_def dig4_def
  subgoal by (rule bit_word_eqI) (auto simp: bit_simps dest: bit_byte_less)
  subgoal by (rule bit_word_eqI) (auto simp: bit_simps dest: bit_byte_less)
  subgoal by (rule bit_word_eqI) (auto simp: bit_simps dest: bit_byte_less)
  subgoal by (rule bit_word_eqI) (auto simp: bit_simps dest: bit_byte_less)
  subgoal by (rule bit_word_eqI) (auto simp: bit_simps dest: bit_byte_less)
  subgoal by (rule bit_word_eqI) (auto simp: bit_simps dest: bit_byte_less)
  done

lemma two_minus_two: "Suc (Suc (n - 2)) = (if n < 2 then 2 else n)"
  by auto

lemma decode_bits:
  fixes v :: u32
  defines "d1 a \<equiv> push_bit 6 v + ucast (dig1 a)"
  defines "d2 a b \<equiv> push_bit 6 (d1 a) + ucast (dig2 a b)"
  defines "d3 a b c \<equiv> push_bit 6 (d2 a b) + ucast (dig3 b c)"
  defines "d4 a b c \<equiv> push_bit 6 (d3 a b c) + ucast (dig4 c)"
  shows "ucast (signed_drop_bit 4 (d2 a b) AND 0xff) = a"
    and "ucast (signed_drop_bit 2 (d3 a b c) AND 0xff) = b"
    and "ucast (d4 a b c AND 0xff) = c"
  unfolding d1_def d2_def d3_def d4_def and_ff_take_bit push_add_or [OF take_ucast6 [OF six_bits(1)]]
    push_add_or [OF take_ucast6 [OF six_bits(2)]] push_add_or [OF take_ucast6 [OF six_bits(3)]]
    push_add_or [OF take_ucast6 [OF six_bits(4)]]
  unfolding dig1_def dig2_def dig3_def dig4_def
  subgoal by (rule bit_word_eqI) (auto simp: bit_simps two_minus_two dest: bit_byte_less)
  subgoal by (rule bit_word_eqI) (auto simp: bit_simps dest: bit_byte_less)
  subgoal by (rule bit_word_eqI) (auto simp: bit_simps dest: bit_byte_less)
  done

subsection \<open>The encoder\<close>

lemma flush_steps:
  "b64_flush v (- 6) out = (out, - 6)" "b64_flush v (- 4) out = (out, - 4)" "b64_flush v (- 2) out = (out, - 2)"
  "b64_flush v 2 out = (out @ [kB64 ! unat (signed_drop_bit 2 v AND 0x3f)], - 4)"
  "b64_flush v 4 out = (out @ [kB64 ! unat (signed_drop_bit 4 v AND 0x3f)], - 2)"
  "b64_flush v 6 out = (out @ [kB64 ! unat (signed_drop_bit 6 v AND 0x3f), kB64 ! unat (v AND 0x3f)], - 6)"
  by (simp_all add: b64_flush.simps)

lemma unat_ucast_six [simp]: "unat (ucast (d :: u8) :: u32) = unat d"
  by (simp add: unsigned_ucast_eq take_bit_nat_eq_self order_less_trans [OF unsigned_less])

lemma step_three:
  "\<exists>v'. fold b64_step [c1, c2, c3] (out, v, - 6) =
     (out @ b64_spec [byte_of_char c1, byte_of_char c2, byte_of_char c3], v', - 6)"
  using encode_bits(1) [of v "byte_of_char c1"] encode_bits(2) [of v "byte_of_char c1" "byte_of_char c2"]
    encode_bits(3,4) [of v "byte_of_char c1" "byte_of_char c2" "byte_of_char c3"]
  by (simp add: b64_step_def Let_def flush_steps b64_char_def)

lemma pad_eq [simp]:
  "length out mod 4 = 0 \<Longrightarrow> b64_pad out = out"
  "length out mod 4 = 0 \<Longrightarrow> b64_pad (out @ [a, b]) = out @ [a, b, CHR ''='', CHR ''='']"
  "length out mod 4 = 0 \<Longrightarrow> b64_pad (out @ [a, b, c]) = out @ [a, b, c, CHR ''='']"
  by (simp_all add: b64_pad.simps mod_Suc)

lemma length_spec: "length (b64_spec bs) mod 4 = 0"
  by (induction bs rule: b64_spec.induct) simp_all

lemma finish_fold:
  "length out mod 4 = 0 \<Longrightarrow> b64_finish (fold b64_step s (out, v, - 6)) = out @ b64_spec (bytes_of_string s)"
proof (induction "bytes_of_string s" arbitrary: s out v rule: b64_spec.induct)
  case 1
  then have "s = []" by (simp add: bytes_of_string_def)
  with 1 show ?case by (simp add: b64_finish_def)
next
  case (2 a)
  then obtain c where s: "s = [c]" "byte_of_char c = a" by (auto simp: bytes_of_string_def)
  with 2 show ?case using encode_bits(1,5) [of v a]
    by (simp add: bytes_of_string_def b64_finish_def b64_step_def Let_def flush_steps b64_char_def)
next
  case (3 a b)
  then obtain c d where s: "s = [c, d]" "byte_of_char c = a" "byte_of_char d = b" by (auto simp: bytes_of_string_def)
  with 3 show ?case using encode_bits(1) [of v a] encode_bits(2,6) [of v a b]
    by (simp add: bytes_of_string_def b64_finish_def b64_step_def Let_def flush_steps b64_char_def)
next
  case (4 a b c r)
  then obtain c1 c2 c3 s' where s: "s = c1 # c2 # c3 # s'"
    by (auto simp: bytes_of_string_def)
  with 4(2) have abc: "byte_of_char c1 = a" "byte_of_char c2 = b" "byte_of_char c3 = c" "r = bytes_of_string s'"
    by (auto simp: bytes_of_string_def)
  obtain v' where v': "fold b64_step [c1, c2, c3] (out, v, - 6) = (out @ b64_spec [a, b, c], v', - 6)"
    using step_three abc by metis
  have "fold b64_step s (out, v, - 6) = fold b64_step s' (out @ b64_spec [a, b, c], v', - 6)"
    using v' by (simp add: s)
  then show ?case using 4(1) [of s' "out @ b64_spec [a, b, c]" v'] 4(3) abc
    by (simp add: s bytes_of_string_def)
qed

lemma b64encode_spec: "b64encode s = b64_spec (bytes_of_string s)"
  using finish_fold [of "[]" s 0] by (simp add: b64encode_def)

subsection \<open>The decoder\<close>

lemma strchr_b64_upto: "\<forall>i \<in> set [0..<64]. strchr kB64 (kB64 ! i) = Some i \<and> kB64 ! i \<noteq> CHR ''=''"
  by code_simp

lemma strchr_b64 [simp]:
  assumes "take_bit 6 d = d"
  shows "strchr kB64 (b64_char d) = Some (unat d)" and "b64_char d \<noteq> CHR ''=''"
  using strchr_b64_upto six_less [OF assms] by (auto simp: b64_char_def)

lemma loop_group:
  "\<exists>v'. b64_loop (b64_char (dig1 a) # b64_char (dig2 a b) # b64_char (dig3 b c) # b64_char (dig4 c) # cs) out v (- 8) =
     b64_loop cs (out @ [char_of_byte a, char_of_byte b, char_of_byte c]) v' (- 8)"
  using decode_bits(1) [of v a b] decode_bits(2,3) [of v a b c] by (auto simp: Let_def)

lemma loop_spec: "b64_loop (b64_spec bs) out v (- 8) = out @ string_of_bytes bs"
proof (induction bs arbitrary: out v rule: b64_spec.induct)
  case (4 a b c r)
  obtain v' where "b64_loop (b64_spec (a # b # c # r)) out v (- 8) =
    b64_loop (b64_spec r) (out @ [char_of_byte a, char_of_byte b, char_of_byte c]) v' (- 8)"
    using loop_group by fastforce
  with 4 show ?case by (simp add: string_of_bytes_def)
qed (simp_all add: decode_bits Let_def string_of_bytes_def)

lemma b64_spec_chars: "set (b64_spec bs) \<subseteq> insert (CHR ''='') (set kB64)"
proof -
  have k: "b64_char d \<in> set kB64" if "take_bit 6 d = d" for d
    using six_less [OF that] unfolding b64_char_def by (intro nth_mem) (simp add: kB64_def)
  show ?thesis by (induction bs rule: b64_spec.induct) (auto simp: k)
qed

text \<open>
  Base64 of the store: the encoder's output is the RFC 4648 encoding of the text, for every
  length and however often the 32-bit accumulator wraps, and the decoder gives back every byte.
\<close>

theorem base64_correct:
  "b64encode s = b64_spec (bytes_of_string s) \<and> b64decode (b64encode s) = s"
  by (simp add: b64encode_spec b64decode_def loop_spec)

lemma b64decode_encode [simp]: "b64decode (b64encode s) = s"
  by (simp add: b64encode_spec b64decode_def loop_spec)

lemma b64encode_chars: "set (b64encode s) \<subseteq> insert (CHR ''='') (set kB64)"
  by (simp add: b64encode_spec b64_spec_chars)

lemma b64encode_plain [simp]:
  "CHR 0x0A \<notin> set (b64encode s)" "CHR 0x0D \<notin> set (b64encode s)"
  using b64encode_chars [of s] by (auto simp: kB64_def)

end
