(* ===== verification/KC_Metadata.thy ===== *)
theory KC_Metadata
  imports KC_Base64 KC_Artifact
begin

text \<open>
  The metadata text of a stored artifact (\<^verbatim>\<open>build_meta\<close> and \<^verbatim>\<open>parse_artifact_inner\<close> of
  \<^verbatim>\<open>src/persistence.cpp\<close>): one \<^verbatim>\<open>name=value\<close> line per field and a checksum line. The reader accepts what the writer wrote, and whatever it accepts has the recorded length
  and checksums.
\<close>

subsection \<open>Library functions\<close>

definition eol :: char where
  "eol = CHR 0x0A"

text \<open>\<^verbatim>\<open>std::getline\<close> fails only when no character is left.\<close>

definition getline :: "char \<Rightarrow> string \<Rightarrow> (string \<times> string) option" where
  "getline d s = (if s = [] then None else Some (takeWhile (\<lambda>c. c \<noteq> d) s, drop 1 (dropWhile (\<lambda>c. c \<noteq> d) s)))"

function getlines :: "char \<Rightarrow> string \<Rightarrow> string list" where
  "getlines d s = (case getline d s of None \<Rightarrow> [] | Some (l, r) \<Rightarrow> l # getlines d r)"
  by auto
termination
proof (relation "measure (\<lambda>(d, s). length s)")
  fix d s x l r
  assume "getline d s = Some x" "(l, r) = x"
  then have "s \<noteq> []" and "r = drop 1 (dropWhile (\<lambda>c. c \<noteq> d) s)" by (auto simp: getline_def split: if_splits)
  moreover have "length (dropWhile (\<lambda>c. c \<noteq> d) s) \<le> length s" by (rule length_dropWhile_le)
  ultimately show "((d, r), (d, s)) \<in> measure (\<lambda>(d, s). length s)" by (cases s) auto
qed simp

declare getlines.simps [simp del]

definition is_space :: "char \<Rightarrow> bool" where
  "is_space c \<longleftrightarrow> c \<in> {CHR '' '', CHR 0x09, CHR 0x0A, CHR 0x0B, CHR 0x0C, CHR 0x0D}"

definition is_digit :: "char \<Rightarrow> bool" where
  "is_digit c \<longleftrightarrow> 48 \<le> (of_char c :: nat) \<and> (of_char c :: nat) \<le> 57"

definition dec_value :: "string \<Rightarrow> nat" where
  "dec_value = foldl (\<lambda>n c. 10 * n + (of_char c - 48)) 0"

text \<open>
  \<^verbatim>\<open>std::stoull\<close>: blanks, a sign, digits; anything after the digits is ignored, a minus sign negates
  modulo \<open>2 ^ 64\<close>. No digits or a value that does not fit are exceptions.
\<close>

definition stoull :: "string \<Rightarrow> u64 option" where
  "stoull s =
     (let s = dropWhile is_space s;
          neg = (s \<noteq> [] \<and> hd s = CHR ''-'');
          s = (if s \<noteq> [] \<and> (hd s = CHR ''-'' \<or> hd s = CHR ''+'') then tl s else s);
          ds = takeWhile is_digit s;
          n = dec_value ds
      in if ds = [] \<or> n \<ge> 2 ^ 64 then None else Some (if neg then - word_of_nat n else word_of_nat n))"

text \<open>\<^verbatim>\<open>while (!line.empty() && line.back() == \<dots>) line.pop_back();\<close>\<close>

definition pop_while :: "(char \<Rightarrow> bool) \<Rightarrow> string \<Rightarrow> string" where
  "pop_while P s = rev (dropWhile P (rev s))"

definition strip_cr :: "string \<Rightarrow> string" where
  "strip_cr = pop_while (\<lambda>c. c = CHR 0x0D)"

subsection \<open>Writing\<close>

definition kMetaMagic :: string where
  "kMetaMagic = ''KCMETA1''"

definition sha256_hex_bytes :: "bytes \<Rightarrow> string" where
  "sha256_hex_bytes b = to_hex (digest b)"

definition sha256_hex_str :: "string \<Rightarrow> string" where
  "sha256_hex_str s = to_hex (digest_string s)"

definition field_ok :: "string \<Rightarrow> string \<Rightarrow> bool" where
  "field_ok line key \<longleftrightarrow> take (length key + 1) line = key @ ''=''"

definition value_or_empty :: "string option \<Rightarrow> string" where
  "value_or_empty v = (case v of None \<Rightarrow> [] | Some h \<Rightarrow> h)"

definition sizes_text :: "ArtifactSizes \<Rightarrow> string" where
  "sizes_text z = show_word (artifact_bytes z) @ '','' @ show_word (host_bytes z) @ '','' @
     show_word (device_bytes z) @ '','' @ show_word (storage_bytes z) @ '','' @
     (if device_bytes_estimated z then ''1'' else ''0'')"

definition meta_fields :: "StoredArtifact \<Rightarrow> string list" where
  "meta_fields a =
     [''id='' @ str (sa_id a),
      ''generation='' @ show_word (sa_generation a),
      ''format='' @ b64encode (sa_format a),
      ''namespace='' @ b64encode (sa_namespace a),
      ''backend='' @ b64encode (producer (sa_provenance a)),
      ''operation='' @ b64encode (operation (sa_key a)),
      ''tenant='' @ b64encode (pv_tenant (sa_provenance a)),
      ''artifact_sha256='' @ value_or_empty (sa_sha256_hex a),
      ''sizes='' @ sizes_text (sa_sizes a),
      ''built_at_ns='' @ show_word (stored_ns a),
      ''key_canonical_b64='' @ b64encode (string_of_bytes (k_canonical (sa_key a)))]"

definition build_meta :: "StoredArtifact \<Rightarrow> string" where
  "build_meta a = concat (map (\<lambda>l. l @ [eol]) (kMetaMagic # meta_fields a))"

subsection \<open>Reading\<close>

text \<open>The loop over the lines: the checksum line is set aside, every other line belongs to the body.\<close>

fun meta_lines :: "string list \<Rightarrow> string \<Rightarrow> string list \<Rightarrow> string \<Rightarrow> (string \<times> string list \<times> string) result" where
  "meta_lines [] body lines stored_sha = Inr (body, lines, stored_sha)"
| "meta_lines (l # ls) body lines stored_sha =
     (let line = strip_cr l
      in if field_ok line ''meta_sha256''
         then let stored_sha = drop (length ''meta_sha256='') line
              in if length stored_sha \<noteq> 64 then fail EC_ChecksumMismatch ''malformed meta_sha256''
                 else meta_lines ls body lines stored_sha
         else meta_lines ls (body @ line @ [eol]) (lines @ [line]) stored_sha)"

fun parse_sizes :: "string list \<Rightarrow> nat \<Rightarrow> ArtifactSizes \<Rightarrow> ArtifactSizes option" where
  "parse_sizes [] idx z = Some z"
| "parse_sizes (t # ts) idx z =
     (case stoull t of
        None \<Rightarrow> None
      | Some v \<Rightarrow>
          parse_sizes ts (Suc idx)
            (if idx = 0 then z\<lparr>artifact_bytes := v\<rparr>
             else if idx = 1 then z\<lparr>host_bytes := v\<rparr>
             else if idx = 2 then z\<lparr>device_bytes := v\<rparr>
             else if idx = 3 then z\<lparr>storage_bytes := v\<rparr>
             else if idx = 4 then z\<lparr>device_bytes_estimated := (v \<noteq> 0)\<rparr>
             else z))"

text \<open>The body of the \<^verbatim>\<open>try\<close> block for one line; an exception is caught as a malformed field.\<close>

definition caught :: "StoredArtifact option \<Rightarrow> StoredArtifact result" where
  "caught r = (case r of None \<Rightarrow> fail EC_MalformedFrame ''malformed metadata field'' | Some a \<Rightarrow> Inr a)"

definition parse_key_field :: "string \<Rightarrow> StoredArtifact \<Rightarrow> StoredArtifact result" where
  "parse_key_field v a =
     (let kb = b64decode v
      in if kb = [] then fail EC_MalformedFrame ''bad key canonical''
         else case from_canonical (bytes_of_string kb) of
                Inl e \<Rightarrow> fail EC_MalformedFrame (''bad key canonical: '' @ message e)
              | Inr k \<Rightarrow> Inr (a\<lparr>sa_key := k\<rparr>))"

definition parse_field :: "string \<Rightarrow> StoredArtifact \<Rightarrow> StoredArtifact result" where
  "parse_field l a =
     (if field_ok l ''id'' then
        (case parse (drop 3 l) of
           Inl e \<Rightarrow> fail EC_MalformedFrame ''bad id''
         | Inr i \<Rightarrow> Inr (a\<lparr>sa_id := i\<rparr>))
      else if field_ok l ''generation'' then
        caught (map_option (\<lambda>v. a\<lparr>sa_generation := v\<rparr>) (stoull (drop 11 l)))
      else if field_ok l ''format'' then Inr (a\<lparr>sa_format := b64decode (drop 7 l)\<rparr>)
      else if field_ok l ''namespace'' then Inr (a\<lparr>sa_namespace := b64decode (drop 10 l)\<rparr>)
      else if field_ok l ''backend'' then
        Inr (a\<lparr>sa_provenance := (sa_provenance a)\<lparr>producer := b64decode (drop 8 l)\<rparr>\<rparr>)
      else if field_ok l ''operation'' then Inr (a\<lparr>sa_key := (sa_key a)\<lparr>operation := b64decode (drop 10 l)\<rparr>\<rparr>)
      else if field_ok l ''tenant'' then
        Inr (a\<lparr>sa_provenance := (sa_provenance a)\<lparr>pv_tenant := b64decode (drop 7 l)\<rparr>\<rparr>)
      else if field_ok l ''artifact_sha256'' then Inr (a\<lparr>sa_sha256_hex := Some (drop 16 l)\<rparr>)
      else if field_ok l ''sizes'' then
        caught (map_option (\<lambda>z. a\<lparr>sa_sizes := z\<rparr>) (parse_sizes (getlines (CHR '','') (drop 6 l)) 0 (sa_sizes a)))
      else if field_ok l ''built_at_ns'' then caught (map_option (\<lambda>v. a\<lparr>stored_ns := v\<rparr>) (stoull (drop 12 l)))
      else if field_ok l ''key_canonical_b64'' then parse_key_field (drop 18 l) a
      else Inr a)"

fun parse_fields :: "string list \<Rightarrow> StoredArtifact \<Rightarrow> StoredArtifact result" where
  "parse_fields [] a = Inr a"
| "parse_fields (l # ls) a = (case parse_field l a of Inl e \<Rightarrow> Inl e | Inr a \<Rightarrow> parse_fields ls a)"

text \<open>\<^verbatim>\<open>read_file\<close> on a missing file gives the empty text and leaves the length 0.\<close>

definition read_file :: "string option \<Rightarrow> string \<times> u64" where
  "read_file f = (case f of None \<Rightarrow> ([], 0) | Some s \<Rightarrow> (s, word_of_nat (length s)))"

text \<open>The last part of \<^verbatim>\<open>parse_artifact_inner\<close>: the blob against the metadata.\<close>

definition check_blob :: "StoredArtifact \<Rightarrow> string option \<Rightarrow> StoredArtifact result" where
  "check_blob a blob =
     (let (blob_str, len) = read_file blob
      in if blob_str = [] \<and> len = 0 then fail EC_TruncatedData ''blob missing or empty''
         else if len \<noteq> artifact_bytes (sa_sizes a)
         then fail EC_TruncatedData (''blob length mismatch: expected '' @ show_word (artifact_bytes (sa_sizes a))
                @ '' got '' @ show_word len)
         else let a = a\<lparr>sa_bytes := bytes_of_string blob_str\<rparr>;
                  blob_sha = sha256_hex_bytes (sa_bytes a)
              in case sa_sha256_hex a of
                   Some h \<Rightarrow> if h \<noteq> [] \<and> h \<noteq> blob_sha
                             then fail EC_ChecksumMismatch ''artifact checksum mismatch'' else Inr a
                 | None \<Rightarrow> Inr a)"

text \<open>
  \<^verbatim>\<open>parse_artifact_inner\<close>: \<open>parse_meta\<close> is everything up to the end of the \<^verbatim>\<open>try\<close> block. The file name
  \<^verbatim>\<open>idh\<close> is not looked at.
\<close>

definition parse_meta :: "string \<Rightarrow> StoredArtifact result" where
  "parse_meta meta_text =
     (case getline eol meta_text of
        None \<Rightarrow> fail EC_TruncatedData ''empty metadata''
      | Some (line, rest) \<Rightarrow>
          let line = strip_cr line
          in if line \<noteq> kMetaMagic
             then fail EC_UnknownMetadataVersion (''unknown metadata version: '' @ line)
             else case meta_lines (getlines eol rest) (line @ [eol]) [] [] of
                    Inl e \<Rightarrow> Inl e
                  | Inr (body, lines, stored_sha) \<Rightarrow>
                      if stored_sha = [] then fail EC_ChecksumMismatch ''missing meta_sha256''
                      else if sha256_hex_str body \<noteq> stored_sha
                      then fail EC_ChecksumMismatch ''metadata checksum mismatch''
                      else parse_fields lines StoredArtifact_new)"

definition parse_artifact_inner :: "string \<Rightarrow> string \<Rightarrow> string option \<Rightarrow> StoredArtifact result" where
  "parse_artifact_inner idh meta_text blob =
     (case parse_meta meta_text of Inl e \<Rightarrow> Inl e | Inr a \<Rightarrow> check_blob a blob)"

subsection \<open>Lines\<close>

lemma getlines_Nil [simp]: "getlines d [] = []"
  by (simp add: getlines.simps getline_def)

lemma getline_line:
  assumes "d \<notin> set l"
  shows "getline d (l @ d # r) = Some (l, r)"
proof -
  from assms have "takeWhile (\<lambda>c. c \<noteq> d) (l @ d # r) = l" "dropWhile (\<lambda>c. c \<noteq> d) (l @ d # r) = d # r"
    by (induction l) auto
  then show ?thesis by (simp add: getline_def)
qed

lemma getlines_line: "d \<notin> set l \<Longrightarrow> getlines d (l @ d # r) = l # getlines d r"
  by (subst getlines.simps) (simp add: getline_line)

lemma getlines_last:
  assumes "d \<notin> set l" and "l \<noteq> []"
  shows "getlines d l = [l]"
proof -
  have "takeWhile (\<lambda>c. c \<noteq> d) l = l" "dropWhile (\<lambda>c. c \<noteq> d) l = []"
    using assms(1) by (induction l) auto
  then have "getline d l = Some (l, [])"
    using assms(2) unfolding getline_def by (simp only: if_False drop_Nil)
  then show ?thesis by (subst getlines.simps) simp
qed

lemma getlines_concat:
  "\<forall>l \<in> set ls. d \<notin> set l \<Longrightarrow> getlines d (concat (map (\<lambda>l. l @ [d]) ls)) = ls"
  by (induction ls) (simp_all add: getlines_line)

lemma strip_cr_plain:
  assumes "CHR 0x0D \<notin> set l"
  shows "strip_cr l = l"
proof -
  have "dropWhile (\<lambda>c. c = CHR 0x0D) (rev l) = rev l" using assms by (cases "rev l") (auto dest: arg_cong [of _ _ set])
  then show ?thesis by (simp add: strip_cr_def pop_while_def)
qed

subsection \<open>Decimal numbers\<close>

lemma of_char_digit [simp]: "n < 10 \<Longrightarrow> (of_char (digit_char n) :: nat) = 48 + n"
  by (simp add: digit_char_def)

lemma dec_value_snoc: "dec_value (s @ [c]) = 10 * dec_value s + (of_char c - 48)"
  by (simp add: dec_value_def)

lemma show_nat_digits: "\<forall>c \<in> set (show_nat n). is_digit c"
proof (induction n rule: show_nat.induct)
  case (1 n)
  then show ?case by (subst show_nat.simps) (auto simp: is_digit_def)
qed

lemma show_nat_not_Nil [simp]: "show_nat n \<noteq> []"
  by (subst show_nat.simps) simp

lemma dec_value_show [simp]: "dec_value (show_nat n) = n"
proof (induction n rule: show_nat.induct)
  case (1 n)
  then show ?case by (subst show_nat.simps) (auto simp: dec_value_snoc, simp add: dec_value_def)
qed

lemma digit_facts: "is_digit c \<Longrightarrow> \<not> is_space c \<and> c \<noteq> CHR ''-'' \<and> c \<noteq> CHR ''+'' \<and> c \<noteq> CHR '','' \<and>
    c \<noteq> eol \<and> c \<noteq> CHR 0x0D"
  by (auto simp: is_digit_def is_space_def eol_def)

lemma stoull_show [simp]: "stoull (show_word (w :: u64)) = Some w"
proof -
  let ?s = "show_nat (unat w)"
  obtain c r where s: "?s = c # r" by (cases ?s) auto
  with show_nat_digits [of "unat w"] have c: "is_digit c" by simp
  have d: "dropWhile is_space ?s = ?s" using digit_facts [OF c] by (simp add: s)
  have h: "hd ?s \<noteq> CHR ''-''" "hd ?s \<noteq> CHR ''+''" using digit_facts [OF c] by (simp_all add: s)
  have t: "takeWhile is_digit ?s = ?s" using show_nat_digits by (simp add: takeWhile_eq_all_conv)
  have "unat w < 2 ^ 64" using unsigned_less [of w] by simp
  then show ?thesis by (simp add: stoull_def show_word_def Let_def d h t)
qed

definition plain :: "string \<Rightarrow> bool" where
  "plain s \<longleftrightarrow> eol \<notin> set s \<and> CHR 0x0D \<notin> set s"

lemma plain_append [simp]: "plain (s @ t) \<longleftrightarrow> plain s \<and> plain t"
  by (auto simp: plain_def)

lemma plain_Cons [simp]: "plain (c # t) \<longleftrightarrow> c \<noteq> eol \<and> c \<noteq> CHR 0x0D \<and> plain t"
  by (auto simp: plain_def)

lemma plain_Nil [simp]: "plain []"
  by (simp add: plain_def)

lemma plain_show [simp]: "plain (show_word w)" "CHR '','' \<notin> set (show_word w)"
  using show_nat_digits [of "unat w"] digit_facts by (auto simp: plain_def show_word_def)

lemma plain_b64 [simp]: "plain (b64encode s)"
  by (simp add: plain_def eol_def)

lemma plain_hex_char: "n < 16 \<Longrightarrow> hex_char n \<noteq> eol \<and> hex_char n \<noteq> CHR 0x0D"
  by (drule less_16_cases) (auto simp: hex_char_def hex_digits_def eol_def)

lemma plain_str [simp]: "plain (str i)"
  by (auto simp: plain_def str_def hex_word_digits dest!: unat_digit4_less plain_hex_char)

lemma nibble_less: "unat (drop_bit 4 (b :: u8)) < 16" "unat (b AND 0x0f) < 16"
proof -
  have "unat b < 256" using unsigned_less [of b] by simp
  then show "unat (drop_bit 4 b) < 16" by (simp add: drop_bit_eq_div unat_div)
  show "unat (b AND 0x0f) < 16" using word_and_le1 [of b "0x0f"] by (simp add: word_le_nat_alt)
qed

lemma plain_to_hex [simp]: "plain (to_hex d)"
  using plain_hex_char [OF nibble_less(1)] plain_hex_char [OF nibble_less(2)]
  by (induction d) (auto simp: to_hex_def)

subsection \<open>What the reader returns on what the writer wrote\<close>

text \<open>The part of a stored artifact that the metadata keeps.\<close>

definition stored_view :: "StoredArtifact \<Rightarrow> StoredArtifact" where
  "stored_view a = a\<lparr>sa_provenance := ProvenanceDescriptor_new
       \<lparr>producer := producer (sa_provenance a), pv_tenant := pv_tenant (sa_provenance a)\<rparr>,
     sa_sha256_hex := Some (value_or_empty (sa_sha256_hex a))\<rparr>"

definition storable :: "StoredArtifact \<Rightarrow> bool" where
  "storable a \<longleftrightarrow>
     from_canonical (k_canonical (sa_key a)) = Inr (sa_key a) \<and> k_canonical (sa_key a) \<noteq> [] \<and>
     sa_bytes a \<noteq> [] \<and> length (sa_bytes a) < 2 ^ 64 \<and>
     artifact_bytes (sa_sizes a) = word_of_nat (length (sa_bytes a)) \<and>
     value_or_empty (sa_sha256_hex a) \<in> {[], sha256_hex_bytes (sa_bytes a)}"

lemma canonical_encoding_not_Nil: "canonical_encoding k \<noteq> []"
  by (simp add: canonical_encoding_eq)

lemma storable_finalized:
  assumes "key_wf k" "finalize k = (True, sa_key a)" "sa_bytes a \<noteq> []" "length (sa_bytes a) < 2 ^ 64"
    and "artifact_bytes (sa_sizes a) = word_of_nat (length (sa_bytes a))"
    and "value_or_empty (sa_sha256_hex a) \<in> {[], sha256_hex_bytes (sa_bytes a)}"
  shows "storable a"
  using assms from_canonical_finalized [OF assms(1,2)] canonical_encoding_not_Nil
  by (auto simp: storable_def finalize_True)

lemma value_plain: "storable a \<Longrightarrow> plain (value_or_empty (sa_sha256_hex a))"
  by (auto simp: storable_def sha256_hex_bytes_def)

lemma eol_lits [simp]:
  "CHR ''K'' \<noteq> eol" "CHR ''='' \<noteq> eol" "CHR '','' \<noteq> eol" "CHR ''_'' \<noteq> eol"
  "CHR 0x0D \<noteq> eol"
  by (simp_all add: eol_def)

lemma stoull_bit [simp]: "stoull ''0'' = Some 0" "stoull ''1'' = Some 1"
proof -
  have "show_word (0 :: u64) = ''0''" "show_word (1 :: u64) = ''1''" by code_simp+
  then show "stoull ''0'' = Some 0" "stoull ''1'' = Some 1" by (metis stoull_show)+
qed

lemma parse_sizes_text [simp]:
  "parse_sizes (getlines (CHR '','') (sizes_text z)) 0 z' = Some z"
  by (cases z) (simp add: sizes_text_def getlines_line getlines_last)

lemma meta_fields_plain: "storable a \<Longrightarrow> l \<in> set (meta_fields a) \<Longrightarrow> plain l"
  by (auto simp: meta_fields_def value_plain sizes_text_def eol_def)

lemma meta_fields_no_sha: "l \<in> set (meta_fields a) \<Longrightarrow> \<not> field_ok l ''meta_sha256''"
  by (auto simp: meta_fields_def field_ok_def)

lemma parse_field_written:
  "parse_field (''id='' @ str i) a = Inr (a\<lparr>sa_id := i\<rparr>)"
  "parse_field (''generation='' @ show_word g) a = Inr (a\<lparr>sa_generation := g\<rparr>)"
  "parse_field (''format='' @ b64encode t) a = Inr (a\<lparr>sa_format := t\<rparr>)"
  "parse_field (''namespace='' @ b64encode t) a = Inr (a\<lparr>sa_namespace := t\<rparr>)"
  "parse_field (''backend='' @ b64encode t) a = Inr (a\<lparr>sa_provenance := (sa_provenance a)\<lparr>producer := t\<rparr>\<rparr>)"
  "parse_field (''operation='' @ b64encode t) a = Inr (a\<lparr>sa_key := (sa_key a)\<lparr>operation := t\<rparr>\<rparr>)"
  "parse_field (''tenant='' @ b64encode t) a = Inr (a\<lparr>sa_provenance := (sa_provenance a)\<lparr>pv_tenant := t\<rparr>\<rparr>)"
  "parse_field (''artifact_sha256='' @ t) a = Inr (a\<lparr>sa_sha256_hex := Some t\<rparr>)"
  "parse_field (''sizes='' @ sizes_text z) a = Inr (a\<lparr>sa_sizes := z\<rparr>)"
  "parse_field (''built_at_ns='' @ show_word g) a = Inr (a\<lparr>stored_ns := g\<rparr>)"
  by (simp_all add: parse_field_def field_ok_def caught_def parse_str_id)

lemma parse_field_key:
  assumes "from_canonical (k_canonical k) = Inr k" and "k_canonical k \<noteq> []"
  shows "parse_field (''key_canonical_b64='' @ b64encode (string_of_bytes (k_canonical k))) a = Inr (a\<lparr>sa_key := k\<rparr>)"
  using assms by (simp add: parse_field_def field_ok_def parse_key_field_def string_of_bytes_def)
     (simp add: bytes_of_string_def comp_def)

lemma parse_fields_meta:
  assumes "storable a"
  shows "parse_fields (meta_fields a) StoredArtifact_new = Inr ((stored_view a)\<lparr>sa_bytes := []\<rparr>)"
proof -
  have "from_canonical (k_canonical (sa_key a)) = Inr (sa_key a)" "k_canonical (sa_key a) \<noteq> []"
    using assms by (simp_all add: storable_def)
  note key = parse_field_key [OF this]
  show ?thesis
    by (simp only: meta_fields_def parse_fields.simps parse_field_written key sum.case)
      (cases a, simp add: StoredArtifact_new_def stored_view_def)
qed

subsection \<open>The whole text\<close>

text \<open>The text that \<^verbatim>\<open>put\<close> writes.\<close>

definition full_meta :: "StoredArtifact \<Rightarrow> string" where
  "full_meta a = build_meta a @ ''meta_sha256='' @ sha256_hex_str (build_meta a) @ [eol]"

lemma length_sha_hex [simp]: "length (sha256_hex_str s) = 64" "length (sha256_hex_bytes b) = 64"
  by (simp_all add: sha256_hex_str_def sha256_hex_bytes_def digest_string_eq)

lemma plain_sha_hex [simp]: "plain (sha256_hex_str s)" "plain (sha256_hex_bytes b)"
  by (simp_all add: sha256_hex_str_def sha256_hex_bytes_def)

lemma meta_lines_fields:
  "\<forall>l \<in> set ls. plain l \<and> \<not> field_ok l ''meta_sha256'' \<Longrightarrow>
    meta_lines (ls @ rest) body lines sha =
      meta_lines rest (body @ concat (map (\<lambda>l. l @ [eol]) ls)) (lines @ ls) sha"
  by (induction ls arbitrary: body lines) (simp_all add: plain_def strip_cr_plain)

lemma meta_lines_sha:
  assumes "plain h" "length h = 64"
  shows "meta_lines [''meta_sha256='' @ h] body lines sha = Inr (body, lines, h)"
proof -
  have "strip_cr (''meta_sha256='' @ h) = ''meta_sha256='' @ h"
    using assms(1) by (intro strip_cr_plain) (simp add: plain_def)
  then show ?thesis using assms(2) by (simp add: field_ok_def)
qed

lemma getline_full_meta:
  "getline eol (full_meta a) = Some (kMetaMagic, concat (map (\<lambda>l. l @ [eol])
     (meta_fields a @ [''meta_sha256='' @ sha256_hex_str (build_meta a)])))"
proof -
  have "eol \<notin> set kMetaMagic" by (simp add: kMetaMagic_def eol_def)
  from getline_line [OF this] show ?thesis by (simp add: full_meta_def build_meta_def)
qed

lemma parse_full_meta:
  assumes "storable a"
  shows "parse_meta (full_meta a) = Inr ((stored_view a)\<lparr>sa_bytes := []\<rparr>)"
proof -
  let ?h = "''meta_sha256='' @ sha256_hex_str (build_meta a)"
  have p: "\<forall>l \<in> set (meta_fields a). plain l \<and> \<not> field_ok l ''meta_sha256''"
    using meta_fields_plain [OF assms] meta_fields_no_sha by blast
  have h: "eol \<notin> set ?h" using plain_sha_hex(1) [of "build_meta a"] by (auto simp: plain_def eol_def)
  have g: "getlines eol (concat (map (\<lambda>l. l @ [eol]) (meta_fields a @ [?h]))) = meta_fields a @ [?h]"
    using p h by (intro getlines_concat) (auto simp: plain_def)
  have m: "strip_cr kMetaMagic = kMetaMagic" by (rule strip_cr_plain) (simp add: kMetaMagic_def)
  have "meta_lines (meta_fields a @ [?h]) (kMetaMagic @ [eol]) [] [] =
      Inr (build_meta a, meta_fields a, sha256_hex_str (build_meta a))"
    by (simp only: meta_lines_fields [OF p] meta_lines_sha plain_sha_hex length_sha_hex) (simp add: build_meta_def)
  moreover have "sha256_hex_str (build_meta a) \<noteq> []" by (metis length_sha_hex(1) list.size(3) zero_neq_numeral)
  ultimately show ?thesis
    by (simp only: parse_meta_def getline_full_meta g m option.case prod.case Let_def sum.case
        parse_fields_meta [OF assms] if_False not_True_eq_False)
      simp
qed

lemma check_blob_written:
  assumes "storable a"
  shows "check_blob ((stored_view a)\<lparr>sa_bytes := []\<rparr>) (Some (string_of_bytes (sa_bytes a))) = Inr (stored_view a)"
  using assms unfolding storable_def
  by (auto simp: check_blob_def read_file_def stored_view_def string_of_bytes_def bytes_of_string_def comp_def Let_def)

lemma check_blob_integrity:
  assumes "check_blob a blob = Inr b"
  shows "\<exists>s. blob = Some s \<and> s \<noteq> [] \<and> b = a\<lparr>sa_bytes := bytes_of_string s\<rparr> \<and>
    artifact_bytes (sa_sizes b) = word_of_nat (length s) \<and>
    value_or_empty (sa_sha256_hex b) \<in> {[], sha256_hex_bytes (sa_bytes b)}"
  using assms by (auto simp: check_blob_def read_file_def value_or_empty_def Let_def split: option.splits if_splits)

text \<open>The checksummed part of a metadata text: every line but the checksum lines.\<close>

definition meta_body :: "string \<Rightarrow> string" where
  "meta_body t = concat (map (\<lambda>l. l @ [eol])
     (filter (\<lambda>l. \<not> field_ok l ''meta_sha256'') (map strip_cr (getlines eol t))))"

lemma meta_lines_InrD:
  assumes "meta_lines ls body lines sha = Inr (b, fl, h)"
  shows "b = body @ concat (map (\<lambda>l. l @ [eol]) (filter (\<lambda>l. \<not> field_ok l ''meta_sha256'') (map strip_cr ls))) \<and>
    (h = sha \<or> ''meta_sha256='' @ h \<in> strip_cr ` set ls)"
  using assms
proof (induction ls body lines sha rule: meta_lines.induct)
  case (2 l ls body lines sha)
  show ?case
  proof (cases "field_ok (strip_cr l) ''meta_sha256''")
    case True
    then have "take 12 (strip_cr l) = ''meta_sha256=''" by (simp add: field_ok_def numeral_eq_Suc)
    then obtain v where v: "strip_cr l = ''meta_sha256='' @ v" by (metis append_take_drop_id)
    with True 2 show ?thesis by (auto simp: Let_def simp flip: v split: if_splits)
  next
    case False
    with 2 show ?thesis by (auto simp: Let_def)
  qed
qed simp

lemma parse_artifact_inner_InrD:
  assumes "parse_artifact_inner idh t blob = Inr b"
  shows "(\<exists>a. check_blob a blob = Inr b) \<and>
    ''meta_sha256='' @ sha256_hex_str (meta_body t) \<in> strip_cr ` set (getlines eol t)"
proof -
  from assms obtain line rest body ls a where p: "getline eol t = Some (line, rest)" "strip_cr line = kMetaMagic"
    "meta_lines (getlines eol rest) (kMetaMagic @ [eol]) [] [] = Inr (body, ls, sha256_hex_str body)"
    "sha256_hex_str body \<noteq> []" "check_blob a blob = Inr b"
    by (auto simp: parse_artifact_inner_def parse_meta_def Let_def split: option.splits sum.splits if_splits)
  have g: "getlines eol t = line # getlines eol rest" by (subst getlines.simps) (simp add: p(1))
  have "\<not> field_ok kMetaMagic ''meta_sha256''" by (simp add: field_ok_def kMetaMagic_def)
  with meta_lines_InrD [OF p(3)] have "body = meta_body t" by (simp add: meta_body_def g p(2))
  with meta_lines_InrD [OF p(3)] p(4,5) show ?thesis by (auto simp: g)
qed

lemma parse_written:
  assumes "storable a"
  shows "parse_artifact_inner idh (full_meta a) (Some (string_of_bytes (sa_bytes a))) = Inr (stored_view a)"
  by (simp only: parse_artifact_inner_def parse_full_meta [OF assms] check_blob_written [OF assms] sum.case)

text \<open>A blob that was cut short is refused.\<close>

lemma parse_short:
  assumes "storable a" and "n < length (sa_bytes a)"
  shows "\<exists>m. parse_artifact_inner idh (full_meta a) (Some (take n (string_of_bytes (sa_bytes a)))) = fail EC_TruncatedData m"
proof -
  have "length (sa_bytes a) < 2 ^ 64" using assms(1) by (simp add: storable_def)
  with assms(2) have "(word_of_nat n :: u64) \<noteq> word_of_nat (length (sa_bytes a))"
    by (simp add: word_of_nat_eq_iff take_bit_nat_eq_self)
  with assms show ?thesis unfolding parse_artifact_inner_def parse_full_meta [OF assms(1)]
    by (simp add: check_blob_def read_file_def Let_def storable_def stored_view_def min_def)
qed

definition sample_stored :: StoredArtifact where
  "sample_stored = StoredArtifact_new\<lparr>sa_id := mk_id 1 7, sa_generation := 1, sa_key := derive (canonicalize matmul_key),
     sa_bytes := [1, 2, 3], sa_sizes := ArtifactSizes_new\<lparr>artifact_bytes := 3\<rparr>\<rparr>"

lemma storable_sample: "storable sample_stored"
proof (rule storable_finalized [OF sample_keys_ok(1)])
  show "finalize matmul_key = (True, sa_key sample_stored)"
    using sample_keys_final(1) by (simp add: sample_stored_def)
qed (simp_all add: sample_stored_def StoredArtifact_new_def ArtifactSizes_new_def value_or_empty_def)

subsection \<open>Properties\<close>



text \<open>
  C19. Nothing corrupt is accepted: whatever the files hold, an artifact that is read back has exactly
  the bytes of the blob, the recorded length, the recorded checksum if there is one, and comes from
  a metadata text one of whose lines is the SHA-256 of all the others.
\<close>

theorem stored_artifact_integrity:
  assumes "parse_artifact_inner idh t blob = Inr b"
  shows "blob = Some (string_of_bytes (sa_bytes b)) \<and> sa_bytes b \<noteq> [] \<and>
    artifact_bytes (sa_sizes b) = word_of_nat (length (sa_bytes b)) \<and>
    value_or_empty (sa_sha256_hex b) \<in> {[], sha256_hex_bytes (sa_bytes b)} \<and>
    ''meta_sha256='' @ sha256_hex_str (meta_body t) \<in> strip_cr ` set (getlines eol t)"
  using parse_artifact_inner_InrD [OF assms] check_blob_integrity by fastforce

theorem stored_artifact_integrity_witness:
  "artifact_bytes (sa_sizes (stored_view sample_stored)) = word_of_nat (length (sa_bytes (stored_view sample_stored)))"
  using stored_artifact_integrity [OF parse_written [OF storable_sample]] by blast

end
