(* ===== verification/KC_FileStore.thy ===== *)
theory KC_FileStore
  imports KC_Metadata KC_Manage
begin

text \<open>
  The file-backed store (\<^verbatim>\<open>FilePersistenceStore\<close>, \<^verbatim>\<open>src/persistence.cpp\<close>). The disk is the tree below the
  root: the format marker and the two directories as association lists from file names to
  contents, in the order in which a directory iteration visits them. What the operating system
  answers to each call is an input: the model covers failing, short and torn writes and crashes
  between any two changes of the disk.
\<close>

subsection \<open>The disk\<close>

record Disk =
  fmt_file :: "string option"
  artifacts_dir :: "(string \<times> string) list"
  tmp_dir :: "(string \<times> string) list"

datatype DiskOp =
    WriteTmp string string
  | Install string string
  | RemoveArtifact string
  | RemoveTmp string

fun disk_exec :: "DiskOp \<Rightarrow> Disk \<Rightarrow> Disk" where
  "disk_exec (WriteTmp n c) d = d\<lparr>tmp_dir := AList.update n c (tmp_dir d)\<rparr>"
| "disk_exec (Install t n) d =
     (case map_of (tmp_dir d) t of
        None \<Rightarrow> d
      | Some c \<Rightarrow> d\<lparr>tmp_dir := AList.delete t (tmp_dir d), artifacts_dir := AList.update n c (artifacts_dir d)\<rparr>)"
| "disk_exec (RemoveArtifact n) d = d\<lparr>artifacts_dir := AList.delete n (artifacts_dir d)\<rparr>"
| "disk_exec (RemoveTmp n) d = d\<lparr>tmp_dir := AList.delete n (tmp_dir d)\<rparr>"

text \<open>What a write puts into the file: everything, or only so many bytes.\<close>

definition written :: "nat option \<Rightarrow> string \<Rightarrow> string" where
  "written w s = (case w of None \<Rightarrow> s | Some k \<Rightarrow> take k s)"

text \<open>The answers of the system to \<^verbatim>\<open>rename\<close>, \<^verbatim>\<open>remove\<close>, \<^verbatim>\<open>rename\<close> when a file is installed, and to one \<^verbatim>\<open>put\<close>.\<close>

record InstallIO =
  first_rename :: bool
  remove_ok :: bool
  second_rename :: bool
  os_message :: string

record PutIO =
  token :: string
  blob_open :: bool
  blob_short :: "nat option"
  blob_install :: InstallIO
  meta_open :: bool
  meta_short :: "nat option"
  meta_install :: InstallIO

record FileStore =
  store_root :: string
  meta_dir :: string
  blob_dir :: string
  disk :: Disk
  puts :: nat
  put_io :: "nat \<Rightarrow> PutIO"
  unlink_ok :: "string \<Rightarrow> bool"

subsection \<open>Operations\<close>

definition kFormatMagic :: string where
  "kFormatMagic = ''KC-PERSIST-1''"

definition path_join :: "string \<Rightarrow> string \<Rightarrow> string" where
  "path_join a b = (if a \<noteq> [] \<and> last a = CHR ''/'' then a @ b else a @ ''/'' @ b)"

record OpenIO =
  mkdir_error :: "string option"
  fmt_open :: bool
  fmt_short :: "nat option"

definition store_open :: "OpenIO \<Rightarrow> string \<Rightarrow> FileStore \<Rightarrow> unit result \<times> FileStore" where
  "store_open io rt p =
     (if rt = [] then (fail EC_InvalidArgument ''empty persistence rt'', p)
      else case mkdir_error io of
             Some m \<Rightarrow> (fail EC_IoError (''cannot create rt: '' @ m), p)
           | None \<Rightarrow>
               (let p = p\<lparr>meta_dir := path_join rt ''artifacts'', blob_dir := path_join rt ''artifacts''\<rparr>
                in case fmt_file (disk p) of
                    None \<Rightarrow>
                      if \<not> fmt_open io then (fail EC_IoError ''cannot write format marker'', p)
                      else let p = p\<lparr>disk := (disk p)\<lparr>fmt_file := Some (written (fmt_short io) kFormatMagic)\<rparr>\<rparr>
                           in if length (written (fmt_short io) kFormatMagic) < length kFormatMagic
                              then (fail EC_IoError ''cannot write format marker'', p)
                              else (ok, p\<lparr>store_root := rt\<rparr>)
                  | Some cur \<Rightarrow>
                      if pop_while (\<lambda>c. c = eol \<or> c = CHR 0x0D) cur \<noteq> kFormatMagic
                      then (fail EC_UnknownMetadataVersion ''unknown persistence format'', p)
                      else (ok, p\<lparr>store_root := rt\<rparr>)))"

definition meta_name :: "ArtifactId \<Rightarrow> string" where
  "meta_name i = str i @ ''.meta''"

definition blob_name :: "ArtifactId \<Rightarrow> string" where
  "blob_name i = str i @ ''.blob''"

text \<open>\<^verbatim>\<open>rename\<close>, and when it fails \<^verbatim>\<open>remove\<close> and \<^verbatim>\<open>rename\<close> again: the changes of the disk and the error, if any.\<close>

definition install_ops :: "InstallIO \<Rightarrow> string \<Rightarrow> string \<Rightarrow> DiskOp list \<times> string option" where
  "install_ops io t n =
     (if first_rename io then ([Install t n], None)
      else let r = (if remove_ok io then [RemoveArtifact n] else [])
           in if second_rename io then (r @ [Install t n], None) else (r, Some (os_message io)))"

definition blob_tmp :: "PutIO \<Rightarrow> ArtifactId \<Rightarrow> string" where
  "blob_tmp io i = str i @ ''.blob.tmp.'' @ token io"

definition meta_tmp :: "PutIO \<Rightarrow> ArtifactId \<Rightarrow> string" where
  "meta_tmp io i = str i @ ''.meta.tmp.'' @ token io"

text \<open>
  The second half of \<^verbatim>\<open>put\<close>: the metadata file. Unlike that of the blob, its write is checked.
\<close>

definition put_meta_ops :: "PutIO \<Rightarrow> StoredArtifact \<Rightarrow> DiskOp list \<times> unit result" where
  "put_meta_ops io a =
     (let i = sa_id a; meta_text = build_meta a
      in if meta_text = [] then ([], fail EC_InvalidArtifact ''cannot serialize key'')
         else let mtmp = meta_tmp io i
              in if \<not> meta_open io then ([], fail EC_IoError ''cannot write meta temp'')
                 else let w = [WriteTmp mtmp (written (meta_short io) (full_meta a))]
                      in if length (written (meta_short io) (full_meta a)) < length (full_meta a)
                         then (w, fail EC_IoError ''cannot write meta temp'')
                         else case install_ops (meta_install io) mtmp (meta_name i) of
                                (ops, Some m) \<Rightarrow> (w @ ops, fail EC_IoError (''cannot install meta: '' @ m))
                              | (ops, None) \<Rightarrow> (w @ ops @ [RemoveTmp (blob_tmp io i)], ok))"

definition put_blob_ops :: "PutIO \<Rightarrow> StoredArtifact \<Rightarrow> DiskOp list \<times> unit result" where
  "put_blob_ops io a =
     (let i = sa_id a; btmp = blob_tmp io i
      in if \<not> blob_open io then ([], fail EC_IoError ''cannot open blob temp'')
         else let w = [WriteTmp btmp (written (blob_short io) (string_of_bytes (sa_bytes a)))]
              in case install_ops (blob_install io) btmp (blob_name i) of
                   (ops, Some m) \<Rightarrow> (w @ ops, fail EC_IoError (''cannot install blob: '' @ m))
                 | (ops, None) \<Rightarrow> (w @ ops, ok))"

definition put_ops :: "PutIO \<Rightarrow> StoredArtifact \<Rightarrow> DiskOp list \<times> unit result" where
  "put_ops io a =
     (case put_blob_ops io a of
        (ops, Inl e) \<Rightarrow> (ops, Inl e)
      | (ops, Inr _) \<Rightarrow> (case put_meta_ops io a of (ops', r) \<Rightarrow> (ops @ ops', r)))"

definition store_put :: "FileStore \<Rightarrow> StoredArtifact \<Rightarrow> unit result \<times> FileStore" where
  "store_put p a =
     (if store_root p = [] then (fail EC_InvalidArgument ''store not open'', p)
      else case put_ops (put_io p (puts p)) a of
             (ops, r) \<Rightarrow> (r, p\<lparr>disk := fold disk_exec ops (disk p), puts := Suc (puts p)\<rparr>))"

definition store_get :: "FileStore \<Rightarrow> ArtifactId \<Rightarrow> StoredArtifact result" where
  "store_get p i =
     (if store_root p = [] then fail EC_InvalidArgument ''store not open''
      else let dir = artifacts_dir (disk p);
               (meta_text, _) = read_file (map_of dir (meta_name i))
           in if meta_text = [] then fail EC_NotFound ''meta missing''
              else parse_artifact_inner (str i) meta_text (map_of dir (blob_name i)))"

definition store_remove :: "FileStore \<Rightarrow> ArtifactId \<Rightarrow> unit result \<times> FileStore" where
  "store_remove p i =
     (if store_root p = [] then (fail EC_InvalidArgument ''store not open'', p)
      else let d = disk p;
               d = (if unlink_ok p (meta_name i) then disk_exec (RemoveArtifact (meta_name i)) d else d);
               d = (if unlink_ok p (blob_name i) then disk_exec (RemoveArtifact (blob_name i)) d else d)
           in (ok, p\<lparr>disk := d\<rparr>))"

text \<open>\<^verbatim>\<open>path::stem\<close> and \<^verbatim>\<open>path::extension\<close> of a file name: cut at the last dot, unless it is the first character.\<close>

definition stem_ext :: "string \<Rightarrow> string \<times> string" where
  "stem_ext name =
     (let ex = rev (takeWhile (\<lambda>c. c \<noteq> CHR ''.'') (rev name));
          pre = rev (drop 1 (dropWhile (\<lambda>c. c \<noteq> CHR ''.'') (rev name)))
      in if CHR ''.'' \<notin> set name \<or> pre = [] \<or> name = ''..'' then (name, []) else (pre, CHR ''.'' # ex))"

definition store_list :: "FileStore \<Rightarrow> ArtifactId list result" where
  "store_list p =
     (if store_root p = [] then Inr []
      else Inr (concat (map (\<lambda>(name, _).
             let (st, ex) = stem_ext name
             in if ex = ''.meta'' then (case parse st of Inl _ \<Rightarrow> [] | Inr i \<Rightarrow> [i]) else [])
           (artifacts_dir (disk p)))))"

text \<open>The scan of \<^verbatim>\<open>recover\<close>: the valid artifacts and the reports on the others.\<close>

fun scan :: "(string \<times> string) list \<Rightarrow> (string \<times> string) list \<Rightarrow> StoredArtifact list \<times> string list" where
  "scan dir [] = ([], [])"
| "scan dir ((name, meta_text) # es) =
     (let (valid, rejected) = scan dir es;
          (idh, ex) = stem_ext name
      in if ex \<noteq> ''.meta'' then (valid, rejected)
         else if meta_text = [] then (valid, (''orphan-meta '' @ idh @ '' (empty)'') # rejected)
         else case parse_artifact_inner idh meta_text (map_of dir (idh @ ''.blob'')) of
                Inl e \<Rightarrow> (valid, (idh @ '' :: '' @ message e) # rejected)
              | Inr a \<Rightarrow> (a # valid, rejected))"

definition store_recover ::
  "FileStore \<Rightarrow> StoredArtifact list result \<times> string list \<times> string list \<times> FileStore" where
  "store_recover p =
     (if store_root p = [] then (fail EC_InvalidArgument ''store not open'', [], [], p)
      else let d = disk p;
               tmp = path_join (store_root p) ''tmp'';
               orphans = map (\<lambda>(n, _). path_join tmp n) (tmp_dir d);
               d = d\<lparr>tmp_dir := filter (\<lambda>(n, _). \<not> unlink_ok p n) (tmp_dir d)\<rparr>;
               (valid, rejected) = scan (artifacts_dir d) (artifacts_dir d)
           in (Inr valid, rejected, orphans, p\<lparr>disk := d\<rparr>))"

definition store_close :: "FileStore \<Rightarrow> unit result \<times> FileStore" where
  "store_close p = (ok, p)"

definition file_store :: "FileStore PersistenceStore" where
  "file_store = \<lparr>ps_put = store_put, ps_get = store_get, ps_recover = store_recover\<rparr>"

lemma written_cases:
  obtains "written w s = s" | k where "written w s = take k s" "k < length s" "w = Some k"
proof (cases w)
  case (Some k)
  then show ?thesis using that by (cases "k < length s") (auto simp: written_def)
qed (use that in \<open>simp add: written_def\<close>)

lemma written_full [simp]: "length s \<le> length (written w s) \<Longrightarrow> written w s = s"
  by (cases rule: written_cases [of w s]) auto

subsection \<open>File names\<close>

lemma names_inject [simp]:
  "meta_name i = meta_name j \<longleftrightarrow> i = j" "blob_name i = blob_name j \<longleftrightarrow> i = j"
  "meta_name i \<noteq> blob_name j" "blob_name j \<noteq> meta_name i"
  by (simp_all add: meta_name_def blob_name_def)

lemma stem_ext_dot:
  assumes "CHR ''.'' \<notin> set ex" "pre \<noteq> []" "ex \<noteq> []"
  shows "stem_ext (pre @ CHR ''.'' # ex) = (pre, CHR ''.'' # ex)"
proof -
  have t: "takeWhile (\<lambda>c. c \<noteq> CHR ''.'') (rev ex @ CHR ''.'' # rev pre) = rev ex"
    using assms(1) by (subst takeWhile_append2) auto
  have d: "dropWhile (\<lambda>c. c \<noteq> CHR ''.'') (rev ex @ CHR ''.'' # rev pre) = CHR ''.'' # rev pre"
    using assms(1) by (subst dropWhile_append2) auto
  have "pre @ CHR ''.'' # ex \<noteq> ''..''" using assms by (cases pre; cases ex) auto
  then show ?thesis using assms by (simp add: stem_ext_def Let_def t d)
qed

lemma stem_ext_join: "stem_ext n = (st, CHR ''.'' # ex) \<Longrightarrow> n = st @ CHR ''.'' # ex"
proof -
  assume a: "stem_ext n = (st, CHR ''.'' # ex)"
  let ?P = "\<lambda>c. c \<noteq> CHR ''.''"
  from a have dot: "CHR ''.'' \<in> set n" and st: "st = rev (drop 1 (dropWhile ?P (rev n)))"
    and ex: "ex = rev (takeWhile ?P (rev n))"
    by (auto simp: stem_ext_def Let_def split: if_splits)
  have "dropWhile ?P (rev n) \<noteq> []" using dot by (simp add: dropWhile_eq_Nil_conv)
  then have "dropWhile ?P (rev n) = CHR ''.'' # drop 1 (dropWhile ?P (rev n))"
    using hd_dropWhile [of ?P "rev n"] by (cases "dropWhile ?P (rev n)") auto
  then have "rev n = takeWhile ?P (rev n) @ CHR ''.'' # drop 1 (dropWhile ?P (rev n))"
    by (metis takeWhile_dropWhile_id)
  then show ?thesis unfolding st ex by (metis append_Cons append_Nil append_assoc rev.simps(2) rev_append rev_rev_ident)
qed

lemma stem_ext_meta [simp]: "stem_ext (meta_name i) = (str i, ''.meta'')"
proof -
  have "str i \<noteq> []" by (metis length_str list.size(3) zero_neq_numeral)
  then show ?thesis using stem_ext_dot [of "''meta''" "str i"] by (simp add: meta_name_def)
qed

subsection \<open>What a sequence of disk operations leaves alone\<close>

fun touches :: "DiskOp \<Rightarrow> string option" where
  "touches (WriteTmp n c) = None"
| "touches (Install t n) = Some n"
| "touches (RemoveArtifact n) = Some n"
| "touches (RemoveTmp n) = None"

abbreviation fileof :: "Disk \<Rightarrow> string \<Rightarrow> string option" where
  "fileof d \<equiv> map_of (artifacts_dir d)"

lemma disk_exec_untouched: "touches oc \<noteq> Some n \<Longrightarrow> fileof (disk_exec oc d) n = fileof d n"
  by (cases oc) (auto simp: update_conv' delete_conv' split: option.splits)

lemma fold_disk_exec_untouched:
  "\<forall>oc \<in> set ops. touches oc \<noteq> Some n \<Longrightarrow> fileof (fold disk_exec ops d) n = fileof d n"
  by (induction ops arbitrary: d) (simp_all add: disk_exec_untouched)

lemma exec_distinct: "distinct (map fst (artifacts_dir d)) \<Longrightarrow> distinct (map fst (artifacts_dir (disk_exec oc d)))"
  by (cases oc) (auto simp: distinct_update distinct_delete split: option.splits)

lemma fold_exec_distinct:
  "distinct (map fst (artifacts_dir d)) \<Longrightarrow> distinct (map fst (artifacts_dir (fold disk_exec ops d)))"
  by (induction ops arbitrary: d) (simp_all add: exec_distinct)

subsection \<open>Put\<close>

lemma install_touches: "oc \<in> set (fst (install_ops io t n)) \<Longrightarrow> touches oc = Some n"
  by (auto simp: install_ops_def Let_def split: if_splits)

lemma install_installs:
  assumes "map_of (tmp_dir d) t = Some c" and "snd (install_ops io t n) = None"
  shows "fileof (fold disk_exec (fst (install_ops io t n)) d) n = Some c"
  using assms by (auto simp: install_ops_def Let_def update_conv' split: if_splits)

lemma put_blob_touches: "oc \<in> set (fst (put_blob_ops io a)) \<Longrightarrow> touches oc \<in> {None, Some (blob_name (sa_id a))}"
  using install_touches [of oc "blob_install io" "blob_tmp io (sa_id a)" "blob_name (sa_id a)"]
  by (auto simp: put_blob_ops_def Let_def split: if_splits prod.splits option.splits)

lemma put_meta_touches: "oc \<in> set (fst (put_meta_ops io a)) \<Longrightarrow> touches oc \<in> {None, Some (meta_name (sa_id a))}"
  using install_touches [of oc "meta_install io" "meta_tmp io (sa_id a)" "meta_name (sa_id a)"]
  by (auto simp: put_meta_ops_def Let_def split: if_splits prod.splits option.splits)

lemma put_blob_installs:
  assumes "snd (put_blob_ops io a) = Inr u"
  shows "fileof (fold disk_exec (fst (put_blob_ops io a)) d) (blob_name (sa_id a)) =
    Some (written (blob_short io) (string_of_bytes (sa_bytes a)))"
  using assms install_installs [of _ "blob_tmp io (sa_id a)" _ "blob_install io" "blob_name (sa_id a)"]
  by (auto simp: put_blob_ops_def Let_def update_conv' split: if_splits prod.splits option.splits)

lemma put_meta_shape:
  obtains "fst (put_meta_ops io a) = []"
  | w where "fst (put_meta_ops io a) = [WriteTmp (meta_tmp io (sa_id a)) w]"
  | rest where "fst (put_meta_ops io a) = WriteTmp (meta_tmp io (sa_id a)) (full_meta a) # rest"
      and "set rest \<subseteq> {Install (meta_tmp io (sa_id a)) (meta_name (sa_id a)), RemoveArtifact (meta_name (sa_id a)),
        RemoveTmp (blob_tmp io (sa_id a))}"
proof (cases "build_meta a \<noteq> [] \<and> meta_open io \<and> length (full_meta a) \<le> length (written (meta_short io) (full_meta a))")
  case False
  then have "fst (put_meta_ops io a) = [] \<or> (\<exists>w. fst (put_meta_ops io a) = [WriteTmp (meta_tmp io (sa_id a)) w])"
    by (auto simp: put_meta_ops_def Let_def)
  then show ?thesis using that(1,2) by blast
next
  case True
  then show ?thesis
    by (intro that(3) [of "tl (fst (put_meta_ops io a))"])
      (auto simp: put_meta_ops_def install_ops_def Let_def written_full split: if_splits)
qed

lemma install_states:
  assumes "set ops \<subseteq> {Install t n, RemoveArtifact n, RemoveTmp u}" and "\<forall>c. map_of (tmp_dir d) t = Some c \<longrightarrow> c = f"
    and "fileof d n \<in> {old, None, Some f}"
  shows "fileof (fold disk_exec ops d) n \<in> {old, None, Some f}"
  using assms
proof (induction ops arbitrary: d)
  case (Cons oc ops)
  have "\<forall>c. map_of (tmp_dir (disk_exec oc d)) t = Some c \<longrightarrow> c = f" and "fileof (disk_exec oc d) n \<in> {old, None, Some f}"
    using Cons.prems by (auto simp: update_conv' delete_conv' split: option.splits if_splits)
  with Cons show ?case by simp
qed simp

lemma put_meta_states:
  "fileof (fold disk_exec (take n (fst (put_meta_ops io a))) d) (meta_name (sa_id a)) \<in>
    {fileof d (meta_name (sa_id a)), None, Some (full_meta a)}"
proof (cases rule: put_meta_shape [of io a])
  case (2 w)
  then show ?thesis by (cases n) simp_all
next
  case (3 rest)
  show ?thesis
  proof (cases n)
    case (Suc m)
    have "set (take m rest) \<subseteq> set rest" by (rule set_take_subset)
    with 3 Suc show ?thesis
      by (simp only: take_Suc_Cons fold_simps) (rule install_states, auto simp: update_conv')
  qed simp
qed simp

lemma put_meta_installs:
  assumes "snd (put_meta_ops io a) = Inr u"
  shows "fileof (fold disk_exec (fst (put_meta_ops io a)) d) (meta_name (sa_id a)) = Some (full_meta a)"
  using assms by (auto simp: put_meta_ops_def install_ops_def Let_def update_conv' not_less split: if_splits)

text \<open>The files after a crash at any point of a \<^verbatim>\<open>put\<close>.\<close>

lemma put_prefix_files:
  assumes "d' = fold disk_exec (take n (fst (put_ops io a))) d"
  shows "f \<noteq> meta_name (sa_id a) \<Longrightarrow> f \<noteq> blob_name (sa_id a) \<Longrightarrow> fileof d' f = fileof d f"
    and "fileof d' (meta_name (sa_id a)) \<in> {fileof d (meta_name (sa_id a)), None} \<or>
      fileof d' (meta_name (sa_id a)) = Some (full_meta a) \<and>
      fileof d' (blob_name (sa_id a)) = Some (written (blob_short io) (string_of_bytes (sa_bytes a)))"
proof -
  let ?A = "fst (put_blob_ops io a)" and ?B = "fst (put_meta_ops io a)"
  have touch: "touches oc \<in> {None, Some (blob_name (sa_id a))}" if "oc \<in> set (take k ?A)" for oc k
    using put_blob_touches in_set_takeD [OF that] by blast
  have touch': "touches oc \<in> {None, Some (meta_name (sa_id a))}" if "oc \<in> set (take k ?B)" for oc k
    using put_meta_touches in_set_takeD [OF that] by blast
  consider (blob) m where "d' = fold disk_exec (take m ?A) d"
    | (meta) m u where "d' = fold disk_exec (take m ?B) (fold disk_exec ?A d)" "snd (put_blob_ops io a) = Inr u"
  proof (cases "snd (put_blob_ops io a)")
    case (Inl e)
    then show thesis using that(1) [of n] assms by (auto simp: put_ops_def split: prod.splits sum.splits)
  next
    case (Inr u)
    then have "fst (put_ops io a) = ?A @ ?B" by (auto simp: put_ops_def split: prod.splits)
    then show thesis
      using that(1) [of n] that(2) [of "n - length ?A" u, OF _ Inr] assms
      by (cases "n \<le> length ?A") simp_all
  qed
  note cs = this
  show "fileof d' f = fileof d f" if "f \<noteq> meta_name (sa_id a)" "f \<noteq> blob_name (sa_id a)"
    using cs
  proof cases
    case (blob m)
    then show ?thesis using touch that by (fastforce intro: fold_disk_exec_untouched)
  next
    case (meta m u)
    have "fileof (fold disk_exec (take m ?B) d1) f = fileof d1 f" for d1
      using touch' that by (fastforce intro: fold_disk_exec_untouched)
    moreover have "fileof (fold disk_exec ?A d) f = fileof d f"
      using touch [of _ "length ?A"] that by (fastforce intro: fold_disk_exec_untouched)
    ultimately show ?thesis using meta by simp
  qed
  show "fileof d' (meta_name (sa_id a)) \<in> {fileof d (meta_name (sa_id a)), None} \<or>
      fileof d' (meta_name (sa_id a)) = Some (full_meta a) \<and>
      fileof d' (blob_name (sa_id a)) = Some (written (blob_short io) (string_of_bytes (sa_bytes a)))"
    using cs
  proof cases
    case (blob m)
    then have "fileof d' (meta_name (sa_id a)) = fileof d (meta_name (sa_id a))"
      using touch by (fastforce intro: fold_disk_exec_untouched)
    then show ?thesis by simp
  next
    case (meta m u)
    have "fileof (fold disk_exec ?A d) (meta_name (sa_id a)) = fileof d (meta_name (sa_id a))"
      using touch [of _ "length ?A"] by (fastforce intro: fold_disk_exec_untouched)
    moreover have "fileof d' (blob_name (sa_id a)) = Some (written (blob_short io) (string_of_bytes (sa_bytes a)))"
      using put_blob_installs [OF meta(2)] touch' unfolding meta(1)
      by (subst fold_disk_exec_untouched) fastforce+
    ultimately show ?thesis using put_meta_states [of m io a "fold disk_exec ?A d"] by (simp add: meta(1))
  qed
qed

lemma put_ok_files:
  assumes "snd (put_ops io a) = Inr u" and "d' = fold disk_exec (fst (put_ops io a)) d"
  shows "fileof d' (meta_name (sa_id a)) = Some (full_meta a)"
    and "fileof d' (blob_name (sa_id a)) = Some (written (blob_short io) (string_of_bytes (sa_bytes a)))"
proof -
  from assms(1) obtain v where v: "snd (put_blob_ops io a) = Inr v" "snd (put_meta_ops io a) = Inr u"
    by (auto simp: put_ops_def split: prod.splits sum.splits)
  then have d': "d' = fold disk_exec (fst (put_meta_ops io a)) (fold disk_exec (fst (put_blob_ops io a)) d)"
    using assms(2) by (auto simp: put_ops_def split: prod.splits)
  show "fileof d' (meta_name (sa_id a)) = Some (full_meta a)"
    unfolding d' using v(2) by (rule put_meta_installs)
  show "fileof d' (blob_name (sa_id a)) = Some (written (blob_short io) (string_of_bytes (sa_bytes a)))"
    unfolding d' using put_blob_installs [OF v(1)] put_meta_touches
    by (subst fold_disk_exec_untouched) fastforce+
qed

subsection \<open>Well-formed stores\<close>

text \<open>
  The names of the files and the ids in them agree. In a store that works well, the system moreover
  writes blobs completely and removes files when asked to.
\<close>

definition names_agree :: "Disk \<Rightarrow> bool" where
  "names_agree d \<longleftrightarrow> distinct (map fst (artifacts_dir d)) \<and>
     (\<forall>n t st a. fileof d n = Some t \<and> stem_ext n = (st, ''.meta'') \<and> parse_meta t = Inr a \<longrightarrow> st = str (sa_id a))"

definition disk_ok :: "FileStore \<Rightarrow> bool" where
  "disk_ok p \<longleftrightarrow> store_root p \<noteq> [] \<and> names_agree (disk p)"

definition store_wf :: "FileStore \<Rightarrow> bool" where
  "store_wf p \<longleftrightarrow> disk_ok p \<and> (\<forall>k. blob_short (put_io p k) = None) \<and> (\<forall>n. unlink_ok p n)"

lemma store_get_eq:
  "store_root p \<noteq> [] \<Longrightarrow> store_get p i =
     (case fileof (disk p) (meta_name i) of
        None \<Rightarrow> fail EC_NotFound ''meta missing''
      | Some t \<Rightarrow> if t = [] then fail EC_NotFound ''meta missing''
                  else parse_artifact_inner (str i) t (fileof (disk p) (blob_name i)))"
  by (simp add: store_get_def read_file_def Let_def split: option.split)

lemma parse_inner_id: "parse_artifact_inner idh t b = Inr a \<Longrightarrow> \<exists>a'. parse_meta t = Inr a' \<and> sa_id a' = sa_id a"
  by (auto simp: parse_artifact_inner_def dest!: check_blob_integrity split: sum.splits)

lemma full_meta_not_Nil [simp]: "full_meta a \<noteq> []"
  by (simp add: full_meta_def)

lemma names_agree_prefix:
  assumes "names_agree d" and "storable a"
  shows "names_agree (fold disk_exec (take n (fst (put_ops io a))) d)"
proof -
  define d' where "d' = fold disk_exec (take n (fst (put_ops io a))) d"
  note files = put_prefix_files [OF d'_def]
  have "st = str (sa_id b)" if "fileof d' f = Some t" "stem_ext f = (st, ''.meta'')" "parse_meta t = Inr b" for f t st b
  proof -
    note ft = that
    have f: "f = st @ ''.meta''" using stem_ext_join that(2) by blast
    consider "f = meta_name (sa_id a)" | "f = blob_name (sa_id a)" | "fileof d' f = fileof d f" using files(1) by blast
    then show ?thesis
    proof cases
      case 1
      then consider "fileof d f = Some t" | "t = full_meta a" using files(2) ft(1) by auto
      then show ?thesis
      proof cases
        case 1
        then show ?thesis using assms(1) that unfolding names_agree_def by blast
      next
        case 2
        then show ?thesis using parse_full_meta [OF assms(2)] that 1 \<open>f = meta_name (sa_id a)\<close>
          by (auto simp: stored_view_def)
      qed
    next
      case 2
      then show ?thesis using f by (simp add: blob_name_def)
    next
      case 3
      then show ?thesis using assms(1) that unfolding names_agree_def by metis
    qed
  qed
  then show ?thesis using assms(1) fold_exec_distinct unfolding names_agree_def d'_def by blast
qed

lemma store_put_eq:
  "store_root p \<noteq> [] \<Longrightarrow> store_put p a = (snd (put_ops (put_io p (puts p)) a),
     p\<lparr>disk := fold disk_exec (fst (put_ops (put_io p (puts p)) a)) (disk p), puts := Suc (puts p)\<rparr>)"
  by (simp add: store_put_def split: prod.split)

lemma store_put_wf:
  assumes "store_wf p" "storable a" "store_put p a = (r, p')"
  shows "store_wf p'"
  using assms names_agree_prefix [of "disk p" a "length (fst (put_ops (put_io p (puts p)) a))" "put_io p (puts p)"]
  by (auto simp: store_wf_def disk_ok_def store_put_eq)

lemma store_put_get:
  assumes "store_wf p" "storable a" "store_put p a = (ok, p')"
  shows "store_get p' (sa_id a) = Inr (stored_view a)"
proof -
  let ?io = "put_io p (puts p)"
  from assms have r: "store_root p \<noteq> []" "snd (put_ops ?io a) = ok" "store_root p' = store_root p"
    and d: "disk p' = fold disk_exec (fst (put_ops ?io a)) (disk p)"
    by (auto simp: store_wf_def disk_ok_def store_put_eq)
  have "blob_short ?io = None" using assms by (simp add: store_wf_def)
  with put_ok_files [OF r(2) d] show ?thesis using r by (simp add: store_get_eq parse_written [OF assms(2)] written_def)
qed

lemma store_put_other:
  assumes "store_root p \<noteq> []" "store_put p a = (r, p')" "i \<noteq> sa_id a"
  shows "store_get p' i = store_get p i"
proof -
  let ?io = "put_io p (puts p)"
  from assms have r: "store_root p' = store_root p"
    and d: "disk p' = fold disk_exec (take (length (fst (put_ops ?io a))) (fst (put_ops ?io a))) (disk p)"
    by (auto simp: store_put_eq)
  have "fileof (disk p') (meta_name i) = fileof (disk p) (meta_name i)"
    "fileof (disk p') (blob_name i) = fileof (disk p) (blob_name i)"
    using assms(3) by (intro put_prefix_files(1) [OF d]; simp)+
  then show ?thesis using assms(1) r by (simp add: store_get_eq split: option.split)
qed

lemma store_get_id:
  assumes "disk_ok p" "store_get p i = Inr a"
  shows "sa_id a = i"
proof -
  from assms obtain t where t: "fileof (disk p) (meta_name i) = Some t"
    "parse_artifact_inner (str i) t (fileof (disk p) (blob_name i)) = Inr a"
    by (auto simp: store_get_eq disk_ok_def split: option.splits if_splits)
  then obtain a' where "parse_meta t = Inr a'" "sa_id a' = sa_id a" using parse_inner_id by blast
  with assms(1) t(1) have "str i = str (sa_id a)" unfolding disk_ok_def names_agree_def by (metis stem_ext_meta)
  then show ?thesis by simp
qed

subsection \<open>Recovery\<close>

definition entry :: "(string \<times> string) list \<Rightarrow> string \<times> string \<Rightarrow> StoredArtifact option" where
  "entry dir e =
     (case stem_ext (fst e) of (st, ex) \<Rightarrow>
        if ex \<noteq> ''.meta'' \<or> snd e = [] then None
        else case parse_artifact_inner st (snd e) (map_of dir (st @ ''.blob'')) of Inl _ \<Rightarrow> None | Inr a \<Rightarrow> Some a)"

lemma scan_valid: "fst (scan dir es) = List.map_filter (entry dir) es"
  by (induction dir es rule: scan.induct)
    (auto simp: entry_def List.map_filter_simps Let_def split: prod.splits option.splits sum.splits if_splits)

lemma entry_get:
  assumes "disk_ok p" "e \<in> set (artifacts_dir (disk p))" "entry (artifacts_dir (disk p)) e = Some a"
  shows "fst e = meta_name (sa_id a) \<and> store_get p (sa_id a) = Inr a"
proof -
  obtain st where st: "stem_ext (fst e) = (st, ''.meta'')" "snd e \<noteq> []"
    and parse: "parse_artifact_inner st (snd e) (fileof (disk p) (st @ ''.blob'')) = Inr a"
    using assms(3) by (auto simp: entry_def split: prod.splits sum.splits if_splits)
  have f: "fst e = st @ ''.meta''" using stem_ext_join st(1) by blast
  have m: "fileof (disk p) (fst e) = Some (snd e)"
    using assms(1,2) unfolding disk_ok_def names_agree_def by simp
  obtain a' where "parse_meta (snd e) = Inr a'" "sa_id a' = sa_id a" using parse_inner_id [OF parse] by blast
  with m st assms(1) have s: "st = str (sa_id a)" unfolding disk_ok_def names_agree_def by metis
  moreover have "store_root p \<noteq> []" using assms(1) by (simp add: disk_ok_def)
  ultimately show ?thesis using parse f m st(2)
    by (simp add: store_get_eq meta_name_def blob_name_def)
qed

lemma get_entry:
  assumes "store_root p \<noteq> []" "store_get p i = Inr a"
  shows "\<exists>e \<in> set (artifacts_dir (disk p)). entry (artifacts_dir (disk p)) e = Some a"
proof -
  from assms obtain t where "fileof (disk p) (meta_name i) = Some t" "t \<noteq> []"
    "parse_artifact_inner (str i) t (fileof (disk p) (blob_name i)) = Inr a"
    by (auto simp: store_get_eq split: option.splits if_splits)
  then show ?thesis
    by (intro bexI [of _ "(meta_name i, t)"]) (simp_all add: entry_def blob_name_def map_of_SomeD)
qed

lemma set_map_filter: "set (List.map_filter f xs) = {y. \<exists>x \<in> set xs. f x = Some y}"
  by (force simp: List.map_filter_def)

lemma distinct_map_filter:
  assumes "distinct (map fst xs)" and "\<And>x a. x \<in> set xs \<Longrightarrow> f x = Some a \<Longrightarrow> fst x = g (h a)" and "inj g"
  shows "distinct (map h (List.map_filter f xs))"
  using assms(1,2)
proof (induction xs)
  case (Cons x xs)
  show ?case
  proof (cases "f x")
    case (Some a)
    have "h a \<noteq> h b" if "y \<in> set xs" "f y = Some b" for y b
      using Cons.prems that Some by (metis list.set_intros image_eqI distinct.simps(2) list.simps(9) set_map)
    then have "h a \<notin> h ` set (List.map_filter f xs)" by (auto simp: set_map_filter)
    with Cons Some show ?thesis by (simp add: List.map_filter_simps)
  qed (use Cons in \<open>simp add: List.map_filter_simps\<close>)
qed (simp add: List.map_filter_simps)

lemma store_recover_eq:
  assumes "store_root p \<noteq> []"
  shows "\<exists>rj oph p'. store_recover p =
      (Inr (List.map_filter (entry (artifacts_dir (disk p))) (artifacts_dir (disk p))), rj, oph, p') \<and>
    p' = p\<lparr>disk := (disk p)\<lparr>tmp_dir := filter (\<lambda>(n, _). \<not> unlink_ok p n) (tmp_dir (disk p))\<rparr>\<rparr>"
  using assms scan_valid [of "artifacts_dir (disk p)" "artifacts_dir (disk p)"]
  by (auto simp: store_recover_def Let_def split: prod.splits)

lemma store_get_same_files:
  "store_root p' = store_root p \<Longrightarrow> artifacts_dir (disk p') = artifacts_dir (disk p) \<Longrightarrow> store_get p' i = store_get p i"
  by (simp add: store_get_def)

lemma store_recover_correct:
  assumes "disk_ok p"
  shows "\<exists>sas rj oph p'. store_recover p = (Inr sas, rj, oph, p') \<and> disk_ok p' \<and> put_io p' = put_io p \<and> unlink_ok p' = unlink_ok p \<and> (\<forall>i. store_get p' i = store_get p i) \<and>
    distinct (map sa_id sas) \<and> set sas = {a. \<exists>i. store_get p i = Inr a}"
proof -
  let ?d = "artifacts_dir (disk p)"
  let ?sas = "List.map_filter (entry ?d) ?d"
  have root: "store_root p \<noteq> []" using assms by (simp add: disk_ok_def)
  obtain rj oph p' where r: "store_recover p = (Inr ?sas, rj, oph, p')"
    and p': "p' = p\<lparr>disk := (disk p)\<lparr>tmp_dir := filter (\<lambda>(n, _). \<not> unlink_ok p n) (tmp_dir (disk p))\<rparr>\<rparr>"
    using store_recover_eq [OF root] by blast
  have "inj meta_name" by (rule injI) simp
  then have "distinct (map sa_id ?sas)"
    using assms entry_get [OF assms] by (intro distinct_map_filter) (auto simp: disk_ok_def names_agree_def)
  moreover have "set ?sas = {a. \<exists>i. store_get p i = Inr a}"
    using entry_get [OF assms] get_entry [OF root] unfolding set_map_filter by blast
  moreover have "disk_ok p' \<and> put_io p' = put_io p \<and> unlink_ok p' = unlink_ok p" using assms by (simp add: p' disk_ok_def names_agree_def)
  moreover have "store_get p' i = store_get p i" for i by (rule store_get_same_files) (simp_all add: p')
  ultimately show ?thesis using r by blast
qed

subsection \<open>Remove\<close>

lemma store_remove_correct:
  assumes "store_wf p" and "store_remove p i = (r, p')"
  shows "r = ok" and "store_wf p'" and "store_get p' i = fail EC_NotFound ''meta missing''"
    and "j \<noteq> i \<Longrightarrow> store_get p' j = store_get p j"
proof -
  let ?d = "disk_exec (RemoveArtifact (blob_name i)) (disk_exec (RemoveArtifact (meta_name i)) (disk p))"
  have root: "store_root p \<noteq> []" "\<forall>n. unlink_ok p n" using assms(1) by (simp_all add: store_wf_def disk_ok_def)
  then have rp: "r = ok" "p' = p\<lparr>disk := ?d\<rparr>" using assms(2) by (auto simp: store_remove_def Let_def)
  then show "r = ok" by simp
  have f: "fileof ?d n = (if n = meta_name i \<or> n = blob_name i then None else fileof (disk p) n)" for n
    by (simp add: delete_conv')
  have "distinct (map fst (artifacts_dir ?d))"
    using assms(1) exec_distinct unfolding store_wf_def disk_ok_def names_agree_def by blast
  then have "names_agree ?d"
    using assms(1) unfolding store_wf_def disk_ok_def names_agree_def f by (auto split: if_splits)
  then show "store_wf p'" using assms(1) by (simp add: rp store_wf_def disk_ok_def)
  show "store_get p' i = fail EC_NotFound ''meta missing''"
    using root f [of "meta_name i"] by (simp add: rp store_get_eq)
  show "store_get p' j = store_get p j" if "j \<noteq> i"
    using root that f [of "meta_name j"] f [of "blob_name j"] by (simp add: rp store_get_eq split: option.split)
qed

subsection \<open>The contract of a store\<close>

datatype StoreOp = SPut StoredArtifact | SRemove ArtifactId

text \<open>A run of a store that stops at the first error, and the same run on a finite map.\<close>

fun run_store :: "('p \<Rightarrow> StoredArtifact \<Rightarrow> unit result \<times> 'p) \<Rightarrow> ('p \<Rightarrow> ArtifactId \<Rightarrow> unit result \<times> 'p) \<Rightarrow>
    StoreOp list \<Rightarrow> 'p \<Rightarrow> 'p option" where
  "run_store st_put st_rm [] p = Some p"
| "run_store st_put st_rm (SPut a # ops) p =
     (case st_put p a of (Inr _, p') \<Rightarrow> run_store st_put st_rm ops p' | (Inl _, _) \<Rightarrow> None)"
| "run_store st_put st_rm (SRemove i # ops) p =
     (case st_rm p i of (Inr _, p') \<Rightarrow> run_store st_put st_rm ops p' | (Inl _, _) \<Rightarrow> None)"

fun run_map :: "(StoredArtifact \<Rightarrow> StoredArtifact) \<Rightarrow> StoreOp list \<Rightarrow> (ArtifactId \<rightharpoonup> StoredArtifact) \<Rightarrow>
    (ArtifactId \<rightharpoonup> StoredArtifact)" where
  "run_map view [] m = m"
| "run_map view (SPut a # ops) m = run_map view ops (m(sa_id a \<mapsto> view a))"
| "run_map view (SRemove i # ops) m = run_map view ops (m(i := None))"

definition contents :: "('p \<Rightarrow> ArtifactId \<Rightarrow> StoredArtifact result) \<Rightarrow> 'p \<Rightarrow> (ArtifactId \<rightharpoonup> StoredArtifact)" where
  "contents st_get p = (\<lambda>i. case st_get p i of Inl _ \<Rightarrow> None | Inr a \<Rightarrow> Some a)"

locale artifact_store =
  fixes st_put :: "'p \<Rightarrow> StoredArtifact \<Rightarrow> unit result \<times> 'p"
    and st_rm :: "'p \<Rightarrow> ArtifactId \<Rightarrow> unit result \<times> 'p"
    and st_get :: "'p \<Rightarrow> ArtifactId \<Rightarrow> StoredArtifact result"
    and st_recover :: "'p \<Rightarrow> StoredArtifact list result \<times> string list \<times> string list \<times> 'p"
    and wf :: "'p \<Rightarrow> bool" and good :: "StoredArtifact \<Rightarrow> bool" and view :: "StoredArtifact \<Rightarrow> StoredArtifact"
  assumes put_wf: "wf p \<Longrightarrow> good a \<Longrightarrow> st_put p a = (r, p') \<Longrightarrow> wf p'"
    and put_get: "wf p \<Longrightarrow> good a \<Longrightarrow> st_put p a = (ok, p') \<Longrightarrow> st_get p' (sa_id a) = Inr (view a)"
    and put_other: "wf p \<Longrightarrow> good a \<Longrightarrow> st_put p a = (r, p') \<Longrightarrow> i \<noteq> sa_id a \<Longrightarrow> st_get p' i = st_get p i"
    and rm_wf: "wf p \<Longrightarrow> st_rm p i = (r, p') \<Longrightarrow> wf p'"
    and rm_get: "wf p \<Longrightarrow> st_rm p i = (r, p') \<Longrightarrow> \<exists>e. st_get p' i = Inl e"
    and rm_other: "wf p \<Longrightarrow> st_rm p i = (r, p') \<Longrightarrow> j \<noteq> i \<Longrightarrow> st_get p' j = st_get p j"
    and get_id: "wf p \<Longrightarrow> st_get p i = Inr a \<Longrightarrow> sa_id a = i"
    and recover_all: "wf p \<Longrightarrow> \<exists>sas rj oph p'. st_recover p = (Inr sas, rj, oph, p') \<and> wf p' \<and>
      (\<forall>i. st_get p' i = st_get p i) \<and> distinct (map sa_id sas) \<and> set sas = {a. \<exists>i. st_get p i = Inr a}"
begin

lemma contents_put: "wf p \<Longrightarrow> good a \<Longrightarrow> st_put p a = (ok, p') \<Longrightarrow> contents st_get p' = (contents st_get p)(sa_id a \<mapsto> view a)"
  by (auto simp: contents_def put_get put_other fun_eq_iff)

lemma contents_rm: "wf p \<Longrightarrow> st_rm p i = (r, p') \<Longrightarrow> contents st_get p' = (contents st_get p)(i := None)"
  using rm_get by (fastforce simp: contents_def rm_other fun_eq_iff)

lemma run_refines:
  assumes "wf p" "\<forall>a. SPut a \<in> set ops \<longrightarrow> good a" "run_store st_put st_rm ops p = Some p'"
  shows "wf p' \<and> contents st_get p' = run_map view ops (contents st_get p)"
  using assms
proof (induction ops arbitrary: p)
  case (Cons x ops)
  show ?case
  proof (cases x)
    case (SPut a)
    then obtain q where "st_put p a = (ok, q)" "run_store st_put st_rm ops q = Some p'"
      using Cons.prems(3) by (auto split: prod.splits sum.splits)
    then show ?thesis
      using Cons.IH [of q] Cons.prems put_wf [of p a] contents_put [of p a] SPut by (simp, metis)
  next
    case (SRemove i)
    then obtain r q where "st_rm p i = (r, q)" "run_store st_put st_rm ops q = Some p'"
      using Cons.prems(3) by (auto split: prod.splits sum.splits)
    then show ?thesis
      using Cons.IH [of q] Cons.prems rm_wf [of p i] contents_rm [of p i] SRemove by (simp, metis)
  qed
qed simp

lemma recover_contents:
  assumes "wf p"
  shows "\<exists>sas rj oph p'. st_recover p = (Inr sas, rj, oph, p') \<and> distinct (map sa_id sas) \<and> set sas = ran (contents st_get p)"
proof -
  have "ran (contents st_get p) = {a. \<exists>i. st_get p i = Inr a}" 
    unfolding ran_def contents_def by (auto split: sum.splits) (metis sum.exhaust, metis sum.inject(2) sum.simps(4))
  then show ?thesis using recover_all [OF assms] by auto
qed

end

interpretation fs: artifact_store store_put store_remove store_get store_recover store_wf storable stored_view
proof
  fix p :: FileStore and a r p'
  assume p: "store_wf p"
  then have root: "disk_ok p" "store_root p \<noteq> []" by (simp_all add: store_wf_def disk_ok_def)
  show "store_wf p'" if "storable a" "store_put p a = (r, p')" using store_put_wf p that by blast
  show "store_get p' (sa_id a) = Inr (stored_view a)" if "storable a" "store_put p a = (ok, p')"
    using store_put_get p that by blast
  show "store_get p' i = store_get p i" if "storable a" "store_put p a = (r, p')" "i \<noteq> sa_id a" for i
    using store_put_other root that by blast
  fix i
  show "store_wf p'" if "store_remove p i = (r, p')" using store_remove_correct(2) p that by blast
  show "\<exists>e. store_get p' i = Inl e" if "store_remove p i = (r, p')" using store_remove_correct(3) p that by blast
  show "store_get p' j = store_get p j" if "store_remove p i = (r, p')" "j \<noteq> i" for j
    using store_remove_correct(4) p that by blast
  show "sa_id a = i" if "store_get p i = Inr a" using store_get_id root that by blast
  show "\<exists>sas rj oph p'. store_recover p = (Inr sas, rj, oph, p') \<and> store_wf p' \<and>
      (\<forall>i. store_get p' i = store_get p i) \<and> distinct (map sa_id sas) \<and> set sas = {a. \<exists>i. store_get p i = Inr a}"
    using store_recover_correct [OF root(1)] p unfolding store_wf_def by metis
qed

subsection \<open>Crashes\<close>

text \<open>
  The disk when the process dies in a \<^verbatim>\<open>put\<close>: after \<open>n\<close> changes, with \<open>k\<close> bytes of the next temporary
  file written if a write was under way.
\<close>

definition crash_disk :: "PutIO \<Rightarrow> StoredArtifact \<Rightarrow> nat \<Rightarrow> nat \<Rightarrow> Disk \<Rightarrow> Disk" where
  "crash_disk io a n k d =
     (let ops = fst (put_ops io a); d = fold disk_exec (take n ops) d
      in case drop n ops of WriteTmp f c # _ \<Rightarrow> disk_exec (WriteTmp f (take k c)) d | _ \<Rightarrow> d)"

lemma crash_files: "artifacts_dir (crash_disk io a n k d) = artifacts_dir (fold disk_exec (take n (fst (put_ops io a))) d)"
  by (simp add: crash_disk_def Let_def split: list.split DiskOp.split)

lemma names_agree_files: "artifacts_dir d' = artifacts_dir d \<Longrightarrow> names_agree d' = names_agree d"
  by (simp add: names_agree_def)

lemma crash_get:
  assumes "disk_ok p" "storable a" "fileof (disk p) (meta_name (sa_id a)) = None"
    and p': "p' = p\<lparr>disk := crash_disk io a n k (disk p)\<rparr>"
  shows "i \<noteq> sa_id a \<Longrightarrow> store_get p' i = store_get p i"
    and "store_get p' (sa_id a) = Inr (stored_view a) \<or>
      (\<exists>m. store_get p' (sa_id a) \<in> {fail EC_NotFound ''meta missing'', fail EC_TruncatedData m})"
    and "disk_ok p'"
proof -
  define d' where "d' = fold disk_exec (take n (fst (put_ops io a))) (disk p)"
  note files = put_prefix_files [OF d'_def]
  have root: "store_root p' \<noteq> []" "store_root p \<noteq> []" using assms(1) by (simp_all add: p' disk_ok_def)
  have art: "artifacts_dir (disk p') = artifacts_dir d'" by (simp add: p' crash_files d'_def)
  show "store_get p' i = store_get p i" if "i \<noteq> sa_id a"
    using root that files(1) [of "meta_name i"] files(1) [of "blob_name i"]
    by (simp add: store_get_eq art split: option.split)
  have "names_agree d'" using assms(1,2) names_agree_prefix by (simp add: disk_ok_def d'_def)
  then show "disk_ok p'" using root names_agree_files [OF art] by (simp add: disk_ok_def)
  from files(2) consider "fileof d' (meta_name (sa_id a)) = None" | "fileof d' (meta_name (sa_id a)) = Some (full_meta a)"
    "fileof d' (blob_name (sa_id a)) = Some (written (blob_short io) (string_of_bytes (sa_bytes a)))"
    using assms(3) by auto
  then show "store_get p' (sa_id a) = Inr (stored_view a) \<or>
      (\<exists>m. store_get p' (sa_id a) \<in> {fail EC_NotFound ''meta missing'', fail EC_TruncatedData m})"
  proof cases
    case 2
    then show ?thesis
      using root parse_written [OF assms(2)] parse_short [OF assms(2)]
      by (cases rule: written_cases [of "blob_short io" "string_of_bytes (sa_bytes a)"]) (simp_all add: store_get_eq art)
  qed (use root in \<open>simp add: store_get_eq art\<close>)
qed

subsection \<open>Opening and listing\<close>

text \<open>
  Opening never touches artifacts. A store that was opened can be opened again, and a failed open
  leaves the store as it was, except for a marker it could not finish.
\<close>

lemma store_open_correct:
  assumes "store_open io rt p = (r, p')"
  shows "artifacts_dir (disk p') = artifacts_dir (disk p) \<and> tmp_dir (disk p') = tmp_dir (disk p)"
    and "r = ok \<Longrightarrow> store_root p' = rt \<and> rt \<noteq> []"
    and "r \<noteq> ok \<Longrightarrow> store_root p' = store_root p"
    and "r = ok \<Longrightarrow> mkdir_error io' = None \<Longrightarrow> store_open io' rt p' = (ok, p')"
proof -
  have "pop_while (\<lambda>c. c = eol \<or> c = CHR 0x0D) kFormatMagic = kFormatMagic"
    by (simp add: pop_while_def kFormatMagic_def eol_def)
  then show "r = ok \<Longrightarrow> mkdir_error io' = None \<Longrightarrow> store_open io' rt p' = (ok, p')"
    using assms by (auto simp: store_open_def Let_def not_less split: if_splits option.splits)
qed (use assms in \<open>auto simp: store_open_def Let_def split: if_splits option.splits\<close>)

lemma store_list_complete:
  assumes "store_list p = Inr is" and "store_get p i = Inr a"
  shows "i \<in> set is"
proof (cases "store_root p = []")
  case False
  then obtain t where "fileof (disk p) (meta_name i) = Some t"
    using assms(2) by (auto simp: store_get_eq split: option.splits)
  then have "(meta_name i, t) \<in> set (artifacts_dir (disk p))" by (rule map_of_SomeD)
  moreover have "is = concat (map (\<lambda>(name, _). let (st, ex) = stem_ext name
      in if ex = ''.meta'' then (case parse st of Inl _ \<Rightarrow> [] | Inr i \<Rightarrow> [i]) else []) (artifacts_dir (disk p)))"
    using assms(1) False by (simp add: store_list_def)
  ultimately show ?thesis by (simp only: set_concat set_map UN_iff bex_simps) (rule bexI [of _ "(meta_name i, t)"], simp_all add: parse_str_id)
qed (use assms(2) in \<open>simp add: store_get_def\<close>)

subsection \<open>Sample stores\<close>

definition good_io :: PutIO where
  "good_io = \<lparr>token = ''7'', blob_open = True, blob_short = None,
     blob_install = \<lparr>first_rename = True, remove_ok = True, second_rename = True, os_message = []\<rparr>,
     meta_open = True, meta_short = None,
     meta_install = \<lparr>first_rename = True, remove_ok = True, second_rename = True, os_message = []\<rparr>\<rparr>"

definition empty_store :: "PutIO \<Rightarrow> FileStore" where
  "empty_store io = \<lparr>store_root = ''/kc'', meta_dir = ''/kc/artifacts'', blob_dir = ''/kc/artifacts'',
     disk = \<lparr>fmt_file = Some kFormatMagic, artifacts_dir = [], tmp_dir = []\<rparr>, puts = 0,
     put_io = (\<lambda>k. io), unlink_ok = (\<lambda>n. True)\<rparr>"

lemma store_wf_empty: "blob_short io = None \<Longrightarrow> store_wf (empty_store io)"
  by (simp add: store_wf_def disk_ok_def names_agree_def empty_store_def)

lemma disk_ok_empty: "disk_ok (empty_store io)"
  by (simp add: disk_ok_def names_agree_def empty_store_def)

lemma build_meta_not_Nil [simp]: "build_meta a \<noteq> []"
  by (simp add: build_meta_def kMetaMagic_def)

lemma put_ops_ok:
  assumes "blob_open io" "meta_open io" "meta_short io = None" "first_rename (blob_install io)"
    "first_rename (meta_install io)"
  shows "snd (put_ops io a) = ok"
  using assms by (simp add: put_ops_def put_blob_ops_def put_meta_ops_def install_ops_def written_def Let_def)

subsection \<open>Properties\<close>


text \<open>
  C13. A crash during a put loses nothing: wherever the process dies, and whatever part of a temporary
  file was written, every artifact stored before reads back as it was, the new one is absent, whole
  or refused as truncated, and recovery restores the old ones, at most the new one besides, and
  clears the temporary directory.
\<close>

theorem crash_safe_put:
  assumes "disk_ok p" and "storable a" and "fileof (disk p) (meta_name (sa_id a)) = None"
    and "p' = p\<lparr>disk := crash_disk io a n k (disk p)\<rparr>"
  shows "(\<forall>i. i \<noteq> sa_id a \<longrightarrow> store_get p' i = store_get p i) \<and>
    (store_get p' (sa_id a) = Inr (stored_view a) \<or>
      (\<exists>m. store_get p' (sa_id a) \<in> {fail EC_NotFound ''meta missing'', fail EC_TruncatedData m})) \<and>
    (\<exists>sas rj oph q. store_recover p' = (Inr sas, rj, oph, q) \<and>
      {b. \<exists>i. store_get p i = Inr b} \<subseteq> set sas \<and> set sas \<subseteq> insert (stored_view a) {b. \<exists>i. store_get p i = Inr b} \<and>
      ((\<forall>f. unlink_ok p f) \<longrightarrow> tmp_dir (disk q) = []))"
proof -
  note g = crash_get [OF assms]
  have root: "store_root p \<noteq> []" "store_root p' \<noteq> []" using assms(1,4) by (simp_all add: disk_ok_def)
  have none: "store_get p (sa_id a) \<noteq> Inr b" for b using assms(3) root by (simp add: store_get_eq)
  have eq: "store_get p' i = store_get p i \<or> (i = sa_id a \<and> (\<forall>b. store_get p' i = Inr b \<longrightarrow> b = stored_view a))" for i
    using g(1,2) by (cases "i = sa_id a") auto
  obtain sas rj oph q where r: "store_recover p' = (Inr sas, rj, oph, q)" and sas: "set sas = {b. \<exists>i. store_get p' i = Inr b}"
    using store_recover_correct [OF g(3)] by blast
  have old: "store_get p' i = Inr b" if "store_get p i = Inr b" for i b
    using that none [of b] g(1) [of i] by (cases "i = sa_id a") auto
  have new: "b \<in> insert (stored_view a) {b. \<exists>i. store_get p i = Inr b}" if "store_get p' i = Inr b" for i b
    using eq [of i] that by (cases "i = sa_id a") auto
  have "(\<forall>f. unlink_ok p f) \<longrightarrow> tmp_dir (disk q) = []"
    using store_recover_eq [OF root(2)] r assms(4) by auto
  moreover have "{b. \<exists>i. store_get p i = Inr b} \<subseteq> set sas" unfolding sas using old by blast
  moreover have "set sas \<subseteq> insert (stored_view a) {b. \<exists>i. store_get p i = Inr b}"
    unfolding sas using new by blast
  ultimately show ?thesis using g(1,2) r by simp
qed

text \<open>
  The write of the blob is not checked: when the system writes only part of it, put still reports
  success, and reading the artifact fails as truncated.
\<close>

theorem short_blob_write_reported_ok:
  assumes "store_root p \<noteq> []" and "storable a" and "snd (put_ops (put_io p (puts p)) a) = ok"
    and "blob_short (put_io p (puts p)) = Some k" and "k < length (sa_bytes a)"
  shows "\<exists>p' m. store_put p a = (ok, p') \<and> store_get p' (sa_id a) = fail EC_TruncatedData m"
proof -
  obtain p' where p': "store_put p a = (ok, p')" "store_root p' \<noteq> []"
    "disk p' = fold disk_exec (fst (put_ops (put_io p (puts p)) a)) (disk p)"
    using assms(1,3) by (simp add: store_put_eq)
  show ?thesis
    using p' put_ok_files [OF assms(3) p'(3)] parse_short [OF assms(2,5)] assms(4)
    by (auto simp: store_get_eq written_def)
qed

subsection \<open>Witnesses\<close>

lemma sample_bytes [simp]: "sa_bytes sample_stored = [1, 2, 3]"
  by (simp add: sample_stored_def)

lemma put_ops_good: "snd (put_ops (good_io\<lparr>blob_short := w\<rparr>) a) = ok"
  by (rule put_ops_ok) (simp_all add: good_io_def)

lemma store_put_good: "\<exists>p. store_put (empty_store good_io) a = (ok, p)"
proof -
  have "store_root (empty_store good_io) \<noteq> []" "put_io (empty_store good_io) k = good_io\<lparr>blob_short := None\<rparr>" for k
    by (simp_all add: empty_store_def good_io_def)
  then show ?thesis using put_ops_good [of None] by (simp add: store_put_eq)
qed


theorem crash_safe_put_witness:
  "store_get (empty_store good_io\<lparr>disk := crash_disk good_io sample_stored 2 10 (disk (empty_store good_io))\<rparr>) (mk_id 5 5) =
    fail EC_NotFound ''meta missing''"
proof -
  have f: "fileof (disk (empty_store good_io)) n = None" for n by (simp add: empty_store_def)
  have "mk_id 5 5 \<noteq> sa_id sample_stored" by (simp add: sample_stored_def)
  with crash_safe_put [OF disk_ok_empty storable_sample f refl, of good_io 2 10] show ?thesis
    by (simp add: store_get_eq f empty_store_def)
qed

theorem short_blob_write_reported_ok_witness:
  "\<exists>p m. store_put (empty_store (good_io\<lparr>blob_short := Some 1\<rparr>)) sample_stored = (ok, p) \<and>
    store_get p (sa_id sample_stored) = fail EC_TruncatedData m"
proof (rule short_blob_write_reported_ok [where k = 1, OF _ storable_sample])
  let ?p = "empty_store (good_io\<lparr>blob_short := Some 1\<rparr>)"
  show "snd (put_ops (put_io ?p (puts ?p)) sample_stored) = ok"
    using put_ops_good by (simp add: empty_store_def)
qed (simp_all add: empty_store_def)

end
