(* ===== verification/KC_CpuBackend.thy ===== *)
theory KC_CpuBackend
  imports KC_Metadata KC_Manage
begin

text \<open>
  The built-in CPU backend (\<^verbatim>\<open>backends/cpu/cpu_backend.cpp\<close>), the metadata checks of
  \<^verbatim>\<open>src/validation.cpp\<close> and \<^verbatim>\<open>use_builtin_backends\<close>. Single-precision arithmetic and the random engine of
  the standard library are parameters; buffers are lists of floats that do not overlap, and the
  allocations of the validator are taken to succeed.
\<close>

subsection \<open>Kernels\<close>

datatype Op = VecAdd | VecMul | ReductionSum

primrec op_value :: "Op \<Rightarrow> u8" where
  "op_value VecAdd = 0"
| "op_value VecMul = 1"
| "op_value ReductionSum = 2"

record CpuKernel =
  ck_op :: Op
  ck_dtype :: Datatype
  ck_shape :: "i64 list"
  ck_alignment :: u32
  ck_flags :: "string list"

type_synonym HostModule = CpuKernel

definition serialize_kernel :: "CpuKernel \<Rightarrow> bytes" where
  "serialize_kernel k =
     (let w = [];
          w = cw_u8 (cw_tag w 1) (op_value (ck_op k));
          w = cw_u8 (cw_tag w 2) (ck_dtype k);
          w = cw_u32 (cw_tag w 3) (word_of_nat (length (ck_shape k)));
          w = fold (\<lambda>d w. cw_i64 w d) (ck_shape k) w;
          w = cw_u32 (cw_tag w 4) (ck_alignment k);
          w = cw_u32 (cw_tag w 5) (word_of_nat (length (ck_flags k)));
          w = fold (\<lambda>f w. cw_str w f) (ck_flags k) w
      in w)"

text \<open>\<^verbatim>\<open>s.find(p) != npos\<close>\<close>

fun str_find :: "string \<Rightarrow> string \<Rightarrow> bool" where
  "str_find p [] = (p = [])"
| "str_find p (c # cs) = (take (length p) (c # cs) = p \<or> str_find p cs)"

definition parse_key :: "KernelCompatibilityKey \<Rightarrow> CpuKernel" where
  "parse_key key =
     \<lparr>ck_op = (if operation key = ''vec_add'' \<or> str_find ''add'' (operation key) then VecAdd
               else if str_find ''mul'' (operation key) then VecMul
               else if str_find ''reduce'' (operation key) \<or> str_find ''sum'' (operation key) then ReductionSum
               else VecAdd),
      ck_dtype = (case dtypes key of [] \<Rightarrow> Datatype_F32 | d # _ \<Rightarrow> d),
      ck_shape = (if shape key = [] then [1024] else shape key),
      ck_alignment = (if alignment_bytes key \<noteq> 0 then alignment_bytes key else 16),
      ck_flags = codegen_flags key\<rparr>"

text \<open>The product wraps at 64 bits; a negative extent is symbolic and counts 16.\<close>

definition count_elems :: "i64 list \<Rightarrow> u64" where
  "count_elems sh = fold (\<lambda>d n. n * (if sint d < 0 then 16 else d)) sh 1"

record 'f FloatOps =
  f_zero :: 'f
  f_add :: "'f \<Rightarrow> 'f \<Rightarrow> 'f"
  f_mul :: "'f \<Rightarrow> 'f \<Rightarrow> 'f"
  f_ne :: "'f \<Rightarrow> 'f \<Rightarrow> bool"
  f_sample :: "u64 \<Rightarrow> 'f"  \<comment> \<open>\<^verbatim>\<open>static_cast<float>(static_cast<int>(r % 1000)) / 100.0f\<close>\<close>

subsection \<open>Execution\<close>

definition op_step :: "('f, 'x) FloatOps_scheme \<Rightarrow> Op \<Rightarrow> 'f list \<Rightarrow> 'f list option \<Rightarrow> nat \<Rightarrow> 'f list \<Rightarrow> 'f list" where
  "op_step F oper a b i out =
     (let x = a ! i; y = (case b of Some b \<Rightarrow> b ! i | None \<Rightarrow> f_zero F)
      in case oper of
           VecAdd \<Rightarrow> out[i := f_add F x y]
         | VecMul \<Rightarrow> out[i := f_mul F x y]
         | ReductionSum \<Rightarrow> out[i := if i = 0 then x else f_add F (out ! (i - 1)) x])"

definition op_reference :: "('f, 'x) FloatOps_scheme \<Rightarrow> Op \<Rightarrow> 'f list \<Rightarrow> 'f list option \<Rightarrow> 'f list \<Rightarrow> nat \<Rightarrow> 'f list" where
  "op_reference F oper a b out n = fold (op_step F oper a b) [0..<n] out"

definition op_kernel :: "('f, 'x) FloatOps_scheme \<Rightarrow> Op \<Rightarrow> 'f list \<Rightarrow> 'f list option \<Rightarrow> 'f list \<Rightarrow> nat \<Rightarrow> 'f list" where
  "op_kernel F oper a b out n = fold (op_step F oper a b) [0..<n] out"

subsection \<open>Builder\<close>

definition cpu_name :: string where
  "cpu_name = ''cpu-synth''"

definition cpu_can_build :: "KernelCompatibilityKey \<Rightarrow> bool" where
  "cpu_can_build key \<longleftrightarrow> runtime_backend key = cpu_name \<or> runtime_backend key = []"

definition cpu_build :: "BuildRequest \<Rightarrow> BuildResult result" where
  "cpu_build req =
     (let k = parse_key (br_key req);
          b = serialize_kernel k;
          n = word_of_nat (length b);
          r = BuildResult_new
      in Inr (r\<lparr>bres_id := mk_id (key_hash (br_key req)) 1,
           artifact_format_name := ''kc-synth'',
           bres_bytes := b,
           bres_sizes := (bres_sizes r)\<lparr>artifact_bytes := n, host_bytes := n, storage_bytes := n,
             device_bytes_estimated := True\<rparr>,
           bres_provenance := (bres_provenance r)\<lparr>producer := cpu_name, built_at_ns := 0\<rparr>,
           bres_compilation := (bres_compilation r)\<lparr>cd_target := (cd_target (bres_compilation r))
             \<lparr>da_vendor := DeviceVendor_CPU, da_arch_name := ''x86_64''\<rparr>\<rparr>,
           bres_kernel_count := 1\<rparr>))"

subsection \<open>Validator\<close>

text \<open>The inputs: element \<open>i\<close> takes the outputs \<open>2 i\<close> and \<open>2 i + 1\<close> of the engine.\<close>

definition cpu_validate :: "('f, 'x) FloatOps_scheme \<Rightarrow> (nat \<Rightarrow> u64) \<Rightarrow> KernelValidator" where
  "cpu_validate F rng key b dev =
     (let k = parse_key key;
          n = unat (count_elems (ck_shape k));
          xs = map (\<lambda>i. f_sample F (rng (2 * i))) [0..<n];
          ys = map (\<lambda>i. f_sample F (rng (2 * i + 1))) [0..<n];
          out_ref = op_reference F (ck_op k) xs (Some ys) (replicate n (f_zero F)) n;
          out_kernel = op_kernel F (ck_op k) xs (Some ys) (replicate n (f_zero F)) n;
          match = (\<forall>i \<in> set [0..<n]. \<not> f_ne F (out_ref ! i) (out_kernel ! i))
      in Inr \<lparr>integrity_hash_checked = (b \<noteq> []), format_checked = (b \<noteq> [] \<and> length b \<ge> 8), arch_checked = True,
              abi_checked = True, metadata_consistent = True, loadable = True, execution_smoke = True,
              reference_compare = match,
              backend_reason = (if match then [] else ''CPU reference mismatch'')\<rparr>)"

subsection \<open>Loader\<close>

definition cpu_load :: "KernelCompatibilityKey \<Rightarrow> bytes \<Rightarrow> DeviceDescriptor \<Rightarrow> HostModule option result" where
  "cpu_load key b dev = Inr (Some (parse_key key))"

definition cpu_unload :: "'h \<Rightarrow> unit result" where
  "cpu_unload h = ok"

text \<open>The argument block holds three pointers of eight bytes: two inputs (the second may be null) and the output.\<close>

definition cpu_execute ::
  "('f, 'x) FloatOps_scheme \<Rightarrow> HostModule option \<Rightarrow> 'f list \<times> 'f list option \<times> 'f list \<Rightarrow> nat \<Rightarrow> 'f list result" where
  "cpu_execute F h args arg_bytes =
     (case h of
        None \<Rightarrow> fail EC_InvalidArgument ''null handle''
      | Some m \<Rightarrow>
          if arg_bytes < 3 * 8 then fail EC_InvalidArgument ''args blob too small''
          else let (a, b, out) = args; n = unat (count_elems (ck_shape m))
               in Inr (op_kernel F (ck_op m) a b out n))"

text \<open>
  The cache only tests whether a handle is null, so a module is the handle 0 in its state; \<open>footprint\<close>
  is \<^verbatim>\<open>sizeof(HostModule)\<close>.
\<close>

definition make_cpu_backend :: "('f, 'x) FloatOps_scheme \<Rightarrow> (nat \<Rightarrow> u64) \<Rightarrow> u64 \<Rightarrow> KernelBackend" where
  "make_cpu_backend F rng footprint =
     \<lparr>be_name = cpu_name,
      builder = Some \<lparr>can_build = cpu_can_build, build_fn = cpu_build\<rparr>,
      validator = Some (cpu_validate F rng),
      loader = Some \<lparr>load_fn = (\<lambda>k b d. map_sum id (map_option (\<lambda>m. 0)) (cpu_load k b d)),
        unload_fn = cpu_unload,
        execute_fn = (\<lambda>h args. if h = None then fail EC_InvalidArgument ''null handle''
                               else if length args < 3 * 8 then fail EC_InvalidArgument ''args blob too small'' else ok),
        resident_footprint = (\<lambda>h. (footprint, True))\<rparr>\<rparr>"

text \<open>The registry of a build without CUDA (\<^verbatim>\<open>src/backend_registry.cpp\<close>).\<close>

definition make_cuda_backend :: "KernelBackend option" where
  "make_cuda_backend = None"

definition cuda_backend_available :: bool where
  "cuda_backend_available \<longleftrightarrow> False"

definition builtin_backend_names :: "bool \<Rightarrow> string" where
  "builtin_backend_names cuda_available = cpu_name @ (if cuda_available then '',cuda'' else [])"

text \<open>The second argument is what \<^verbatim>\<open>make_cuda_backend\<close> yields, if CUDA is available.\<close>

definition use_builtin_backends :: "KernelBackend \<Rightarrow> KernelBackend option \<Rightarrow> 'p Impl \<Rightarrow> unit result \<times> 'p Impl" where
  "use_builtin_backends cpu cuda s =
     (case register_backend cpu s of
        (Inl e, s) \<Rightarrow> (Inl e, s)
      | (Inr _, s) \<Rightarrow> (case cuda of None \<Rightarrow> (ok, s) | Some c \<Rightarrow> register_backend c s))"

subsection \<open>Metadata validation\<close>

definition validate_artifact_metadata :: "KernelCompatibilityKey \<Rightarrow> bytes \<Rightarrow> string \<Rightarrow> ValidationDescriptor" where
  "validate_artifact_metadata key b fmt =
     \<lparr>integrity_hash_checked = (b \<noteq> []), format_checked = (fmt \<noteq> [] \<and> b \<noteq> []),
      arch_checked = (arch key \<noteq> [] \<or> vendor key \<noteq> DeviceVendor_Unknown), abi_checked = (abi_name key \<noteq> []),
      metadata_consistent = (k_canonical key \<noteq> []), loadable = False, execution_smoke = False,
      reference_compare = False, backend_reason = []\<rparr>"

subsection \<open>Serialization\<close>

lemma serialize_eq:
  "serialize_kernel k = (1 # [op_value (ck_op k)]) @ (2 # [ck_dtype k])
     @ (3 # be_bytes 4 (word_of_nat (length (ck_shape k)) :: u32) @ concat (map (be_bytes 8) (ck_shape k)))
     @ (4 # be_bytes 4 (ck_alignment k))
     @ (5 # be_bytes 4 (word_of_nat (length (ck_flags k)) :: u32) @ concat (map enc_str (ck_flags k)))"
  unfolding serialize_kernel_def Let_def fold_cw
  by (simp only: enc_simps append_assoc append_Nil append_Cons)

lemma serialize_length: "19 \<le> length (serialize_kernel k)"
  by (simp add: serialize_eq)

text \<open>A reader for the serialized form, to show that nothing is lost.\<close>

definition op_of :: "u8 \<Rightarrow> Op" where
  "op_of b = (if b = 0 then VecAdd else if b = 1 then VecMul else ReductionSum)"

definition read_kernel :: "Reader \<Rightarrow> CpuKernel option" where
  "read_kernel r = do {
     (_, r) \<leftarrow> r_u8 r; (oper, r) \<leftarrow> r_u8 r; (_, r) \<leftarrow> r_u8 r; (dt, r) \<leftarrow> r_u8 r;
     (_, r) \<leftarrow> r_u8 r; (n, r) \<leftarrow> r_u32 r; (sh, r) \<leftarrow> r_many (unat n) r_i64 r;
     (_, r) \<leftarrow> r_u8 r; (al, r) \<leftarrow> r_u32 r; (_, r) \<leftarrow> r_u8 r; (m, r) \<leftarrow> r_u32 r; (fl, r) \<leftarrow> r_many (unat m) r_str r;
     Some \<lparr>ck_op = op_of oper, ck_dtype = dt, ck_shape = sh, ck_alignment = al, ck_flags = fl\<rparr>
   }"

definition kernel_wf :: "CpuKernel \<Rightarrow> bool" where
  "kernel_wf k \<longleftrightarrow> length (ck_shape k) < 2 ^ 32 \<and> length (ck_flags k) < 2 ^ 32 \<and> (\<forall>f \<in> set (ck_flags k). length f < 2 ^ 64)"

lemma op_of_value [simp]: "op_of (op_value x) = x"
  by (cases x) (simp_all add: op_of_def)

lemma read_serialize:
  assumes "kernel_wf k"
  shows "read_kernel (serialize_kernel k) = Some k"
proof -
  have "r_many (length (ck_shape k)) r_i64 (concat (map (be_bytes 8) (ck_shape k)) @ r) = Some (ck_shape k, r)" for r
    by (rule r_many_append) (rule r_i64_append)
  moreover have "r_many (length (ck_flags k)) r_str (concat (map enc_str (ck_flags k)) @ []) = Some (ck_flags k, [])"
    using assms by (intro r_many_append r_str_append) (simp add: kernel_wf_def)
  ultimately show ?thesis
    using assms unfolding serialize_eq read_kernel_def
    by (simp add: dec_simps unat_of_nat kernel_wf_def)
qed

subsection \<open>Execution\<close>

lemma op_kernel_Suc: "op_kernel F x a b out (Suc n) = op_step F x a b n (op_kernel F x a b out n)"
  by (simp add: op_kernel_def)

lemma length_op_kernel [simp]: "length (op_kernel F x a b out n) = length out"
proof (induction n)
  case (Suc n)
  then show ?case by (cases x) (simp_all add: op_kernel_Suc op_step_def Let_def)
qed (simp add: op_kernel_def)

text \<open>The sum of the elements up to and including \<open>i\<close>, added from the left.\<close>

definition prefix_sum :: "('f, 'x) FloatOps_scheme \<Rightarrow> 'f list \<Rightarrow> nat \<Rightarrow> 'f" where
  "prefix_sum F a i = foldl (f_add F) (a ! 0) (map ((!) a) [1..<Suc i])"

lemma prefix_sum_0 [simp]: "prefix_sum F a 0 = a ! 0"
  by (simp add: prefix_sum_def)

lemma prefix_sum_Suc: "prefix_sum F a (Suc i) = f_add F (prefix_sum F a i) (a ! Suc i)"
  by (simp add: prefix_sum_def)

definition op_value_at :: "('f, 'x) FloatOps_scheme \<Rightarrow> Op \<Rightarrow> 'f list \<Rightarrow> 'f list option \<Rightarrow> nat \<Rightarrow> 'f" where
  "op_value_at F x a b i =
     (let y = (case b of Some b \<Rightarrow> b ! i | None \<Rightarrow> f_zero F)
      in case x of VecAdd \<Rightarrow> f_add F (a ! i) y | VecMul \<Rightarrow> f_mul F (a ! i) y | ReductionSum \<Rightarrow> prefix_sum F a i)"

lemma op_kernel_nth:
  assumes "n \<le> length out" and "i < length out"
  shows "op_kernel F x a b out n ! i = (if i < n then op_value_at F x a b i else out ! i)"
  using assms
proof (induction n arbitrary: i)
  case (Suc n)
  have step: "op_step F x a b n (op_kernel F x a b out n) =
      (op_kernel F x a b out n)[n := op_value_at F x a b n]"
  proof (cases x)
    case ReductionSum
    show ?thesis
    proof (cases n)
      case (Suc m)
      then have "op_kernel F x a b out n ! m = prefix_sum F a m"
        using Suc.IH [of m] Suc.prems ReductionSum by (simp add: op_value_at_def)
      then show ?thesis by (simp add: ReductionSum op_step_def op_value_at_def Suc prefix_sum_Suc)
    qed (simp add: ReductionSum op_step_def op_value_at_def)
  qed (simp_all add: op_step_def op_value_at_def Let_def)
  show ?case using Suc by (auto simp: op_kernel_Suc step nth_list_update less_Suc_eq)
qed (simp add: op_kernel_def)

subsection \<open>Validation\<close>

text \<open>
  What the validator needs of the arithmetic: its samples and their products are not NaN, sums of
  such values are not NaN, and a value that is not NaN equals itself. With IEEE single precision
  \<open>X\<close> is the set of non-negative floats with infinity.
\<close>

definition nan_free :: "('f, 'x) FloatOps_scheme \<Rightarrow> 'f set \<Rightarrow> bool" where
  "nan_free F X \<longleftrightarrow> (\<forall>r. f_sample F r \<in> X) \<and> (\<forall>r q. f_mul F (f_sample F r) (f_sample F q) \<in> X) \<and>
     (\<forall>x \<in> X. \<forall>y \<in> X. f_add F x y \<in> X) \<and> (\<forall>x \<in> X. \<not> f_ne F x x)"

lemma prefix_sum_in:
  assumes "nan_free F X" and "\<forall>j \<le> i. a ! j \<in> X"
  shows "prefix_sum F a i \<in> X"
  using assms(2)
proof (induction i)
  case (Suc i)
  then show ?case using assms(1) by (simp add: prefix_sum_Suc nan_free_def)
qed simp

lemma cpu_validate_iff:
  assumes "nan_free F X"
  shows "\<exists>vd. cpu_validate F rng key b dev = Inr vd \<and> (all_passed vd \<longleftrightarrow> 8 \<le> length b)"
proof -
  define n where "n = unat (count_elems (ck_shape (parse_key key)))"
  define xs where "xs = map (\<lambda>i. f_sample F (rng (2 * i))) [0..<n]"
  define ys where "ys = map (\<lambda>i. f_sample F (rng (2 * i + 1))) [0..<n]"
  let ?x = "ck_op (parse_key key)" and ?z = "replicate n (f_zero F)"
  have "op_value_at F ?x xs (Some ys) i \<in> X" if "i < n" for i
    using assms that prefix_sum_in [OF assms, of i xs]
    by (cases ?x) (simp_all add: op_value_at_def nan_free_def xs_def ys_def)
  then have "\<forall>i \<in> set [0..<n]. \<not> f_ne F (op_reference F ?x xs (Some ys) ?z n ! i) (op_kernel F ?x xs (Some ys) ?z n ! i)"
    using assms by (simp add: op_reference_def op_kernel_nth nan_free_def flip: op_kernel_def)
  then show ?thesis
    unfolding cpu_validate_def Let_def n_def [symmetric] xs_def [symmetric] ys_def [symmetric]
    by (auto simp: all_passed_def)
qed

subsection \<open>The backend in the cache\<close>

lemma complete_cpu:
  "complete_backend (Some (make_cpu_backend F rng fp)) = Some (make_cpu_backend F rng fp,
     \<lparr>can_build = cpu_can_build, build_fn = cpu_build\<rparr>, cpu_validate F rng,
     the (loader (make_cpu_backend F rng fp)))"
  by (simp add: complete_backend_def make_cpu_backend_def)

lemma cpu_find_backend:
  assumes "use_builtin_backends (make_cpu_backend F rng fp) None s = (r, s')"
    and "runtime_backend k = cpu_name \<or> (runtime_backend k = [] \<and> backends s = [])"
  shows "r = ok \<and> find_backend k s' = Some (make_cpu_backend F rng fp)"
  using assms
  by (auto simp: use_builtin_backends_def register_backend_def find_backend_def make_cpu_backend_def update_conv'
      cpu_can_build_def cpu_name_def)

definition cpu_bytes :: "KernelCompatibilityKey \<Rightarrow> bytes" where
  "cpu_bytes key = serialize_kernel (parse_key key)"

lemma cpu_run_outcome:
  assumes "find_backend (finalized (req_key q)) s = Some (make_cpu_backend F rng fp)" and "nan_free F X"
    and "run_build env q gen att s = (oc, s')"
  shows "succeeded oc" and "o_bytes oc = cpu_bytes (finalized (req_key q))"
    and "sa_key (stored_of oc t) = finalized (req_key q)" and "sa_bytes (stored_of oc t) = cpu_bytes (finalized (req_key q))"
    and "artifact_bytes (sa_sizes (stored_of oc t)) = word_of_nat (length (cpu_bytes (finalized (req_key q))))"
    and "value_or_empty (sa_sha256_hex (stored_of oc t)) = sha256_hex_bytes (cpu_bytes (finalized (req_key q)))"
proof -
  let ?k = "finalized (req_key q)"
  have be: "complete_backend (find_backend ?k (s\<lparr>ticks := Suc (ticks s)\<rparr>)) = Some (make_cpu_backend F rng fp,
     \<lparr>can_build = cpu_can_build, build_fn = cpu_build\<rparr>, cpu_validate F rng, the (loader (make_cpu_backend F rng fp)))"
    using assms(1) complete_cpu [of F rng fp] find_backend_ticks by metis
  obtain vd where vd: "cpu_validate F rng ?k (cpu_bytes ?k) (req_device q) = Inr vd" "all_passed vd"
    using cpu_validate_iff [OF assms(2), of rng ?k "cpu_bytes ?k" "req_device q"] serialize_length [of "parse_key ?k"]
    by (auto simp: cpu_bytes_def)
  show "succeeded oc" "o_bytes oc = cpu_bytes ?k" "sa_key (stored_of oc t) = ?k"
    "sa_bytes (stored_of oc t) = cpu_bytes ?k" "artifact_bytes (sa_sizes (stored_of oc t)) = word_of_nat (length (cpu_bytes ?k))"
    "value_or_empty (sa_sha256_hex (stored_of oc t)) = sha256_hex_bytes (cpu_bytes ?k)"
    using assms(3) vd be
    by (auto simp: run_build_def Let_def now_ns_def cpu_build_def make_build_request_def make_descriptor_def stored_of_def
        sha256_hex_bytes_def value_or_empty_def simp flip: cpu_bytes_def)
qed

lemma cpu_run_build:
  assumes "find_backend (finalized (req_key q)) s = Some (make_cpu_backend F rng fp)" and "nan_free F X"
    and "key_wf (req_key q)" "structure_ok (req_key q)" "length (cpu_bytes (finalized (req_key q))) < 2 ^ 64"
    and "run_build env q gen att s = (oc, s')"
  shows "succeeded oc \<and> o_bytes oc = cpu_bytes (finalized (req_key q)) \<and> storable (stored_of oc t)"
proof -
  let ?k = "finalized (req_key q)"
  note oc = cpu_run_outcome(1,2) [OF assms(1,2,6)] cpu_run_outcome(3-6) [OF assms(1,2,6), of t]
  have "finalize (req_key q) = (True, ?k)" using assms(4) by (simp add: finalize_eq)
  then have "storable (stored_of oc t)"
    using oc assms(3,5) serialize_length [of "parse_key ?k"]
    by (intro storable_finalized [of "req_key q"]) (auto simp: cpu_bytes_def)
  with oc show ?thesis by blast
qed

subsection \<open>Properties\<close>

text \<open>
  C20. A loaded CPU kernel computes its operation: executing it writes the sum, the product or the
  running sum of the inputs to the first \<open>n\<close> elements of the output, where \<open>n\<close> is the number of
  elements of the key's shape, and touches nothing else.
\<close>

theorem cpu_kernel_computes:
  assumes "n = unat (count_elems (ck_shape (parse_key key)))" and "n \<le> length out" and "24 \<le> arg_bytes"
  shows "\<exists>m out'. cpu_load key b dev = Inr m \<and> cpu_execute F m (xs, ys, out) arg_bytes = Inr out' \<and>
    length out' = length out \<and>
    (\<forall>i < length out. out' ! i = (if i < n then op_value_at F (ck_op (parse_key key)) xs ys i else out ! i))"
  using assms by (auto simp: cpu_load_def cpu_execute_def op_kernel_nth)

text \<open>
  The CPU validator's verdict depends on nothing but the number of bytes: every artifact of at
  least eight bytes passes for every key, whatever its contents, and loading ignores the bytes too.
\<close>

theorem cpu_validator_ignores_contents:
  assumes "nan_free F X"
  shows "(\<exists>vd. cpu_validate F rng key b dev = Inr vd \<and> (all_passed vd \<longleftrightarrow> 8 \<le> length b)) \<and>
    cpu_load key b dev = cpu_load key b' dev"
  using cpu_validate_iff [OF assms] by (simp add: cpu_load_def)

text \<open>
  The serialized form of a CPU kernel loses nothing: it can be read back, so kernels that differ in
  operation, type, shape, alignment or flags have different bytes.
\<close>

theorem cpu_kernel_lossless:
  assumes "kernel_wf k"
  shows "read_kernel (serialize_kernel k) = Some k \<and> 19 \<le> length (serialize_kernel k)"
  using read_serialize [OF assms] serialize_length by blast

text \<open>Metadata alone never passes an artifact.\<close>

lemma metadata_never_passes: "\<not> all_passed (validate_artifact_metadata key b fmt)"
  by (simp add: all_passed_def validate_artifact_metadata_def)

definition rat_floats :: "rat FloatOps" where
  "rat_floats = \<lparr>f_zero = 0, f_add = (+), f_mul = (*), f_ne = (\<noteq>), f_sample = (\<lambda>r. of_nat (unat r mod 1000) / 100)\<rparr>"

lemma nan_free_rat: "nan_free rat_floats UNIV"
  by (simp add: nan_free_def rat_floats_def)

definition add_key :: KernelCompatibilityKey where
  "add_key = KernelCompatibilityKey_new\<lparr>operation := ''vec_add'', shape := [2], rank := 1\<rparr>"

theorem cpu_kernel_computes_witness:
  "\<exists>m. cpu_load add_key [] DeviceDescriptor_new = Inr m \<and>
    cpu_execute rat_floats m ([1, 2], Some [3, 4], [0, 0, 9]) 24 = Inr [4, 6, 9]"
proof -
  have n: "2 = unat (count_elems (ck_shape (parse_key add_key)))" by code_simp
  have x: "ck_op (parse_key add_key) = VecAdd" by code_simp
  from cpu_kernel_computes [OF n, of "[0, 0, 9]" 24 "[]" DeviceDescriptor_new rat_floats "[1, 2]" "Some [3, 4]"]
  obtain m out' where m: "cpu_load add_key [] DeviceDescriptor_new = Inr m"
    "cpu_execute rat_floats m ([1, 2], Some [3, 4], [0, 0, 9]) 24 = Inr out'" "length out' = 3"
    "\<forall>i < 3. out' ! i = (if i < 2 then op_value_at rat_floats VecAdd [1, 2] (Some [3, 4]) i else [0, 0, 9] ! i)"
    by (auto simp: x)
  have "out' = [out' ! 0, out' ! 1, out' ! 2]" using m(3) by (auto simp: length_Suc_conv numeral_3_eq_3)
  moreover have "out' ! 0 = 4" "out' ! 1 = 6" "out' ! 2 = 9"
    using m(4) [rule_format, of 0] m(4) [rule_format, of 1] m(4) [rule_format, of 2]
    by (simp_all add: op_value_at_def rat_floats_def)
  ultimately have "out' = [4, 6, 9]" by simp
  with m show ?thesis by blast
qed

theorem cpu_validator_ignores_contents_witness:
  "\<exists>vd. cpu_validate rat_floats (\<lambda>i. 0) add_key (replicate 8 0) DeviceDescriptor_new = Inr vd \<and> all_passed vd"
  using cpu_validator_ignores_contents [OF nan_free_rat, of "\<lambda>i. 0" add_key "replicate 8 0" DeviceDescriptor_new] by auto

theorem cpu_kernel_lossless_witness: "read_kernel (serialize_kernel (parse_key add_key)) = Some (parse_key add_key)"
proof -
  have "kernel_wf (parse_key add_key)" by (simp add: kernel_wf_def parse_key_def add_key_def KernelCompatibilityKey_new_def)
  from cpu_kernel_lossless [OF this] show ?thesis ..
qed

end
