(* ===== verification/KC_Restart.thy ===== *)
theory KC_Restart
  imports KC_System KC_SingleFlight KC_FileStore KC_CpuBackend
begin

text \<open>
  The whole path of a kernel: the CPU backend builds it, the cache publishes it, the file store
  keeps it, and a new process recovers it from the same directory.
\<close>

lemma persist_puts:
  assumes "persistence_open s" "persistence s = Some p" "build_persist env oc s = Some s1"
  shows "\<exists>p1. ps_put (store env) p (stored_of oc (clk env (ticks s))) = (ok, p1) \<and> persistence s1 = Some p1"
  using assms by (auto simp: build_persist_def now_ns_def Let_def modify_def bump_def split: prod.splits sum.splits option.splits)

lemma new_cache:
  assumes "persistence_enabled cf" "persistence_root cf \<noteq> []"
  shows "persistence_open (KernelCache_new env (\<lambda>_. Inr p) cf)" "persistence (KernelCache_new env (\<lambda>_. Inr p) cf) = Some p"
    "find_rec i (KernelCache_new env (\<lambda>_. Inr p) cf) = None" "index_inv (KernelCache_new env (\<lambda>_. Inr p) cf)"
  using assms index_inv_fresh [of env "\<lambda>_. Inr p" cf]
  by (simp_all add: KernelCache_new_def record_event_def now_ns_def Let_def find_rec_def Impl_new_def fresh_def)

lemma restart_hit:
  assumes "store env = file_store" "persistence_open s" "persistence s = Some p" "store_wf p"
    and "storable (stored_of oc (clk env (ticks s)))" and "build_persist env oc s = Some s1"
    and "store env' = file_store" "persistence_enabled cf" "persistence_root cf \<noteq> []"
    and "recover_impl env' (KernelCache_new env' (\<lambda>_. Inr (the (persistence s1))) cf) = (out, c)"
    and "req_key q = ad_key (o_desc oc)" "finalize (req_key q) = (True, req_key q)"
  shows "\<exists>r lr c'. find_rec (ad_id (o_desc oc)) c = Some r \<and> rec_bytes r = o_bytes oc \<and> usable r \<and> persistent r \<and>
    lookup_impl env' q c = (Inr lr, c') \<and> is_hit lr \<and> is_exact (lr_decision lr)"
proof -
  let ?sa = "stored_of oc (clk env (ticks s))" and ?k = "req_key q"
  obtain p1 where p1: "store_put p ?sa = (ok, p1)" "persistence s1 = Some p1"
    using persist_puts [OF assms(2,3,6)] assms(1) by (auto simp: file_store_def)
  have sa: "sa_id ?sa = ad_id (o_desc oc)" "sa_bytes ?sa = o_bytes oc" "sa_key ?sa = ?k"
    using assms(11) by (simp_all add: stored_of_def Let_def)
  obtain sas rj oph p2 where rec: "store_recover p1 = (Inr sas, rj, oph, p2)" "distinct (map sa_id sas)"
    and sas: "set sas = {a. \<exists>i. store_get p1 i = Inr a}"
    using fs.recover_all [OF fs.put_wf [OF assms(4,5) p1(1)]] by blast
  let ?c = "KernelCache_new env' (\<lambda>_. Inr p1) cf"
  note new = new_cache [OF assms(8,9), where env = env' and p = p1]
  have "ps_recover (store env') p1 = (Inr sas, rj, oph, p2)" using rec(1) assms(7) by (simp add: file_store_def)
  from recover_impl_restores [OF new(1,2) this rec(2)] new(3) assms(10) p1(2)
  have all: "\<forall>sa \<in> set sas. \<exists>r. find_rec (sa_id sa) c = Some r \<and> rec_bytes r = sa_bytes sa \<and>
      rec_key r = ensure_finalized (sa_key sa) \<and> persistent r \<and> usable r \<and> validated r" by auto
  have "stored_view ?sa \<in> set sas" using fs.put_get [OF assms(4,5) p1(1)] sas by blast
  with all obtain r where r: "find_rec (ad_id (o_desc oc)) c = Some r" "rec_bytes r = o_bytes oc"
    "rec_key r = ensure_finalized ?k" "persistent r" "usable r" "validated r"
    using sa by (auto simp: stored_view_def)
  have k: "rec_key r = ?k" using r(3) finalize_digest [OF assms(12)] by (simp add: ensure_finalized_def)
  have "index_inv c" using evolves_recover [OF assms(10)] new(4) p1(2) by (simp add: evolves_def)
  moreover obtain res c' where l: "lookup_impl env' q c = (res, c')" by fastforce
  ultimately show ?thesis using lookup_exact [OF _ r(1,5,6) k assms(12) refl l] r by blast
qed

lemma key_wf_finalized: "key_wf k \<Longrightarrow> key_wf (finalized k)"
  using key_wf_canonicalize [of k] by (simp add: finalize_eq key_wf_def derive_def)

text \<open>
  C14. A built kernel survives a restart: when the CPU backend builds an artifact in a cache with a
  working file store, a new process that opens the same directory and recovers has a usable record
  of it with the same bytes, and a lookup of the same key is an exact hit.
\<close>

theorem cpu_build_survives_restart:
  assumes "store env = file_store" and "persistence_open s" and "persistence s = Some p" and "store_wf p"
    and "find_backend (finalized (req_key q)) s = Some (make_cpu_backend F rng fp)" and "nan_free F X"
    and "key_wf (req_key q)" and "structure_ok (req_key q)" and "length (cpu_bytes (finalized (req_key q))) < 2 ^ 64"
    and "build_impl env q s = Some ((Inr d, True), s1)" and "find_rec (ad_id d) s = None"
    and "store env' = file_store" and "persistence_enabled cf" and "persistence_root cf \<noteq> []"
    and "recover_impl env' (KernelCache_new env' (\<lambda>_. Inr (the (persistence s1))) cf) = (out, c)"
    and "req_key q' = finalized (req_key q)"
  shows "\<exists>r lr c'. find_rec (ad_id d) c = Some r \<and> rec_bytes r = cpu_bytes (finalized (req_key q)) \<and>
    usable r \<and> persistent r \<and> lookup_impl env' q' c = (Inr lr, c') \<and> is_hit lr \<and> is_exact (lr_decision lr)"
  using assms(10,11)
proof (rule build_owner_persists)
  let ?k = "finalized (req_key q)" and ?rq = "default_namespace s (q\<lparr>req_key := finalized (req_key q)\<rparr>)"
  fix oc gen att s0 s2 u
  assume run: "run_build env ?rq gen att s0 = (oc, s2)" and be: "backends s0 = backends s" and d: "d = o_desc oc"
    and per: "build_persist env oc u = Some s1" and u: "persistence u = persistence s" "persistence_open u = persistence_open s"
  have rq: "req_key ?rq = ?k" by simp
  have "find_backend ?k s0 = find_backend ?k s" unfolding find_backend_def be ..
  then have fb: "find_backend (finalized (req_key ?rq)) s0 = Some (make_cpu_backend F rng fp)" using assms(5) by (simp add: rq)
  have oc: "succeeded oc" "o_bytes oc = cpu_bytes ?k" "storable (stored_of oc (clk env (ticks u)))"
    using cpu_run_build [OF fb assms(6) _ _ _ run, of "clk env (ticks u)"] assms(7-9) by (simp_all add: rq key_wf_finalized)
  have key: "ad_key (o_desc oc) = ?k" using run_build_key [OF run oc(1)] by (simp add: rq)
  have fin: "finalize ?k = (True, ?k)" using assms(8) by (simp add: finalize_eq)
  have "\<exists>r lr c'. find_rec (ad_id (o_desc oc)) c = Some r \<and> rec_bytes r = o_bytes oc \<and> usable r \<and> persistent r \<and>
      lookup_impl env' q' c = (Inr lr, c') \<and> is_hit lr \<and> is_exact (lr_decision lr)"
    by (rule restart_hit [OF assms(1) _ _ assms(4) oc(3) per assms(12-15)])
      (use assms(2,3,16) u key fin in simp_all)
  then show ?thesis by (simp add: d oc(2))
qed

lemma cpu_reliable:
  assumes "find_backend k s = Some (make_cpu_backend F rng fp)" and "nan_free F X"
  shows "reliable_backend k s"
proof -
  have "\<exists>res. cpu_build br = Inr res \<and> (\<forall>d. \<exists>vd. cpu_validate F rng k (bres_bytes res) d = Inr vd \<and> all_passed vd)" for br
    using cpu_validate_iff [OF assms(2)] serialize_length [of "parse_key (br_key br)"]
    by (fastforce simp: cpu_build_def Let_def)
  then show ?thesis by (simp add: reliable_backend_def assms(1) complete_cpu)
qed

definition restart_env :: "FileStore Env" where
  "restart_env = \<lparr>clk = word_of_nat, rnd = word_of_nat, store = file_store, show_double = (\<lambda>x. [])\<rparr>"

definition restart_config :: KernelCacheConfig where
  "restart_config = sample_config\<lparr>persistence_enabled := True, persistence_root := ''/kc''\<rparr>"

definition restart_cache :: "FileStore Impl" where
  "restart_cache = snd (use_builtin_backends (make_cpu_backend rat_floats (\<lambda>i. 0) 64) None
     (KernelCache_new restart_env (\<lambda>_. Inr (empty_store good_io)) restart_config))"

definition restart_request :: KernelLookupRequest where
  "restart_request = KernelLookupRequest_new\<lparr>req_key := add_key\<rparr>"

lemma restart_config_simps [simp]: "persistence_enabled restart_config" "persistence_root restart_config \<noteq> []"
  by (simp_all add: restart_config_def)

lemma restart_cache_simps [simp]:
  "persistence_open restart_cache" "persistence restart_cache = Some (empty_store good_io)" "in_flight restart_cache = []"
  "find_rec i restart_cache = None" "store restart_env = file_store"
  by (simp_all add: restart_cache_def use_builtin_backends_def register_backend_def make_cpu_backend_def KernelCache_new_def
      record_event_def now_ns_def Impl_new_def find_rec_def restart_env_def)

lemma restart_key [simp]: "req_key restart_request = add_key"
  by (simp add: restart_request_def)

lemma add_key_ok: "key_wf add_key" "structure_ok add_key" "runtime_backend (finalized add_key) = []"
  "length (cpu_bytes (finalized add_key)) < 2 ^ 64"
  by (simp_all add: add_key_def KernelCompatibilityKey_new_def key_wf_def structure_ok_def finalize_eq derive_def canonicalize_def
      cpu_bytes_def serialize_eq parse_key_def sort_strings_def)

lemma restart_backend: "find_backend (finalized add_key) restart_cache = Some (make_cpu_backend rat_floats (\<lambda>i. 0) 64)"
proof -
  let ?c = "KernelCache_new restart_env (\<lambda>_. Inr (empty_store good_io)) restart_config"
  have "backends ?c = []" by (simp add: KernelCache_new_def record_event_def now_ns_def Impl_new_def)
  then show ?thesis
    using cpu_find_backend [of rat_floats "\<lambda>i. 0" 64 ?c] add_key_ok(3)
    unfolding restart_cache_def by (metis prod.collapse)
qed

theorem cpu_build_survives_restart_witness:
  "\<exists>d s out c r. build_impl restart_env restart_request restart_cache = Some ((Inr d, True), s) \<and>
    recover_impl restart_env (KernelCache_new restart_env (\<lambda>_. Inr (the (persistence s))) restart_config) = (out, c) \<and>
    find_rec (ad_id d) c = Some r \<and> rec_bytes r = cpu_bytes (finalized add_key) \<and> usable r"
proof -
  have rel: "reliable_backend (finalized (req_key restart_request)) restart_cache"
    using cpu_reliable [OF restart_backend nan_free_rat] by simp
  have "\<exists>d s. build_impl restart_env restart_request restart_cache = Some ((Inr d, True), s)"
    by (rule build_returns [OF rel]) (use store_put_good in \<open>auto simp: file_store_def\<close>)
  then obtain d s where b: "build_impl restart_env restart_request restart_cache = Some ((Inr d, True), s)" by blast
  obtain out c where r: "recover_impl restart_env
      (KernelCache_new restart_env (\<lambda>_. Inr (the (persistence s))) restart_config) = (out, c)" by fastforce
  have wf: "store_wf (empty_store good_io)" by (rule store_wf_empty) (simp add: good_io_def)
  from cpu_build_survives_restart [OF _ _ _ wf _ nan_free_rat _ _ _ b _ _ _ _ r, of "\<lambda>i. 0" 64
      "restart_request\<lparr>req_key := finalized add_key\<rparr>"] restart_backend add_key_ok b r
  show ?thesis by (cases out) auto
qed

end
