(* ===== verification/KC_Cli.thy ===== *)
theory KC_Cli
  imports KC_Restart
begin

text \<open>
  The command line (\<^verbatim>\<open>cli/kc.cpp\<close>): a process that makes a cache on the configured directory, runs one
  command on it and exits. A run yields what it prints and how it ends. Number formats of the C
  library for floating-point values, single precision, the environment and the steady clock are
  parameters.
\<close>

datatype Ending =
    Exit int
  | Terminate   \<comment> \<open>an exception that nothing catches\<close>
  | Undefined   \<comment> \<open>undefined behaviour\<close>

record ('f, 'p) Cli =
  c_env :: "'p Env"
  c_open :: "string \<Rightarrow> 'p result"
  c_cuda :: "KernelBackend option"
  c_getenv :: "string \<rightharpoonup> string"
  c_floats :: "'f FloatOps"
  c_rng :: "nat \<Rightarrow> u64"
  c_footprint :: u64
  c_one :: 'f
  c_two :: 'f
  c_fmt2 :: "'f \<Rightarrow> string"                       \<comment> \<open>\<^verbatim>\<open>%.2f\<close>\<close>
  c_fmt_ratio :: "(u64 \<times> u64) option \<Rightarrow> string"  \<comment> \<open>\<^verbatim>\<open>%.3f\<close> of the hit ratio\<close>
  c_fmt_ms :: "u64 \<Rightarrow> string"                    \<comment> \<open>microseconds as \<^verbatim>\<open>%.3f\<close> milliseconds\<close>
  c_fmt_rate :: "int \<Rightarrow> u64 \<Rightarrow> string"            \<comment> \<open>\<^verbatim>\<open>%.0f\<close> of lookups per second\<close>
  c_steady :: "nat \<Rightarrow> u64"                      \<comment> \<open>nanoseconds\<close>
  c_alloc :: "u64 \<Rightarrow> bool"                      \<comment> \<open>three vectors of so many floats can be allocated\<close>

definition cli_cpu :: "('f, 'p) Cli \<Rightarrow> KernelBackend" where
  "cli_cpu c = make_cpu_backend (c_floats c) (c_rng c) (c_footprint c)"

type_synonym 'p cli_run = "(string \<times> Ending \<times> 'p Impl) option"

definition line :: "string \<Rightarrow> string" where
  "line s = s @ [eol]"

definition usage :: string where
  "usage = concat (map line [
     ''kc - KernelCache command line'',
     '''',
     ''  put <op> <shape> <file|->         publish artifact bytes from a file (or stdin)'',
     ''  build <op> <shape>                build (compile) an artifact'',
     ''  lookup <op> <shape>               lookup and print hit/miss'',
     ''  validate <op> <shape>             validate an artifact'',
     ''  load <op> <shape> [device]        load an artifact to a residency tier'',
     ''  unload <op> <shape>               unload an artifact'',
     ''  execute <op> <shape>              execute the cached kernel'',
     ''  invalidate <op> <shape>           invalidate by operation'',
     ''  evict <id>                        evict an artifact by 32-hex id'',
     ''  pin <id>                          pin an artifact'',
     ''  unpin <id>                        unpin an artifact'',
     ''  list [state]                      list artifacts'',
     ''  inspect <id>                      inspect an artifact'',
     ''  stats                             print stats'',
     ''  snapshot                          print a snapshot'',
     ''  explain <id>                      print an explain report'',
     ''  recover                          run persistence recovery'',
     ''  bench <n>                        micro-benchmark n lookups'',
     ''  serve <port> <root>               run the coordinator (serve)'',
     ''  worker <host> <port> <id> <bh> <bl>  run a cache worker''])"

text \<open>
  \<^verbatim>\<open>atoll\<close> and \<^verbatim>\<open>atoi\<close>: white space, a sign, digits; 0 if there are none. A value out of range is undefined in C
  and wraps here.
\<close>

definition digits_value :: "string \<Rightarrow> int" where
  "digits_value s = int (dec_value (takeWhile is_digit s))"

definition ascii_int :: "string \<Rightarrow> int" where
  "ascii_int s =
     (case dropWhile is_space s of
        [] \<Rightarrow> 0
      | c # cs \<Rightarrow> if c = CHR ''-'' then - digits_value cs else if c = CHR ''+'' then digits_value cs else digits_value (c # cs))"

definition atoll :: "string \<Rightarrow> i64" where
  "atoll s = word_of_int (ascii_int s)"

definition atoi :: "string \<Rightarrow> u32" where
  "atoi s = word_of_int (ascii_int s)"

definition key_fields :: "string \<Rightarrow> i64 \<Rightarrow> KernelCompatibilityKey" where
  "key_fields oper sh = KernelCompatibilityKey_new\<lparr>operation := oper, artifact_format := ''kc-synth'',
     vendor := DeviceVendor_CPU, family := AcceleratorFamily_CPU, arch := ''x86_64'', runtime_backend := ''cpu-synth'',
     compiler_name := ''msvc'', compiler_version_major := 19, compiler_version_minor := 44,
     abi_name := ''kc-synth-1.0'', abi_version := 1,
     kernel_interface_signature := ''void(float*,const float*,uint64)'', dtypes := [Datatype_F32],
     layouts := [TensorLayout_RowMajor], rank := 1, shape := [sh], alignment_bytes := 16, block_x := 256,
     launch_abi := ''grid-block''\<rparr>"

definition make_key :: "string \<Rightarrow> i64 \<Rightarrow> KernelCompatibilityKey" where
  "make_key oper sh = finalized (key_fields oper sh)"

definition cli_request :: "KernelCompatibilityKey \<Rightarrow> ResidencyTier \<Rightarrow> bool \<Rightarrow> KernelLookupRequest" where
  "cli_request key tier miss_build = KernelLookupRequest_new\<lparr>req_key := key,
     req_device := DeviceDescriptor_new\<lparr>dd_vendor := DeviceVendor_CPU\<rparr>, desired_tier := tier,
     allow_miss_build := miss_build\<rparr>"

definition arg_key :: "string list \<Rightarrow> KernelCompatibilityKey" where
  "arg_key argv = make_key (argv ! 2) (atoll (argv ! 3))"

definition show_bool :: "bool \<Rightarrow> string" where
  "show_bool b = (if b then ''1'' else ''0'')"

definition show_result :: "unit result \<Rightarrow> string" where
  "show_result r = (case r of Inr _ \<Rightarrow> ''ok'' | Inl e \<Rightarrow> c_str (message e))"

subsection \<open>Commands on keys\<close>

definition cmd_put :: "('f, 'p) Cli \<Rightarrow> string list \<Rightarrow> 'p Impl \<Rightarrow> 'p cli_run" where
  "cmd_put c argv s =
     (case build_impl (c_env c) (cli_request (arg_key argv) RT_HostResident True) s of
        None \<Rightarrow> None
      | Some ((Inr d, _), s) \<Rightarrow> Some (line (''built id='' @ str (ad_id d)), Exit 0, s)
      | Some ((Inl e, _), s) \<Rightarrow> Some (line (''put failed: '' @ c_str (message e)), Exit 1, s))"

definition cmd_build :: "('f, 'p) Cli \<Rightarrow> string list \<Rightarrow> 'p Impl \<Rightarrow> 'p cli_run" where
  "cmd_build c argv s =
     (case build_impl (c_env c) (cli_request (arg_key argv) RT_HostResident True) s of
        None \<Rightarrow> None
      | Some ((Inr d, _), s) \<Rightarrow> Some (line (''built id='' @ str (ad_id d) @ '' gen='' @ show_word (ad_generation d)), Exit 0, s)
      | Some ((Inl e, _), s) \<Rightarrow> Some (line (''build failed: '' @ c_str (message e)), Exit 1, s))"

definition cmd_lookup :: "('f, 'p) Cli \<Rightarrow> string list \<Rightarrow> 'p Impl \<Rightarrow> 'p cli_run" where
  "cmd_lookup c argv s =
     (case lookup_impl (c_env c) (cli_request (arg_key argv) RT_HostResident True) s of
        (Inr r, s) \<Rightarrow>
          Some (line (''outcome='' @ lookup_outcome_name (outcome r)
            @ '' artifact='' @ (case lr_artifact r of Some i \<Rightarrow> str i | None \<Rightarrow> ''-'')
            @ '' gen='' @ (case lr_generation r of Some g \<Rightarrow> show_word g | None \<Rightarrow> ''0'')), Exit 0, s)
      | (Inl e, s) \<Rightarrow> Some (line (''lookup error: '' @ c_str (message e)), Exit 0, s))"

definition cmd_validate :: "('f, 'p) Cli \<Rightarrow> string list \<Rightarrow> 'p Impl \<Rightarrow> 'p cli_run" where
  "cmd_validate c argv s =
     (case acquire_impl (c_env c) (cli_request (arg_key argv) RT_HostResident False) s of
        None \<Rightarrow> None
      | Some (Inl e, s) \<Rightarrow> Some (line (''validate failed: '' @ c_str (message e)), Exit 0, s)
      | Some (Inr l, s) \<Rightarrow>
          let out = (case inspect_impl (lease_artifact_id l) s of
                       Inr d \<Rightarrow> line (''valid='' @ show_bool (all_passed (ad_validation d)) @ '' reason=''
                                 @ c_str (backend_reason (ad_validation d)))
                     | Inl _ \<Rightarrow> []);
              (_, s) = lease_release l s
          in Some (out, Exit 0, s))"

definition cmd_load :: "('f, 'p) Cli \<Rightarrow> string list \<Rightarrow> 'p Impl \<Rightarrow> 'p cli_run" where
  "cmd_load c argv s =
     (case acquire_impl (c_env c) (cli_request (arg_key argv) RT_DeviceResident True) s of
        None \<Rightarrow> None
      | Some (Inl e, s) \<Rightarrow> Some (line (''load failed: '' @ c_str (message e)), Exit 0, s)
      | Some (Inr l, s) \<Rightarrow>
          let out = line (''loaded id='' @ str (lease_artifact_id l) @ '' tier='' @ show_nat (tier_value (lease_residency l s)));
              (_, s) = lease_release l s
          in Some (out, Exit 0, s))"

definition cmd_unload :: "('f, 'p) Cli \<Rightarrow> string list \<Rightarrow> 'p Impl \<Rightarrow> 'p cli_run" where
  "cmd_unload c argv s =
     (case acquire_impl (c_env c) (cli_request (arg_key argv) RT_HostResident True) s of
        None \<Rightarrow> None
      | Some (Inl e, s) \<Rightarrow> Some ([], Exit 0, s)
      | Some (Inr l, s) \<Rightarrow>
          let (r, s) = cache_unload (lease_artifact_id l) s; (_, s) = lease_release l s
          in Some (line (''unloaded: '' @ show_result r), Exit 0, s))"

text \<open>
  The three buffers after the kernel of the CPU backend ran on a block of three pointers, in the
  order of the block: the loader reads the first two and writes the third. A kernel for more elements
  than the vectors hold reads and writes out of bounds.
\<close>

definition run_block ::
  "('f, 'x) FloatOps_scheme \<Rightarrow> CpuKernel \<Rightarrow> 'f list \<times> 'f list \<times> 'f list \<Rightarrow> 'f list \<times> 'f list \<times> 'f list" where
  "run_block F m = (\<lambda>(p0, p1, p2).
     (case cpu_execute F (Some m) (p0, Some p1, p2) (3 * 8) of Inr q2 \<Rightarrow> (p0, p1, q2) | Inl _ \<Rightarrow> (p0, p1, p2)))"

text \<open>The output vector after the call, and the last lines of the command.\<close>

definition execute_out :: "('f, 'p) Cli \<Rightarrow> nat \<Rightarrow> CpuKernel \<Rightarrow> unit result \<Rightarrow> 'f list" where
  "execute_out c k m r =
     (let out = replicate k (f_zero (c_floats c)); a = replicate k (c_one c); b = replicate k (c_two c)
      in case r of Inr _ \<Rightarrow> fst (run_block (c_floats c) m (out, a, b)) | Inl _ \<Rightarrow> out)"

definition execute_report :: "('f, 'p) Cli \<Rightarrow> unit result \<Rightarrow> KernelLease \<Rightarrow> 'f list \<Rightarrow> 'p Impl \<Rightarrow> 'p cli_run" where
  "execute_report c r l out s =
     (case out of
        [] \<Rightarrow> Some ([], Undefined, s)
      | x # _ \<Rightarrow> Some (line (''execute: '' @ show_result r @ '' out0='' @ c_fmt2 c x),
                   Exit (case r of Inr _ \<Rightarrow> 0 | Inl _ \<Rightarrow> 1), snd (lease_release l s)))"

definition cmd_execute :: "('f, 'p) Cli \<Rightarrow> string list \<Rightarrow> 'p Impl \<Rightarrow> 'p cli_run" where
  "cmd_execute c argv s =
     (let n = atoll (argv ! 3)
      in case acquire_impl (c_env c) (cli_request (make_key (argv ! 2) n) RT_DeviceResident True) s of
           None \<Rightarrow> None
         | Some (Inl e, s) \<Rightarrow> Some (line (''execute acquire: '' @ c_str (message e)), Exit 1, s)
         | Some (Inr l, s) \<Rightarrow>
             (case cache_load (c_env c) (lease_artifact_id l) s of
                None \<Rightarrow> None
              | Some (h, s) \<Rightarrow>
                  if \<not> c_alloc c n then Some ([], Terminate, s)
                  else case h of
                         Inl e \<Rightarrow> Some ([], Terminate, s)
                       | Inr h \<Rightarrow>
                           let r = cache_execute h (replicate (3 * 8) 0) s;
                               m = parse_key (rec_key (the (find_rec (lease_artifact_id l) s)))
                           in if r = ok \<and> unat n < unat (count_elems (ck_shape m)) then Some ([], Undefined, s)
                              else execute_report c r l (execute_out c (unat n) m r) s))"

definition cmd_invalidate :: "('f, 'p) Cli \<Rightarrow> string list \<Rightarrow> 'p Impl \<Rightarrow> 'p cli_run" where
  "cmd_invalidate c argv s =
     (case invalidate_impl (c_env c) (InvalidationRequest_new\<lparr>target := IT_Operation, ir_operation := argv ! 2\<rparr>) s of
        (Inr os, s) \<Rightarrow> Some (line (''invalidated '' @ (case os of [] \<Rightarrow> ''0'' | o1 # _ \<Rightarrow> show_word (affected o1)) @ '' artifacts''),
                         Exit 0, s)
      | (Inl e, s) \<Rightarrow> Some (line (''invalidate: '' @ c_str (message e)), Exit 0, s))"

subsection \<open>Commands on identifiers\<close>

definition cmd_evict :: "('f, 'p) Cli \<Rightarrow> string list \<Rightarrow> 'p Impl \<Rightarrow> 'p cli_run" where
  "cmd_evict c argv s =
     (case parse (argv ! 2) of
        Inl _ \<Rightarrow> Some (line ''bad id'', Exit 1, s)
      | Inr i \<Rightarrow> (let (r, s) = evict_impl (c_env c) i False s in Some (line (''evict: '' @ show_result r), Exit 0, s)))"

definition cmd_pin :: "('f, 'p) Cli \<Rightarrow> string list \<Rightarrow> 'p Impl \<Rightarrow> 'p cli_run" where
  "cmd_pin c argv s =
     (let s = (case parse (argv ! 2) of Inr i \<Rightarrow> snd (pin_impl i s) | Inl _ \<Rightarrow> s) in Some (line ''pinned'', Exit 0, s))"

definition cmd_unpin :: "('f, 'p) Cli \<Rightarrow> string list \<Rightarrow> 'p Impl \<Rightarrow> 'p cli_run" where
  "cmd_unpin c argv s =
     (let s = (case parse (argv ! 2) of Inr i \<Rightarrow> snd (unpin_impl i s) | Inl _ \<Rightarrow> s) in Some (line ''unpinned'', Exit 0, s))"

definition cmd_inspect :: "('f, 'p) Cli \<Rightarrow> string list \<Rightarrow> 'p Impl \<Rightarrow> 'p cli_run" where
  "cmd_inspect c argv s =
     (case parse (argv ! 2) of
        Inl _ \<Rightarrow> Some (line ''bad id'', Exit 1, s)
      | Inr i \<Rightarrow>
          (case inspect_impl i s of
             Inr d \<Rightarrow> Some (line (''id='' @ str (ad_id d) @ '' op='' @ c_str (operation (ad_key d)) @ '' format=''
                        @ c_str (ad_format d) @ '' backend='' @ c_str (ad_backend d)
                        @ '' valid='' @ show_bool (all_passed (ad_validation d))), Exit 0, s)
           | Inl e \<Rightarrow> Some (line (''inspect: '' @ c_str (message e)), Exit 0, s)))"

definition cmd_explain :: "('f, 'p) Cli \<Rightarrow> string list \<Rightarrow> 'p Impl \<Rightarrow> 'p cli_run" where
  "cmd_explain c argv s =
     (case parse (argv ! 2) of
        Inl _ \<Rightarrow> Some (line ''bad id'', Exit 1, s)
      | Inr i \<Rightarrow> Some (line (c_str (ex_text (explain_impl i s))), Exit 0, s))"

subsection \<open>Reports\<close>

definition list_line :: "ArtifactDescriptor \<Rightarrow> string" where
  "list_line d = line (str (ad_id d) @ '' gen='' @ show_word (ad_generation d) @ '' op='' @ c_str (operation (ad_key d))
     @ '' state='' @ artifact_state_name (if all_passed (ad_validation d) then AS_Valid else AS_Corrupt))"

definition cmd_list :: "('f, 'p) Cli \<Rightarrow> string list \<Rightarrow> 'p Impl \<Rightarrow> 'p cli_run" where
  "cmd_list c argv s =
     (case list_impl None None s of
        Inr ds \<Rightarrow> Some (concat (map list_line ds), Exit 0, s)
      | Inl _ \<Rightarrow> Some ([], Exit 0, s))"

definition cmd_stats :: "('f, 'p) Cli \<Rightarrow> string list \<Rightarrow> 'p Impl \<Rightarrow> 'p cli_run" where
  "cmd_stats c argv s =
     (let st = stats s
      in Some (line (''lookups='' @ show_word (lookups st)
           @ '' hits='' @ show_word (exact_hits st + compatible_hits st + host_hits st + device_hits st + persistent_hits st)
           @ '' misses='' @ show_word (misses st) @ '' builds='' @ show_word (builds st)
           @ '' dedup='' @ show_word (build_dedup st) @ '' invalidations='' @ show_word (invalidations st)
           @ '' evictions='' @ show_word (evictions st) @ '' reloads='' @ show_word (reloads st)
           @ '' hit_ratio='' @ c_fmt_ratio c (hit_ratio st)), Exit 0, s))"

definition cmd_snapshot :: "('f, 'p) Cli \<Rightarrow> string list \<Rightarrow> 'p Impl \<Rightarrow> 'p cli_run" where
  "cmd_snapshot c argv s =
     (let sn = snapshot_impl s
      in Some (line (''artifacts='' @ show_word (artifact_count sn) @ '' host_bytes='' @ show_word (host_resident_bytes sn)
           @ '' device_bytes='' @ show_word (device_resident_bytes sn)
           @ '' persistent_bytes='' @ show_word (persistent_bytes sn)
           @ '' cache_gen='' @ show_word (sn_cache_generation sn)), Exit 0, s))"

definition cmd_recover :: "('f, 'p) Cli \<Rightarrow> string list \<Rightarrow> 'p Impl \<Rightarrow> 'p cli_run" where
  "cmd_recover c argv s =
     (let ((r, rejected, orphans), s) = recover_impl (c_env c) s
      in Some (line (''recovered='' @ (case r of Inr n \<Rightarrow> show_nat n | Inl _ \<Rightarrow> ''0'')
           @ '' rejected='' @ show_nat (length rejected) @ '' orphans='' @ show_nat (length orphans)), Exit 0, s))"

text \<open>The lease that the benchmark acquires is a temporary and is released at once.\<close>

primrec bench_loop :: "'p Env \<Rightarrow> KernelLookupRequest \<Rightarrow> nat \<Rightarrow> 'p Impl \<Rightarrow> 'p Impl" where
  "bench_loop env req 0 s = s"
| "bench_loop env req (Suc n) s = bench_loop env req n (snd (lookup_impl env req s))"

definition cmd_bench :: "('f, 'p) Cli \<Rightarrow> string list \<Rightarrow> 'p Impl \<Rightarrow> 'p cli_run" where
  "cmd_bench c argv s =
     (let n = sint (atoi (argv ! 2));
          req = cli_request (make_key ''vec_add'' 4096) RT_HostResident True
      in case acquire_impl (c_env c) req s of
           None \<Rightarrow> None
         | Some (l, s) \<Rightarrow>
             let s = (case l of Inr l \<Rightarrow> snd (lease_release l s) | Inl _ \<Rightarrow> s);
                 s = bench_loop (c_env c) req (nat n) s;
                 us = (c_steady c 1 - c_steady c 0) div 1000
             in Some (line (''bench: '' @ show_int n @ '' lookups in '' @ c_fmt_ms c us @ '' ms (''
                  @ c_fmt_rate c n us @ '' lookups/s)''), Exit 0, s))"

subsection \<open>Dispatch\<close>

definition cli_root :: "(string \<rightharpoonup> string) \<Rightarrow> string" where
  "cli_root getenv =
     (case getenv ''KC_ROOT'' of
        Some r \<Rightarrow> r
      | None \<Rightarrow> (case getenv ''TEMP'' of Some t \<Rightarrow> t | None \<Rightarrow> ''.'') @ ''/kc_cli'')"

definition cli_cache :: "('f, 'p) Cli \<Rightarrow> 'p Impl" where
  "cli_cache c =
     (let cf = KernelCacheConfig_new\<lparr>persistence_root := cli_root (c_getenv c), persistence_enabled := True\<rparr>
      in snd (use_builtin_backends (cli_cpu c) (c_cuda c) (KernelCache_new (c_env c) (c_open c) cf)))"

definition cli_dispatch :: "('f, 'p) Cli \<Rightarrow> string list \<Rightarrow> 'p Impl \<Rightarrow> 'p cli_run" where
  "cli_dispatch c argv s =
     (let cmd = argv ! 1; argc = length argv
      in if cmd = ''put'' \<and> argc \<ge> 4 then cmd_put c argv s
         else if cmd = ''build'' \<and> argc \<ge> 4 then cmd_build c argv s
         else if cmd = ''lookup'' \<and> argc \<ge> 4 then cmd_lookup c argv s
         else if cmd = ''validate'' \<and> argc \<ge> 4 then cmd_validate c argv s
         else if cmd = ''load'' \<and> argc \<ge> 4 then cmd_load c argv s
         else if cmd = ''unload'' \<and> argc \<ge> 4 then cmd_unload c argv s
         else if cmd = ''execute'' \<and> argc \<ge> 4 then cmd_execute c argv s
         else if cmd = ''invalidate'' \<and> argc \<ge> 4 then cmd_invalidate c argv s
         else if cmd = ''evict'' \<and> argc \<ge> 3 then cmd_evict c argv s
         else if cmd = ''pin'' \<and> argc \<ge> 3 then cmd_pin c argv s
         else if cmd = ''unpin'' \<and> argc \<ge> 3 then cmd_unpin c argv s
         else if cmd = ''list'' then cmd_list c argv s
         else if cmd = ''inspect'' \<and> argc \<ge> 3 then cmd_inspect c argv s
         else if cmd = ''stats'' then cmd_stats c argv s
         else if cmd = ''snapshot'' then cmd_snapshot c argv s
         else if cmd = ''explain'' \<and> argc \<ge> 3 then cmd_explain c argv s
         else if cmd = ''recover'' then cmd_recover c argv s
         else if cmd = ''bench'' \<and> argc \<ge> 3 then cmd_bench c argv s
         else if cmd = ''serve'' \<and> argc \<ge> 4 then Some ([], Exit 0, s)
         else if cmd = ''worker'' \<and> argc \<ge> 7 then Some ([], Exit 0, s)
         else Some (usage, Exit 2, s))"

definition kc_main :: "('f, 'p) Cli \<Rightarrow> string list \<Rightarrow> (string \<times> Ending \<times> 'p Impl option) option" where
  "kc_main c argv =
     (if length argv < 2 then Some (usage, Exit 2, None)
      else map_option (\<lambda>(out, e, s). (out, e, Some s)) (cli_dispatch c argv (cli_cache c)))"

subsection \<open>Lemmas\<close>

lemma key_fields_structure: "structure_ok (key_fields oper sh)"
  by (simp add: key_fields_def structure_ok_def KernelCompatibilityKey_new_def)

lemma make_key_finalize: "finalize (make_key oper sh) = (True, make_key oper sh)"
  unfolding make_key_def using key_fields_structure by (simp add: finalize_eq)

lemma make_key_sel:
  "operation (make_key oper sh) = oper" "runtime_backend (make_key oper sh) = cpu_name" "k_finalized (make_key oper sh)"
  "shape (make_key oper sh) = [sh]"
  using key_fields_structure [of oper sh]
  by (simp_all add: make_key_def finalize_eq derive_def canonicalize_def key_fields_def cpu_name_def)

lemma cli_cache_fields:
  "by_id (cli_cache c) = []" "by_key (cli_cache c) = []" "by_operation (cli_cache c) = []"
  "in_flight (cli_cache c) = []" "next_generation (cli_cache c) = 0" "stats (cli_cache c) = Stats_new"
  by (simp_all add: cli_cache_def use_builtin_backends_def register_backend_def KernelCache_new_def record_event_def
      now_ns_def Impl_new_def Let_def cli_cpu_def make_cpu_backend_def split: option.splits sum.splits prod.splits)

lemma cli_find_rec [simp]: "find_rec i (cli_cache c) = None"
  by (simp add: find_rec_def cli_cache_fields)


lemma cli_candidates: "collect_candidates k (cli_cache c\<lparr>ticks := t\<rparr>) = []"
  by (simp add: collect_candidates_def cli_cache_fields Let_def ids_of_def)

lemma cli_lookup:
  "\<exists>r s'. lookup_impl env (cli_request (make_key oper sh) tier mb) (cli_cache c) = (Inr r, s') \<and>
     outcome r = LO_MissRequiresBuild \<and> lr_artifact r = None \<and> lr_generation r = None"
  by (simp add: lookup_impl_def now_ns_def cli_request_def make_key_finalize make_key_sel default_namespace_def
      cli_candidates compatible_candidates_def lookup_miss_def KernelLookupResult_new_def Let_def)

lemma cli_acquire_miss:
  "\<exists>s'. acquire_impl env (cli_request (make_key oper sh) tier False) (cli_cache c) =
     Some (fail EC_NotFound (''miss: '' @ lookup_outcome_name LO_MissRequiresBuild @ '' op='' @ oper), s')"
proof -
  let ?q = "cli_request (make_key oper sh) tier False"
  obtain r s' where l: "lookup_impl env ?q (cli_cache c) = (Inr r, s')" "outcome r = LO_MissRequiresBuild"
    using cli_lookup [of env oper sh tier False c] by blast
  have q: "?q\<lparr>req_key := finalized (req_key ?q)\<rparr> = ?q" "allow_miss_build ?q = False" "operation (req_key ?q) = oper"
    by (simp_all add: cli_request_def make_key_finalize make_key_sel)
  show ?thesis unfolding acquire_impl_def Let_def q(1) l(1) using l(2) q(2,3) by (simp add: is_hit_def)
qed


lemma kc_main_dispatch:
  "2 \<le> length argv \<Longrightarrow> kc_main c argv = map_option (\<lambda>(out, e, s). (out, e, Some s)) (cli_dispatch c argv (cli_cache c))"
  by (simp add: kc_main_def)

lemma cli_backend:
  assumes "\<forall>b. c_cuda c = Some b \<longrightarrow> be_name b \<noteq> cpu_name"
  shows "find_backend (make_key oper sh) (cli_cache c) = Some (cli_cpu c)"
  using assms
  by (auto simp: find_backend_def make_key_sel cli_cache_def use_builtin_backends_def register_backend_def cli_cpu_def
      make_cpu_backend_def update_conv' Let_def split: option.splits)

lemma cli_persistence:
  "persistence_open (cli_cache c) \<and> persistence (cli_cache c) = Some p \<Longrightarrow> c_open c (cli_root (c_getenv c)) = Inr p"
  by (auto simp: cli_cache_def use_builtin_backends_def register_backend_def KernelCache_new_def record_event_def
      now_ns_def Impl_new_def Let_def cli_cpu_def make_cpu_backend_def split: option.splits sum.splits prod.splits if_splits)

lemma index_inv_cli: "index_inv (cli_cache c)"
  by (simp add: index_inv_def cli_cache_fields indexes_def ids_of_def)

lemma execute_out_zero: "execute_out c k m r = replicate k (f_zero (c_floats c))"
  by (cases r) (simp_all add: execute_out_def run_block_def Let_def split: sum.splits)

text \<open>The commands and the number of arguments each needs, the program's name included.\<close>

definition cli_commands :: "(string \<times> nat) list" where
  "cli_commands = [(''put'', 4), (''build'', 4), (''lookup'', 4), (''validate'', 4), (''load'', 4), (''unload'', 4),
     (''execute'', 4), (''invalidate'', 4), (''evict'', 3), (''pin'', 3), (''unpin'', 3), (''list'', 2), (''inspect'', 3),
     (''stats'', 2), (''snapshot'', 2), (''explain'', 3), (''recover'', 2), (''bench'', 3), (''serve'', 4), (''worker'', 7)]"

definition well_formed :: "string list \<Rightarrow> bool" where
  "well_formed argv \<longleftrightarrow> 2 \<le> length argv \<and> (\<exists>k. map_of cli_commands (argv ! 1) = Some k \<and> k \<le> length argv)"

lemma cmd_ends:
  "cmd_put c argv s = Some (out, e, s') \<Longrightarrow> e \<noteq> Exit 2"
  "cmd_build c argv s = Some (out, e, s') \<Longrightarrow> e \<noteq> Exit 2"
  "cmd_lookup c argv s = Some (out, e, s') \<Longrightarrow> e \<noteq> Exit 2"
  "cmd_validate c argv s = Some (out, e, s') \<Longrightarrow> e \<noteq> Exit 2"
  "cmd_load c argv s = Some (out, e, s') \<Longrightarrow> e \<noteq> Exit 2"
  "cmd_unload c argv s = Some (out, e, s') \<Longrightarrow> e \<noteq> Exit 2"
  "cmd_invalidate c argv s = Some (out, e, s') \<Longrightarrow> e \<noteq> Exit 2"
  "cmd_evict c argv s = Some (out, e, s') \<Longrightarrow> e \<noteq> Exit 2"
  "cmd_pin c argv s = Some (out, e, s') \<Longrightarrow> e \<noteq> Exit 2"
  "cmd_unpin c argv s = Some (out, e, s') \<Longrightarrow> e \<noteq> Exit 2"
  "cmd_list c argv s = Some (out, e, s') \<Longrightarrow> e \<noteq> Exit 2"
  "cmd_inspect c argv s = Some (out, e, s') \<Longrightarrow> e \<noteq> Exit 2"
  "cmd_stats c argv s = Some (out, e, s') \<Longrightarrow> e \<noteq> Exit 2"
  "cmd_snapshot c argv s = Some (out, e, s') \<Longrightarrow> e \<noteq> Exit 2"
  "cmd_explain c argv s = Some (out, e, s') \<Longrightarrow> e \<noteq> Exit 2"
  "cmd_recover c argv s = Some (out, e, s') \<Longrightarrow> e \<noteq> Exit 2"
  "cmd_bench c argv s = Some (out, e, s') \<Longrightarrow> e \<noteq> Exit 2"
  "cmd_execute c argv s = Some (out, e, s') \<Longrightarrow> e \<noteq> Exit 2"
  by (auto simp: cmd_put_def cmd_build_def cmd_lookup_def cmd_validate_def cmd_load_def cmd_unload_def cmd_invalidate_def cmd_evict_def cmd_pin_def cmd_unpin_def cmd_list_def cmd_inspect_def cmd_stats_def cmd_snapshot_def cmd_explain_def cmd_recover_def cmd_bench_def cmd_execute_def execute_report_def Let_def
      split: option.splits prod.splits sum.splits if_splits list.splits)

lemma well_formed_cases:
  "well_formed argv \<longleftrightarrow> 2 \<le> length argv \<and>
     (argv ! 1 \<in> {''put'', ''build'', ''lookup'', ''validate'', ''load'', ''unload'', ''execute'', ''invalidate'', ''serve''} \<and> 4 \<le> length argv \<or>
      argv ! 1 \<in> {''evict'', ''pin'', ''unpin'', ''inspect'', ''explain'', ''bench''} \<and> 3 \<le> length argv \<or>
      argv ! 1 \<in> {''list'', ''stats'', ''snapshot'', ''recover''} \<or> argv ! 1 = ''worker'' \<and> 7 \<le> length argv)"
  unfolding well_formed_def cli_commands_def by auto

lemma dispatch_ends:
  assumes "well_formed argv"
  shows "\<forall>out e st. cli_dispatch c argv s = Some (out, e, st) \<longrightarrow> e \<noteq> Exit 2"
  using assms unfolding well_formed_cases
  by (elim conjE disjE insertE emptyE; simp add: cli_dispatch_def; blast dest: cmd_ends)

lemma dispatch_usage: "\<not> well_formed argv \<Longrightarrow> 2 \<le> length argv \<Longrightarrow> cli_dispatch c argv s = Some (usage, Exit 2, s)"
  unfolding well_formed_cases cli_dispatch_def Let_def
  by ((rule trans [OF if_not_P], blast)+) (rule refl)

subsection \<open>Properties\<close>

text \<open>
  A command of the command line sees nothing of earlier runs: the process opens the store but
  never recovers from it, so whatever the directory holds, listing prints nothing, every lookup is a
  miss, and inspecting, evicting or validating an artifact reports that there is none.
\<close>

theorem cli_starts_empty:
  "(\<exists>s. kc_main c [p, ''list''] = Some ([], Exit 0, Some s)) \<and>
   (\<exists>s. kc_main c [p, ''lookup'', oper, sh] =
      Some (line ''outcome=miss-requires-build artifact=- gen=0'', Exit 0, Some s)) \<and>
   (\<exists>s. kc_main c [p, ''inspect'', str i] = Some (line ''inspect: artifact not found'', Exit 0, Some s)) \<and>
   (\<exists>s. kc_main c [p, ''evict'', str i] = Some (line ''evict: artifact not found'', Exit 0, Some s)) \<and>
   (\<exists>s. kc_main c [p, ''validate'', oper, sh] =
      Some (line (''validate failed: '' @ c_str (''miss: miss-requires-build op='' @ oper)), Exit 0, Some s))"
proof (intro conjI)
  show "\<exists>s. kc_main c [p, ''list''] = Some ([], Exit 0, Some s)"
    by (simp add: kc_main_dispatch cli_dispatch_def cmd_list_def list_impl_def cli_cache_fields)
  obtain r s' where l: "lookup_impl (c_env c) (cli_request (make_key oper (atoll sh)) RT_HostResident True) (cli_cache c) = (Inr r, s')"
    "outcome r = LO_MissRequiresBuild" "lr_artifact r = None" "lr_generation r = None"
    using cli_lookup [of "c_env c" oper "atoll sh" RT_HostResident True c] by blast
  then show "\<exists>s. kc_main c [p, ''lookup'', oper, sh] =
      Some (line ''outcome=miss-requires-build artifact=- gen=0'', Exit 0, Some s)"
    by (simp add: kc_main_dispatch cli_dispatch_def cmd_lookup_def arg_key_def)
  show "\<exists>s. kc_main c [p, ''inspect'', str i] = Some (line ''inspect: artifact not found'', Exit 0, Some s)"
    by (simp add: kc_main_dispatch cli_dispatch_def cmd_inspect_def inspect_impl_def parse_str_id c_str_def)
  show "\<exists>s. kc_main c [p, ''evict'', str i] = Some (line ''evict: artifact not found'', Exit 0, Some s)"
    by (simp add: kc_main_dispatch cli_dispatch_def cmd_evict_def evict_impl_def parse_str_id show_result_def c_str_def)
  obtain s' where a: "acquire_impl (c_env c) (cli_request (make_key oper (atoll sh)) RT_HostResident False) (cli_cache c) =
      Some (fail EC_NotFound (''miss: '' @ lookup_outcome_name LO_MissRequiresBuild @ '' op='' @ oper), s')"
    using cli_acquire_miss by blast
  then show "\<exists>s. kc_main c [p, ''validate'', oper, sh] =
      Some (line (''validate failed: '' @ c_str (''miss: miss-requires-build op='' @ oper)), Exit 0, Some s)"
    by (simp add: kc_main_dispatch cli_dispatch_def cmd_validate_def arg_key_def)
qed


text \<open>
  The exit code 2 means exactly a command line that is not understood: no command, an unknown one
  or one with too few arguments. Then the usage text is printed and no command runs; every command
  that runs ends some other way.
\<close>

theorem cli_usage_exact:
  "((\<exists>out st. kc_main c argv = Some (out, Exit 2, st)) \<longleftrightarrow> \<not> well_formed argv) \<and>
   ((\<exists>st. kc_main c argv = Some (usage, Exit 2, st)) \<longleftrightarrow> \<not> well_formed argv)"
proof (cases "well_formed argv")
  case True
  have "\<forall>out e st. cli_dispatch c argv s = Some (out, e, st) \<longrightarrow> e \<noteq> Exit 2" for s
    using True by (rule dispatch_ends)
  then show ?thesis using True by (auto simp: well_formed_def kc_main_dispatch)
next
  case False
  then show ?thesis
    by (cases "2 \<le> length argv") (simp_all add: kc_main_def dispatch_usage)
qed

text \<open>
  \<^verbatim>\<open>kc execute\<close> never shows a result: it passes its buffers as output, input, input, while the CPU
  loader reads the first two and writes the third, so after a successful run of any operation the
  element it prints is the zero the output buffer was created with.
\<close>

theorem cli_execute_prints_zero:
  assumes "cmd_execute c argv s = Some (out, Exit 0, s')"
  shows "out = line (''execute: ok out0='' @ c_fmt2 c (f_zero (c_floats c)))"
proof -
  from assms obtain r l k s2 where "execute_report c r l (replicate k (f_zero (c_floats c))) s2 = Some (out, Exit 0, s')"
    by (auto simp: cmd_execute_def execute_out_zero Let_def split: option.splits prod.splits sum.splits if_splits)
  then show ?thesis by (cases k) (auto simp: execute_report_def show_result_def split: sum.splits)
qed

subsection \<open>Witnesses\<close>

definition sample_cli :: "(rat, StoredArtifact list) Cli" where
  "sample_cli = \<lparr>c_env = sample_env, c_open = (\<lambda>root. Inr []), c_cuda = None, c_getenv = (\<lambda>v. None),
     c_floats = rat_floats, c_rng = (\<lambda>i. 0), c_footprint = 64, c_one = 1, c_two = 2,
     c_fmt2 = (\<lambda>x. if x = 0 then ''0.00'' else ''?''), c_fmt_ratio = (\<lambda>r. ''0.000''), c_fmt_ms = show_word,
     c_fmt_rate = (\<lambda>n us. show_int n), c_steady = word_of_nat, c_alloc = (\<lambda>n. n < 1000)\<rparr>"


text \<open>A cache that holds a kernel for four elements on the device.\<close>

definition exec_record :: ArtifactRecord where
  "exec_record = (make_record (ArtifactDescriptor_new\<lparr>ad_id := sample_id, ad_generation := 1, ad_key := make_key ''vec_add'' 4,
     ad_backend := cpu_name, ad_validation := passed\<rparr>) [1, 2, 3] 0)\<lparr>rec_tier := RT_DeviceResident, native_handle := Some 0\<rparr>"

definition exec_cache :: "StoredArtifact list Impl" where
  "exec_cache = insert_index_locked exec_record (cli_cache sample_cli)"

lemma exec_record_sel [simp]:
  "rec_id exec_record = sample_id" "rec_key exec_record = make_key ''vec_add'' 4" "rec_tier exec_record = RT_DeviceResident"
  "native_handle exec_record = Some 0" "usable exec_record" "validated exec_record" "rec_backend exec_record = cpu_name"
  by (simp_all add: exec_record_def make_record_def usable_def is_eligible_def)

lemma exec_find: "find_rec i exec_cache = (if i = sample_id then Some exec_record else None)"
  using make_key_sel(3) by (simp add: exec_cache_def find_rec_insert ensure_finalized_def)

lemma exec_index_inv: "index_inv exec_cache"
  unfolding exec_cache_def
  by (rule index_inv_insert [OF index_inv_cli]) (simp_all add: exec_record_def make_record_def rec_ok_def published_state_def)

lemma exec_acquire:
  "\<exists>l s r. acquire_impl sample_env (cli_request (make_key ''vec_add'' 4) RT_DeviceResident True) exec_cache = Some (Inr l, s) \<and>
    lease_artifact_id l = sample_id \<and> find_rec sample_id s = Some r \<and> rec_tier r = RT_DeviceResident \<and>
    rec_key r = make_key ''vec_add'' 4 \<and> rec_backend r = cpu_name \<and> native_handle r = Some 0 \<and> backends s = backends exec_cache"
proof -
  let ?q = "cli_request (make_key ''vec_add'' 4) RT_DeviceResident True"
  have q: "req_key ?q = make_key ''vec_add'' 4" "?q\<lparr>req_key := finalized (req_key ?q)\<rparr> = ?q" "desired_tier ?q = RT_DeviceResident"
    by (simp_all add: cli_request_def make_key_finalize)
  obtain res s1 where l: "lookup_impl sample_env ?q exec_cache = (res, s1)" by fastforce
  obtain lr where lr: "res = Inr lr" "is_hit lr"
    using lookup_exact [OF exec_index_inv _ _ _ _ make_key_finalize q(1) l, of sample_id exec_record] by (auto simp: exec_find)
  have ok: "structure_ok (req_key ?q)" using make_key_finalize [of "''vec_add''" 4] by (simp add: q finalize_True)
  have "lr_artifact lr = Some sample_id"
    using lookup_cases [OF exec_index_inv ok l] lr by (auto simp: candidate_records_def exec_find split: if_splits)
  moreover have "same_records exec_cache s1" "backends s1 = backends exec_cache"
    using lookup_frame [OF l] by (auto simp: same_outer_def)
  moreover from this(1) have "find_rec sample_id s1 = Some exec_record" by (simp add: same_records_find exec_find)
  ultimately show ?thesis
    unfolding acquire_impl_def Let_def q(2) l prod.case lr(1) sum.case
    using lr(2) by (auto simp: promote_and_grant_def promote_to_tier_def q(3) grant_lease_def lease_eligible_usable now_ns_def
        grant_update_def lease_artifact_id_def Let_def)
qed

lemma exec_runs: "\<exists>out s. cmd_execute sample_cli [''kc'', ''execute'', ''vec_add'', ''4''] exec_cache = Some (out, Exit 0, s)"
proof -
  have four: "atoll ''4'' = 4" by code_simp
  have small: "c_alloc sample_cli 4" "c_env sample_cli = sample_env" by (simp_all add: sample_cli_def)
  obtain l s r where a: "acquire_impl sample_env (cli_request (make_key ''vec_add'' 4) RT_DeviceResident True) exec_cache = Some (Inr l, s)"
    "lease_artifact_id l = sample_id" "find_rec sample_id s = Some r" "rec_tier r = RT_DeviceResident"
    "rec_key r = make_key ''vec_add'' 4" "rec_backend r = cpu_name" "native_handle r = Some 0" "backends s = backends exec_cache"
    using exec_acquire by blast
  have load: "cache_load sample_env sample_id s = Some (Inr (handle_of r), s)"
    using a by (simp add: cache_load_def promote_to_tier_def)
  have "map_of (backends exec_cache) cpu_name = Some (cli_cpu sample_cli)"
    by (simp add: exec_cache_def cli_cache_def use_builtin_backends_def register_backend_def sample_cli_def cli_cpu_def
        make_cpu_backend_def update_conv' Let_def)
  then have x: "cache_execute (handle_of r) args s = ok" if "24 \<le> length args" for args
    using a that by (simp add: cache_execute_def handle_of_def cli_cpu_def make_cpu_backend_def)
  have n: "unat (count_elems (ck_shape (parse_key (make_key ''vec_add'' 4)))) = 4"
    by (simp add: parse_key_def make_key_sel count_elems_def)
  have "execute_report sample_cli ok l (replicate 4 z) s =
      Some (line (''execute: ok out0='' @ c_fmt2 sample_cli z), Exit 0, snd (lease_release l s))" for z
    by (simp add: execute_report_def show_result_def replicate_Suc [of 3, simplified])
  then show ?thesis using a load n by (simp add: cmd_execute_def four small x execute_out_zero)
qed

theorem cli_execute_prints_zero_witness:
  "\<exists>s. cmd_execute sample_cli [''kc'', ''execute'', ''vec_add'', ''4''] exec_cache = Some (line ''execute: ok out0=0.00'', Exit 0, s)"
proof -
  obtain out s where e: "cmd_execute sample_cli [''kc'', ''execute'', ''vec_add'', ''4''] exec_cache = Some (out, Exit 0, s)"
    using exec_runs by blast
  have "c_fmt2 sample_cli (f_zero (c_floats sample_cli)) = ''0.00''" by (simp add: sample_cli_def rat_floats_def)
  with cli_execute_prints_zero [OF e] e show ?thesis by simp
qed

end
