(* ===== verification/KC_Distributed.thy ===== *)
theory KC_Distributed
  imports KC_Canonical
begin

text \<open>
  The framed protocol (\<^verbatim>\<open>include/kernelcache/distributed.hpp\<close>, \<^verbatim>\<open>src/distributed.cpp\<close>): frames and the
  payload of every message. The locale \<^verbatim>\<open>codec\<close> is what the processes rely on; every message type
  is an interpretation of it.
\<close>

subsection \<open>Frames\<close>

definition kDistProtoVersion :: u32 where
  "kDistProtoVersion = 1"

definition kDistMaxFrameBytes :: nat where
  "kDistMaxFrameBytes = 64 * 1024 * 1024"

definition kDistHeaderBytes :: nat where
  "kDistHeaderBytes = 8"

datatype DistMsgType =
    Hello_W | Register_W | RegisterAck_C | LookupReq | LookupResp | BuildReq | BuildResp | InvalidateReq
  | InvalidateResp | RollEpoch | RollEpochAck | EpochInvalid | Shutdown | QueryWorkers | QueryWorkersResp

primrec msg_type_value :: "DistMsgType \<Rightarrow> u16" where
  "msg_type_value Hello_W = 1"
| "msg_type_value Register_W = 2"
| "msg_type_value RegisterAck_C = 3"
| "msg_type_value LookupReq = 4"
| "msg_type_value LookupResp = 5"
| "msg_type_value BuildReq = 6"
| "msg_type_value BuildResp = 7"
| "msg_type_value InvalidateReq = 8"
| "msg_type_value InvalidateResp = 9"
| "msg_type_value RollEpoch = 10"
| "msg_type_value RollEpochAck = 11"
| "msg_type_value EpochInvalid = 12"
| "msg_type_value Shutdown = 13"
| "msg_type_value QueryWorkers = 14"
| "msg_type_value QueryWorkersResp = 15"

primrec dist_msg_type_name :: "DistMsgType \<Rightarrow> string" where
  "dist_msg_type_name Hello_W = ''hello-w''"
| "dist_msg_type_name Register_W = ''register-w''"
| "dist_msg_type_name RegisterAck_C = ''register-ack-c''"
| "dist_msg_type_name LookupReq = ''lookup-req''"
| "dist_msg_type_name LookupResp = ''lookup-resp''"
| "dist_msg_type_name BuildReq = ''build-req''"
| "dist_msg_type_name BuildResp = ''build-resp''"
| "dist_msg_type_name InvalidateReq = ''invalidate-req''"
| "dist_msg_type_name InvalidateResp = ''invalidate-resp''"
| "dist_msg_type_name RollEpoch = ''roll-epoch''"
| "dist_msg_type_name RollEpochAck = ''roll-epoch-ack''"
| "dist_msg_type_name EpochInvalid = ''epoch-invalid''"
| "dist_msg_type_name Shutdown = ''shutdown''"
| "dist_msg_type_name QueryWorkers = ''query-workers''"
| "dist_msg_type_name QueryWorkersResp = ''query-workers-resp''"

definition known_types :: "DistMsgType list" where
  "known_types = [Hello_W, Register_W, RegisterAck_C, LookupReq, LookupResp, BuildReq, BuildResp,
     InvalidateReq, InvalidateResp, RollEpoch, RollEpochAck, EpochInvalid, Shutdown, QueryWorkers,
     QueryWorkersResp]"

definition encode_frame :: "DistMsgType \<Rightarrow> bytes \<Rightarrow> bytes" where
  "encode_frame type payload =
     (let total = word_of_nat (kDistHeaderBytes + length payload) :: u64; ty = msg_type_value type
      in [ucast (drop_bit 24 total AND 0xff), ucast (drop_bit 16 total AND 0xff),
          ucast (drop_bit 8 total AND 0xff), ucast (total AND 0xff),
          ucast (drop_bit 8 kDistProtoVersion AND 0xff), ucast (kDistProtoVersion AND 0xff),
          ucast (drop_bit 8 ty AND 0xff), ucast (ty AND 0xff)] @ payload)"

text \<open>The three header fields of a frame of at least eight bytes.\<close>

definition header_len :: "bytes \<Rightarrow> u32" where
  "header_len f = be_word (take 4 f)"

definition header_ver :: "bytes \<Rightarrow> u16" where
  "header_ver f = be_word (take 2 (drop 4 f))"

definition header_type :: "bytes \<Rightarrow> u16" where
  "header_type f = be_word (take 2 (drop 6 f))"

definition find_type :: "u16 \<Rightarrow> DistMsgType option" where
  "find_type v = find (\<lambda>t. msg_type_value t = v) known_types"

definition decode_frame :: "bytes \<Rightarrow> (DistMsgType \<times> bytes) result" where
  "decode_frame f =
     (if length f < kDistHeaderBytes then fail EC_MalformedFrame ''frame shorter than header''
      else if unat (header_len f) > kDistMaxFrameBytes then fail EC_FrameTooLarge ''frame exceeds hard maximum''
      else if unat (header_len f) \<noteq> length f
        then fail EC_TruncatedData ''frame length mismatch (truncated or partial)''
      else if ucast (header_ver f) \<noteq> kDistProtoVersion
        then fail EC_ProtocolVersionMismatch ''unsupported protocol version''
      else case find_type (header_type f) of
             None \<Rightarrow> fail EC_UnknownMessageType ''unknown message type''
           | Some t \<Rightarrow> Inr (t, drop kDistHeaderBytes f))"

lemma find_type_value [simp]: "find_type (msg_type_value t) = Some t"
  by (cases t) (simp_all add: find_type_def known_types_def)

lemma find_type_Some: "find_type v = Some t \<longleftrightarrow> v = msg_type_value t"
proof
  show "find_type v = Some t \<Longrightarrow> v = msg_type_value t" by (auto simp: find_type_def find_Some_iff)
qed simp

lemma total_bytes:
  assumes "n < 2 ^ 32"
  shows "[ucast (drop_bit 24 (word_of_nat n :: u64) AND 0xff), ucast (drop_bit 16 (word_of_nat n :: u64) AND 0xff),
    ucast (drop_bit 8 (word_of_nat n :: u64) AND 0xff), ucast ((word_of_nat n :: u64) AND 0xff)]
    = be_bytes 4 (word_of_nat n :: u32)"
proof -
  have "(word_of_nat n :: u64) = ucast (word_of_nat n :: u32)"
    using assms by (simp add: word_eq_iff_unsigned unsigned_ucast_eq unsigned_of_nat take_bit_nat_eq_self)
  then show ?thesis
    by (simp add: be_bytes_def upt_rec) (intro conjI bit_word_eqI; simp add: bit_simps)
qed

lemma header_encode:
  assumes "length p < 2 ^ 32 - 8"
  shows "encode_frame t p = be_bytes 4 (word_of_nat (8 + length p) :: u32) @ be_bytes 2 (1 :: u16)
    @ be_bytes 2 (msg_type_value t) @ p"
proof -
  have "8 + length p < 2 ^ 32" using assms by simp
  from total_bytes [OF this] show ?thesis
    by (simp add: encode_frame_def kDistHeaderBytes_def kDistProtoVersion_def Let_def)
      (simp add: be_bytes_def upt_rec)
qed

lemma decode_encode_frame:
  assumes "length p + 8 \<le> kDistMaxFrameBytes"
  shows "decode_frame (encode_frame t p) = Inr (t, p)"
proof -
  have s: "length p < 2 ^ 32 - 8" using assms by (simp add: kDistMaxFrameBytes_def)
  have n: "unat (word_of_nat (8 + length p) :: u32) = 8 + length p"
    by (simp only: unat_of_nat) (use s in simp)
  have h: "header_len (encode_frame t p) = word_of_nat (8 + length p)"
    "header_ver (encode_frame t p) = 1" "header_type (encode_frame t p) = msg_type_value t"
    "length (encode_frame t p) = 8 + length p" "drop kDistHeaderBytes (encode_frame t p) = p"
    by (simp_all add: header_encode [OF s] header_len_def header_ver_def header_type_def kDistHeaderBytes_def)
  then show ?thesis
    using assms n by (simp add: decode_frame_def kDistProtoVersion_def kDistHeaderBytes_def)
qed

lemma ver_one: "ucast (v :: u16) = (1 :: u32) \<longleftrightarrow> v = 1"
proof
  have "ucast (ucast v :: u32) = v" by (rule bit_word_eqI) (simp add: bit_simps)
  then show "ucast v = (1 :: u32) \<Longrightarrow> v = 1" by (metis unsigned_1)
qed simp

text \<open>What is accepted is exactly what the encoder produces.\<close>

lemma decode_frame_Inr:
  assumes "decode_frame f = Inr (t, p)"
  shows "f = encode_frame t p \<and> length p + 8 \<le> kDistMaxFrameBytes"
proof -
  have l: "length f \<ge> 8" "unat (header_len f) = length f" "length f \<le> kDistMaxFrameBytes"
    and v: "header_ver f = 1" and ty: "header_type f = msg_type_value t" and p: "p = drop 8 f"
    using assms
    by (auto simp: decode_frame_def kDistHeaderBytes_def kDistProtoVersion_def find_type_Some ver_one
        split: if_splits option.splits)
  have s: "length p < 2 ^ 32 - 8" using l p by (simp add: kDistMaxFrameBytes_def)
  have "drop 4 f = take 2 (drop 4 f) @ drop 6 f" "drop 6 f = take 2 (drop 6 f) @ drop 8 f"
    using append_take_drop_id [of 2 "drop 4 f"] append_take_drop_id [of 2 "drop 6 f"] by simp_all
  then have "f = take 4 f @ take 2 (drop 4 f) @ take 2 (drop 6 f) @ drop 8 f"
    by (metis append_take_drop_id)
  moreover have "take 4 f = be_bytes 4 (header_len f)" "take 2 (drop 4 f) = be_bytes 2 (header_ver f)"
    "take 2 (drop 6 f) = be_bytes 2 (header_type f)"
    using l(1) by (simp_all add: header_len_def header_ver_def header_type_def be_bytes_be_word)
  moreover have "header_len f = word_of_nat (8 + length p)"
  proof -
    have "8 + length p = unat (header_len f)" using l(1,2) p by simp
    then show ?thesis by (simp only:) simp
  qed
  ultimately have "f = encode_frame t p" using v ty p header_encode [OF s, of t] by metis
  then show ?thesis using l p by simp
qed


subsection \<open>Authority\<close>

record DistAuthority =
  au_epoch :: CoordinatorEpoch
  au_worker :: WorkerId
  au_boot :: WorkerBootId
  au_cache_gen :: CacheGeneration
  au_artifact_gen :: ArtifactGeneration
  au_attempt :: BuildAttemptId
  au_request :: RequestId

definition DistAuthority_new :: DistAuthority where
  "DistAuthority_new = \<lparr>au_epoch = 0, au_worker = 0, au_boot = default_id, au_cache_gen = 0,
     au_artifact_gen = 0, au_attempt = default_id, au_request = default_id\<rparr>"

text \<open>\<^verbatim>\<open>append_u64_be\<close> is the writer's big-endian append; two of them write an identifier.\<close>

definition append_id :: "bytes \<Rightarrow> StrongId128 \<Rightarrow> bytes" where
  "append_id out i = push_be_u64 (push_be_u64 out (id_hi i)) (id_lo i)"

definition append_blob :: "bytes \<Rightarrow> bytes \<Rightarrow> bytes" where
  "append_blob out b = push_be_u64 out (word_of_nat (length b)) @ b"

definition append_text :: "bytes \<Rightarrow> string \<Rightarrow> bytes" where
  "append_text out s = push_be_u64 out (word_of_nat (length s)) @ bytes_of_string s"

definition encode_authority :: "bytes \<Rightarrow> DistAuthority \<Rightarrow> bytes" where
  "encode_authority out a =
     (let out = out @ [1];
          out = push_be_u64 (push_be_u64 out (au_epoch a)) (au_worker a);
          out = append_id out (au_boot a);
          out = push_be_u64 (push_be_u64 out (au_cache_gen a)) (au_artifact_gen a);
          out = append_id out (au_attempt a)
      in append_id out (au_request a))"

definition r_id :: "Reader \<Rightarrow> (StrongId128 \<times> Reader) option" where
  "r_id r = do { (h, r) \<leftarrow> r_u64 r; (l, r) \<leftarrow> r_u64 r; Some (mk_id h l, r) }"

text \<open>The fields of an authority behind its marker byte.\<close>

definition r_authority :: "Reader \<Rightarrow> (DistAuthority \<times> Reader) option" where
  "r_authority r = do {
     (e, r) \<leftarrow> r_u64 r; (w, r) \<leftarrow> r_u64 r; (b, r) \<leftarrow> r_id r; (cg, r) \<leftarrow> r_u64 r; (ag, r) \<leftarrow> r_u64 r;
     (at, r) \<leftarrow> r_id r; (rq, r) \<leftarrow> r_id r;
     Some (\<lparr>au_epoch = e, au_worker = w, au_boot = b, au_cache_gen = cg, au_artifact_gen = ag,
            au_attempt = at, au_request = rq\<rparr>, r) }"

definition decode_authority :: "Reader \<Rightarrow> (DistAuthority \<times> Reader) option" where
  "decode_authority r = do { (m, r) \<leftarrow> r_u8 r; if m \<noteq> 1 then None else r_authority r }"

definition enc_id :: "StrongId128 \<Rightarrow> bytes" where
  "enc_id i = be_bytes 8 (id_hi i) @ be_bytes 8 (id_lo i)"

definition enc_authority :: "DistAuthority \<Rightarrow> bytes" where
  "enc_authority a = be_bytes 8 (au_epoch a) @ be_bytes 8 (au_worker a) @ enc_id (au_boot a)
     @ be_bytes 8 (au_cache_gen a) @ be_bytes 8 (au_artifact_gen a) @ enc_id (au_attempt a) @ enc_id (au_request a)"

lemma append_id_eq [enc_simps]: "append_id out i = out @ enc_id i"
  by (simp add: append_id_def enc_id_def push_be_u64_eq)

lemma append_blob_eq [enc_simps]: "append_blob out b = out @ enc_blob b"
  by (simp add: append_blob_def enc_blob_def push_be_u64_eq)

lemma append_text_eq [enc_simps]: "append_text out s = out @ enc_str s"
  by (simp add: append_text_def enc_str_def enc_blob_def push_be_u64_eq)

lemma encode_authority_eq [enc_simps]: "encode_authority out a = out @ 1 # enc_authority a"
  by (simp add: encode_authority_def enc_authority_def enc_simps Let_def)

lemma r_id_append [dec_simps]: "r_id (enc_id i @ r) = Some (i, r)"
  by (simp add: r_id_def enc_id_def dec_simps)

lemma r_authority_append [dec_simps]: "r_authority (enc_authority a @ r) = Some (a, r)"
  by (simp add: r_authority_def enc_authority_def dec_simps)

subsection \<open>Messages\<close>

record LookupRequestMsg =
  lq_auth :: DistAuthority
  lq_rid :: RequestId
  lq_operation :: string
  lq_key :: bytes
  lq_namespace :: string
  lq_tier :: u8

definition encode_lookup_request :: "LookupRequestMsg \<Rightarrow> bytes" where
  "encode_lookup_request m =
     (let out = encode_authority [] (lq_auth m);
          out = append_id out (lq_rid m);
          out = append_text out (lq_operation m);
          out = append_blob out (lq_key m);
          out = append_text out (lq_namespace m)
      in out @ [lq_tier m])"

text \<open>
  The decoder also assigns its output parameter \<^verbatim>\<open>rid\<close> before it can fail on a later field: the
  second component is the value of \<^verbatim>\<open>rid\<close> after the call.
\<close>

definition decode_lookup_request :: "bytes \<Rightarrow> RequestId \<Rightarrow> LookupRequestMsg result \<times> RequestId" where
  "decode_lookup_request p rid0 =
     (case r_u8 p of
        None \<Rightarrow> (fail EC_MalformedFrame ''truncated lookup request'', rid0)
      | Some (m, r) \<Rightarrow>
          if m \<noteq> 1 then (fail EC_MalformedFrame ''bad authority marker'', rid0)
          else case do { (a, r) \<leftarrow> r_authority r; (rid, r) \<leftarrow> r_id r; Some (a, rid, r) } of
                 None \<Rightarrow> (fail EC_MalformedFrame ''truncated lookup request'', rid0)
               | Some (a, rid, r) \<Rightarrow>
                   (case do { (op, r) \<leftarrow> r_str r; (k, r) \<leftarrow> r_bytes r; (ns, r) \<leftarrow> r_str r; (t, r) \<leftarrow> r_u8 r;
                              Some \<lparr>lq_auth = a, lq_rid = rid, lq_operation = op, lq_key = k, lq_namespace = ns, lq_tier = t\<rparr> } of
                      None \<Rightarrow> (fail EC_MalformedFrame ''truncated lookup request'', rid)
                    | Some msg \<Rightarrow> (Inr msg, rid)))"

record LookupResponseMsg =
  lp_rid :: RequestId
  lp_outcome :: u8
  lp_compatible :: u8
  lp_id :: ArtifactId
  lp_gen :: ArtifactGeneration

definition encode_lookup_response :: "LookupResponseMsg \<Rightarrow> bytes" where
  "encode_lookup_response m =
     (let out = append_id [] (lp_rid m);
          out = out @ [lp_outcome m] @ [lp_compatible m];
          out = append_id out (lp_id m)
      in push_be_u64 out (lp_gen m))"

definition decode_lookup_response :: "bytes \<Rightarrow> LookupResponseMsg result" where
  "decode_lookup_response p =
     (case do { (rid, r) \<leftarrow> r_id p; (oc, r) \<leftarrow> r_u8 r; (co, r) \<leftarrow> r_u8 r; (i, r) \<leftarrow> r_id r; (g, r) \<leftarrow> r_u64 r;
                Some \<lparr>lp_rid = rid, lp_outcome = oc, lp_compatible = co, lp_id = i, lp_gen = g\<rparr> } of
        None \<Rightarrow> fail EC_MalformedFrame ''truncated lookup response''
      | Some m \<Rightarrow> Inr m)"

record BuildRequestMsg =
  bq_auth :: DistAuthority
  bq_rid :: RequestId
  bq_key :: bytes
  bq_source :: string
  bq_namespace :: string
  bq_arch :: string

definition encode_build_request :: "BuildRequestMsg \<Rightarrow> bytes" where
  "encode_build_request m =
     (let out = encode_authority [] (bq_auth m);
          out = append_id out (bq_rid m);
          out = append_blob out (bq_key m);
          out = append_text out (bq_source m);
          out = append_text out (bq_namespace m)
      in append_text out (bq_arch m))"

definition decode_build_request :: "bytes \<Rightarrow> RequestId \<Rightarrow> BuildRequestMsg result \<times> RequestId" where
  "decode_build_request p rid0 =
     (case r_u8 p of
        None \<Rightarrow> (fail EC_MalformedFrame ''truncated build request'', rid0)
      | Some (m, r) \<Rightarrow>
          if m \<noteq> 1 then (fail EC_MalformedFrame ''bad authority marker'', rid0)
          else case do { (a, r) \<leftarrow> r_authority r; (rid, r) \<leftarrow> r_id r; Some (a, rid, r) } of
                 None \<Rightarrow> (fail EC_MalformedFrame ''truncated build request'', rid0)
               | Some (a, rid, r) \<Rightarrow>
                   (case do { (k, r) \<leftarrow> r_bytes r; (src, r) \<leftarrow> r_str r; (ns, r) \<leftarrow> r_str r; (ar, r) \<leftarrow> r_str r;
                              Some \<lparr>bq_auth = a, bq_rid = rid, bq_key = k, bq_source = src, bq_namespace = ns, bq_arch = ar\<rparr> } of
                      None \<Rightarrow> (fail EC_MalformedFrame ''truncated build request'', rid)
                    | Some msg \<Rightarrow> (Inr msg, rid)))"

record BuildResponseMsg =
  bp_rid :: RequestId
  bp_id :: ArtifactId
  bp_gen :: ArtifactGeneration
  bp_error_code :: u32
  bp_error :: string

definition BuildResponseMsg_new :: BuildResponseMsg where
  "BuildResponseMsg_new = \<lparr>bp_rid = default_id, bp_id = default_id, bp_gen = 0, bp_error_code = 0, bp_error = []\<rparr>"

text \<open>The error code is written as one byte.\<close>

definition encode_build_response :: "BuildResponseMsg \<Rightarrow> bytes" where
  "encode_build_response m =
     (let out = append_id [] (bp_rid m);
          out = append_id out (bp_id m);
          out = push_be_u64 out (bp_gen m);
          out = out @ [ucast (bp_error_code m AND 0xff)]
      in append_text out (bp_error m))"

text \<open>Every output parameter is assigned as soon as it is read; the record holds them after the call.\<close>

definition decode_build_response :: "bytes \<Rightarrow> BuildResponseMsg \<Rightarrow> unit result \<times> BuildResponseMsg" where
  "decode_build_response p out =
     (let dead = fail EC_MalformedFrame ''truncated build response''
      in case r_id p of None \<Rightarrow> (dead, out)
         | Some (rid, r) \<Rightarrow>
           let out = out\<lparr>bp_rid := rid\<rparr> in case r_id r of None \<Rightarrow> (dead, out)
         | Some (i, r) \<Rightarrow>
           let out = out\<lparr>bp_id := i\<rparr> in case r_u64 r of None \<Rightarrow> (dead, out)
         | Some (g, r) \<Rightarrow>
           let out = out\<lparr>bp_gen := g\<rparr> in case r_u8 r of None \<Rightarrow> (dead, out)
         | Some (c, r) \<Rightarrow>
           let out = out\<lparr>bp_error_code := ucast c\<rparr> in case r_str r of None \<Rightarrow> (dead, out)
         | Some (e, r) \<Rightarrow> (ok, out\<lparr>bp_error := e\<rparr>))"

record RegisterMsg =
  rg_worker :: WorkerId
  rg_boot :: WorkerBootId
  rg_gen :: CacheGeneration

definition encode_register :: "RegisterMsg \<Rightarrow> bytes" where
  "encode_register m = push_be_u64 (append_id (push_be_u64 [] (rg_worker m)) (rg_boot m)) (rg_gen m)"

definition decode_register :: "bytes \<Rightarrow> RegisterMsg result" where
  "decode_register p =
     (case do { (w, r) \<leftarrow> r_u64 p; (b, r) \<leftarrow> r_id r; (g, r) \<leftarrow> r_u64 r;
                Some \<lparr>rg_worker = w, rg_boot = b, rg_gen = g\<rparr> } of
        None \<Rightarrow> fail EC_MalformedFrame ''truncated register''
      | Some m \<Rightarrow> Inr m)"

record RegisterAckMsg =
  ra_epoch :: CoordinatorEpoch
  ra_worker :: WorkerId
  ra_ok :: u8

definition encode_register_ack :: "RegisterAckMsg \<Rightarrow> bytes" where
  "encode_register_ack m = push_be_u64 (push_be_u64 [] (ra_epoch m)) (ra_worker m) @ [ra_ok m]"

definition decode_register_ack :: "bytes \<Rightarrow> RegisterAckMsg result" where
  "decode_register_ack p =
     (case do { (e, r) \<leftarrow> r_u64 p; (w, r) \<leftarrow> r_u64 r; (b, r) \<leftarrow> r_u8 r;
                Some \<lparr>ra_epoch = e, ra_worker = w, ra_ok = b\<rparr> } of
        None \<Rightarrow> fail EC_MalformedFrame ''truncated register ack''
      | Some m \<Rightarrow> Inr m)"

definition encode_roll_epoch :: "CoordinatorEpoch \<Rightarrow> bytes" where
  "encode_roll_epoch e = push_be_u64 [] e"

definition decode_roll_epoch :: "bytes \<Rightarrow> CoordinatorEpoch result" where
  "decode_roll_epoch p =
     (case r_u64 p of None \<Rightarrow> fail EC_MalformedFrame ''truncated roll-epoch'' | Some (e, r) \<Rightarrow> Inr e)"

definition encode_query_workers :: bytes where
  "encode_query_workers = [0x51, 0x57]"

definition decode_query_workers :: "bytes \<Rightarrow> u64 list result" where
  "decode_query_workers p =
     (if length p < 2 \<or> p ! 0 \<noteq> 0x51 \<or> p ! 1 \<noteq> 0x57 then fail EC_MalformedFrame ''bad query marker'' else Inr [])"

definition encode_query_workers_resp :: "u64 list \<Rightarrow> bytes" where
  "encode_query_workers_resp hs = fold (\<lambda>h out. push_be_u64 out h) hs [0x51, 0x52]"

function r_u64s :: "Reader \<Rightarrow> u64 list option" where
  "r_u64s r =
     (if r = [] then Some []
      else case r_u64 r of
             None \<Rightarrow> None
           | Some (h, r') \<Rightarrow> map_option ((#) h) (r_u64s r'))"
  by pat_completeness auto
termination
  by (relation "measure length") (auto simp: r_u64_def dest: r_acc_length)

declare r_u64s.simps [simp del]

text \<open>\<^verbatim>\<open>||\<close> reads the second marker byte only when the first one is right.\<close>

definition decode_query_workers_resp :: "bytes \<Rightarrow> u64 list result" where
  "decode_query_workers_resp p =
     (case r_u8 p of
        None \<Rightarrow> fail EC_MalformedFrame ''truncated resp''
      | Some (a, r) \<Rightarrow>
          if a \<noteq> 0x51 then fail EC_MalformedFrame ''bad resp marker''
          else case r_u8 r of
                 None \<Rightarrow> fail EC_MalformedFrame ''truncated resp''
               | Some (b, r) \<Rightarrow>
                   if b \<noteq> 0x52 then fail EC_MalformedFrame ''bad resp marker''
                   else case r_u64s r of
                          None \<Rightarrow> fail EC_MalformedFrame ''truncated resp''
                        | Some hs \<Rightarrow> Inr hs)"


subsection \<open>The contract of a message codec\<close>

text \<open>
  What sender and receiver rely on: whatever fits into a frame is decoded to what was encoded.
  \<^verbatim>\<open>valid\<close> is the range of values the encoding can carry.
\<close>

definition fits_frame :: "bytes \<Rightarrow> bool" where
  "fits_frame p \<longleftrightarrow> length p + 8 \<le> kDistMaxFrameBytes"

definition receive :: "(bytes \<Rightarrow> 'a result) \<Rightarrow> bytes \<Rightarrow> (DistMsgType \<times> 'a) result" where
  "receive dec f =
     (case decode_frame f of
        Inl e \<Rightarrow> Inl e
      | Inr (t, p) \<Rightarrow> (case dec p of Inl e \<Rightarrow> Inl e | Inr m \<Rightarrow> Inr (t, m)))"

locale codec =
  fixes valid :: "'a \<Rightarrow> bool" and enc :: "'a \<Rightarrow> bytes" and dec :: "bytes \<Rightarrow> 'a result"
  assumes round_trip: "valid m \<Longrightarrow> fits_frame (enc m) \<Longrightarrow> dec (enc m) = Inr m"
begin

lemma encoding_unique:
  "valid m \<Longrightarrow> valid n \<Longrightarrow> fits_frame (enc m) \<Longrightarrow> enc m = enc n \<longleftrightarrow> m = n"
  by (metis round_trip sum.inject(2))

lemma delivered:
  "valid m \<Longrightarrow> fits_frame (enc m) \<Longrightarrow> receive dec (encode_frame t (enc m)) = Inr (t, m)"
  using decode_encode_frame [of "enc m" t] round_trip [of m] by (simp add: receive_def fits_frame_def)

end

definition dec_lookup_request :: "bytes \<Rightarrow> LookupRequestMsg result" where
  "dec_lookup_request p = fst (decode_lookup_request p default_id)"

definition dec_build_request :: "bytes \<Rightarrow> BuildRequestMsg result" where
  "dec_build_request p = fst (decode_build_request p default_id)"

definition dec_build_response :: "bytes \<Rightarrow> BuildResponseMsg result" where
  "dec_build_response p =
     (case decode_build_response p BuildResponseMsg_new of (Inl e, _) \<Rightarrow> Inl e | (Inr _, m) \<Rightarrow> Inr m)"

lemma fits_frame_bound: "fits_frame p \<Longrightarrow> length p < 2 ^ 64"
  by (simp add: fits_frame_def kDistMaxFrameBytes_def)

lemma length_enc [simp]: "length (enc_blob b) = 8 + length b" "length (enc_str s) = 8 + length s"
  by (simp_all add: enc_blob_def enc_str_def)

text \<open>A message ends with its last field.\<close>

lemma r_end:
  "length s < 2 ^ 64 \<Longrightarrow> r_str (enc_str s) = Some (s, [])" "r_u64 (be_bytes 8 v) = Some (v, [])"
  using r_str_append [of s "[]"] r_u64_append [of v "[]"] by simp_all

lemma lookup_request_rid:
  "decode_lookup_request (encode_lookup_request m) rid0 = (Inr m, lq_rid m)"
  if "fits_frame (encode_lookup_request m)"
proof -
  have "length (lq_operation m) < 2 ^ 64" "length (lq_key m) < 2 ^ 64" "length (lq_namespace m) < 2 ^ 64"
    using fits_frame_bound [OF that] by (simp_all add: encode_lookup_request_def enc_simps Let_def)
  then show ?thesis
    by (simp add: decode_lookup_request_def encode_lookup_request_def enc_simps dec_simps Let_def)
qed

lemma build_request_rid:
  "decode_build_request (encode_build_request m) rid0 = (Inr m, bq_rid m)"
  if "fits_frame (encode_build_request m)"
proof -
  have "length (bq_key m) < 2 ^ 64" "length (bq_source m) < 2 ^ 64" "length (bq_namespace m) < 2 ^ 64"
    "length (bq_arch m) < 2 ^ 64"
    using fits_frame_bound [OF that] by (simp_all add: encode_build_request_def enc_simps Let_def)
  then show ?thesis
    by (simp add: decode_build_request_def encode_build_request_def enc_simps dec_simps r_end Let_def)
qed

lemma error_byte: "c < 256 \<Longrightarrow> ucast (ucast (c AND 0xff :: u32) :: u8) = c"
proof -
  assume "c < 256"
  then have "take_bit 8 c = c" by (simp add: take_bit_eq_mod mod_word_less)
  moreover have "ucast (ucast (c AND 0xff) :: u8) = take_bit 8 c"
    by (rule bit_word_eqI) (auto simp: bit_simps and_ff_take_bit)
  ultimately show ?thesis by simp
qed

lemma build_response_round:
  "bp_error_code m < 256 \<Longrightarrow> fits_frame (encode_build_response m) \<Longrightarrow>
    decode_build_response (encode_build_response m) out = (ok, m)"
proof -
  assume c: "bp_error_code m < 256" and f: "fits_frame (encode_build_response m)"
  have "length (bp_error m) < 2 ^ 64"
    using fits_frame_bound [OF f] by (simp add: encode_build_response_def enc_simps Let_def)
  then show ?thesis
    using c by (simp add: decode_build_response_def encode_build_response_def enc_simps dec_simps r_end error_byte Let_def)
qed

lemma r_u64s_round: "r_u64s (concat (map (be_bytes 8) hs)) = Some hs"
proof (induction hs)
  case (Cons h hs)
  have "be_bytes 8 h \<noteq> []" by (metis length_be_bytes list.size(3) zero_neq_numeral)
  then show ?case using Cons by (simp add: r_u64s.simps [of "be_bytes 8 h @ _"] dec_simps)
qed (simp add: r_u64s.simps)

interpretation lookup_request: codec "\<lambda>m. True" encode_lookup_request dec_lookup_request
  by unfold_locales (simp add: dec_lookup_request_def lookup_request_rid)

interpretation lookup_response: codec "\<lambda>m. True" encode_lookup_response decode_lookup_response
  by unfold_locales
    (simp add: encode_lookup_response_def decode_lookup_response_def enc_simps dec_simps r_end Let_def)

interpretation build_request: codec "\<lambda>m. True" encode_build_request dec_build_request
  by unfold_locales (simp add: dec_build_request_def build_request_rid)

interpretation build_response: codec "\<lambda>m. bp_error_code m < 256" encode_build_response dec_build_response
  by unfold_locales (simp add: dec_build_response_def build_response_round)

interpretation register: codec "\<lambda>m. True" encode_register decode_register
  by unfold_locales (simp add: encode_register_def decode_register_def enc_simps dec_simps r_end)

interpretation register_ack: codec "\<lambda>m. True" encode_register_ack decode_register_ack
  by unfold_locales (simp add: encode_register_ack_def decode_register_ack_def enc_simps dec_simps)

interpretation roll_epoch: codec "\<lambda>m. True" encode_roll_epoch decode_roll_epoch
  by unfold_locales (simp add: encode_roll_epoch_def decode_roll_epoch_def enc_simps r_end)

interpretation query_workers_resp: codec "\<lambda>m. True" encode_query_workers_resp decode_query_workers_resp
proof unfold_locales
  fix hs
  have "encode_query_workers_resp hs = [0x51, 0x52] @ concat (map (be_bytes 8) hs)"
    unfolding encode_query_workers_resp_def by (rule fold_append_eq) (rule push_be_u64_eq)
  then show "decode_query_workers_resp (encode_query_workers_resp hs) = Inr hs"
    by (simp add: decode_query_workers_resp_def dec_simps r_u64s_round)
qed

subsection \<open>Properties\<close>

text \<open>
  The frame decoder is strict: it accepts a byte string if and only if it is the encoding of
  that very message type and payload, within the size limit. Truncated, padded, oversized,
  wrong-version and unknown-type frames are all refused.
\<close>

theorem frame_strict:
  "decode_frame f = Inr (t, p) \<longleftrightarrow> f = encode_frame t p \<and> length p + 8 \<le> kDistMaxFrameBytes"
  using decode_frame_Inr decode_encode_frame by blast

text \<open>
  C30. Every message the protocol exchanges arrives as it was sent: framing and decoding the encoding
  of a message that fits a frame gives its type and all its fields.
\<close>

theorem messages_delivered:
  assumes "fits_frame (encode_lookup_request lq)" and "fits_frame (encode_build_request bq)"
    and "fits_frame (encode_build_response bp)" and "bp_error_code bp < 256"
    and "fits_frame (encode_query_workers_resp hs)"
  shows "receive dec_lookup_request (encode_frame LookupReq (encode_lookup_request lq)) = Inr (LookupReq, lq) \<and>
    receive decode_lookup_response (encode_frame LookupResp (encode_lookup_response lp)) = Inr (LookupResp, lp) \<and>
    receive dec_build_request (encode_frame BuildReq (encode_build_request bq)) = Inr (BuildReq, bq) \<and>
    receive dec_build_response (encode_frame BuildResp (encode_build_response bp)) = Inr (BuildResp, bp) \<and>
    receive decode_register (encode_frame Register_W (encode_register rg)) = Inr (Register_W, rg) \<and>
    receive decode_register_ack (encode_frame RegisterAck_C (encode_register_ack ra)) = Inr (RegisterAck_C, ra) \<and>
    receive decode_roll_epoch (encode_frame RollEpoch (encode_roll_epoch e)) = Inr (RollEpoch, e) \<and>
    receive decode_query_workers_resp (encode_frame QueryWorkersResp (encode_query_workers_resp hs))
      = Inr (QueryWorkersResp, hs)"
proof -
  have "fits_frame (encode_lookup_response lp)" "fits_frame (encode_register rg)"
    "fits_frame (encode_register_ack ra)" "fits_frame (encode_roll_epoch e)"
    by (simp_all add: fits_frame_def kDistMaxFrameBytes_def encode_lookup_response_def encode_register_def
        encode_register_ack_def encode_roll_epoch_def enc_simps enc_id_def Let_def)
  then show ?thesis
    using assms
    by (simp add: lookup_request.delivered lookup_response.delivered build_request.delivered
        build_response.delivered register.delivered register_ack.delivered roll_epoch.delivered
        query_workers_resp.delivered)
qed

definition sample_lookup :: LookupRequestMsg where
  "sample_lookup = \<lparr>lq_auth = DistAuthority_new\<lparr>au_epoch := 2, au_cache_gen := 2\<rparr>, lq_rid = mk_id 5 6,
     lq_operation = ''matmul'', lq_key = [1, 2], lq_namespace = ''ns'', lq_tier = 3\<rparr>"

definition sample_build :: BuildRequestMsg where
  "sample_build = \<lparr>bq_auth = DistAuthority_new\<lparr>au_epoch := 1, au_boot := mk_id 7 7\<rparr>, bq_rid = mk_id 5 6,
     bq_key = [1, 2], bq_source = ''src'', bq_namespace = ''ns'', bq_arch = ''cpu''\<rparr>"

lemma sample_messages_fit:
  "fits_frame (encode_lookup_request sample_lookup)" "fits_frame (encode_build_request sample_build)"
  by (simp_all add: fits_frame_def kDistMaxFrameBytes_def encode_lookup_request_def encode_build_request_def
      sample_lookup_def sample_build_def enc_simps enc_id_def enc_authority_def Let_def)

theorem messages_delivered_witness:
  "receive dec_lookup_request (encode_frame LookupReq (encode_lookup_request sample_lookup)) = Inr (LookupReq, sample_lookup) \<and>
    receive dec_build_request (encode_frame BuildReq (encode_build_request sample_build)) = Inr (BuildReq, sample_build)"
proof -
  have "fits_frame (encode_build_response BuildResponseMsg_new)" "bp_error_code BuildResponseMsg_new < 256"
    "fits_frame (encode_query_workers_resp [7])"
    by (simp_all add: fits_frame_def kDistMaxFrameBytes_def encode_build_response_def encode_query_workers_resp_def
        BuildResponseMsg_new_def enc_simps enc_id_def Let_def)
  from messages_delivered [OF sample_messages_fit this] show ?thesis by blast
qed

end
