(* ===== verification/KC_Transport.thy ===== *)
theory KC_Transport
  imports KC_Distributed
begin

text \<open>
  The framed TCP transport (\<^verbatim>\<open>distributed/dist_tcp.hpp\<close>, \<^verbatim>\<open>TcpConnection\<close>). The incoming side of a
  socket is the list of chunks that successive calls of \<^verbatim>\<open>recv\<close> can deliver: TCP keeps the bytes in
  order but cuts them anywhere. An empty chunk or the end of the list is a \<^verbatim>\<open>recv\<close> that returns a
  value \<open>\<le> 0\<close>.
\<close>

type_synonym incoming = "bytes list"

text \<open>The loop of \<^verbatim>\<open>read_exact\<close> asks \<^verbatim>\<open>recv\<close> for what is still missing.\<close>

fun read_exact :: "nat \<Rightarrow> incoming \<Rightarrow> (bytes \<times> incoming) option" where
  "read_exact n cs =
     (if n = 0 then Some ([], cs)
      else case cs of
             [] \<Rightarrow> None
           | c # cs' \<Rightarrow>
               if c = [] then None
               else if length c \<le> n
               then map_option (\<lambda>(b, r). (c @ b, r)) (read_exact (n - length c) cs')
               else Some (take n c, drop n c # cs'))"

declare read_exact.simps [simp del]

definition read_frame :: "incoming \<Rightarrow> ((u16 \<times> bytes) \<times> incoming) option" where
  "read_frame cs =
     (case read_exact 8 cs of
        None \<Rightarrow> None
      | Some (hdr, cs) \<Rightarrow>
          let len = header_len hdr; ver = header_ver hdr; type = header_type hdr
          in if ver \<noteq> 1 then None
             else if len < 8 \<or> unat len > kDistMaxFrameBytes then None
             else let plen = unat len - 8
                  in if plen > 0
                     then (case read_exact plen cs of None \<Rightarrow> None | Some (p, cs) \<Rightarrow> Some ((type, p), cs))
                     else Some ((type, []), cs))"

text \<open>The bytes that \<^verbatim>\<open>write_frame\<close> hands to \<^verbatim>\<open>send\<close>.\<close>

definition write_frame :: "u16 \<Rightarrow> bytes \<Rightarrow> bytes" where
  "write_frame type payload =
     (let len = 8 + (word_of_nat (length payload) :: u32)
      in [ucast (drop_bit 24 len AND 0xff), ucast (drop_bit 16 len AND 0xff),
          ucast (drop_bit 8 len AND 0xff), ucast (len AND 0xff), 0, 1,
          ucast (drop_bit 8 type AND 0xff), ucast (type AND 0xff)] @ payload)"

lemma read_exact_concat:
  "[] \<notin> set cs \<Longrightarrow> n \<le> length (concat cs) \<Longrightarrow>
    \<exists>cs'. read_exact n cs = Some (take n (concat cs), cs') \<and> concat cs' = drop n (concat cs) \<and> [] \<notin> set cs'"
proof (induction n cs rule: read_exact.induct)
  case (1 n cs)
  show ?case
  proof (cases "n = 0")
    case True
    then show ?thesis using "1.prems" by (simp add: read_exact.simps)
  next
    case n: False
    then obtain c cs' where cs: "cs = c # cs'" using "1.prems" by (cases cs) auto
    then have c: "c \<noteq> []" "[] \<notin> set cs'" using "1.prems" by auto
    show ?thesis
    proof (cases "length c \<le> n")
      case True
      with 1 n cs c obtain r where
        "read_exact (n - length c) cs' = Some (take (n - length c) (concat cs'), r)"
        "concat r = drop (n - length c) (concat cs')" "[] \<notin> set r"
        by fastforce
      then show ?thesis using n cs c True by (simp add: read_exact.simps [of n])
    next
      case False
      then show ?thesis using n cs c by (simp add: read_exact.simps [of n])
    qed
  qed
qed

lemma read_exact_short:
  "length (concat cs) < n \<Longrightarrow> read_exact n cs = None"
proof (induction n cs rule: read_exact.induct)
  case (1 n cs)
  then show ?case by (auto simp: read_exact.simps [of n] split: list.splits)
qed

lemma write_frame_eq:
  "write_frame t p = be_bytes 4 (8 + word_of_nat (length p) :: u32) @ be_bytes 2 (1 :: u16) @ be_bytes 2 t @ p"
  by (simp add: write_frame_def Let_def be_bytes_def upt_rec)

lemma read_write_frame:
  assumes chunks: "[] \<notin> set cs" and wire: "concat cs = write_frame t p @ rest" and fit: "fits_frame p"
  shows "\<exists>cs'. read_frame cs = Some ((t, p), cs') \<and> concat cs' = rest \<and> [] \<notin> set cs'"
proof -
  have len: "unat (8 + word_of_nat (length p) :: u32) = 8 + length p"
  proof -
    have "unat (word_of_nat (8 + length p) :: u32) = 8 + length p"
      by (simp only: unat_of_nat) (use fit in \<open>simp add: fits_frame_def kDistMaxFrameBytes_def\<close>)
    then show ?thesis by simp
  qed
  have w: "write_frame t p @ rest = take 8 (write_frame t p) @ p @ rest" "length (take 8 (write_frame t p)) = 8"
    by (simp_all add: write_frame_eq)
  have "8 \<le> length (concat cs)" using wire w by simp
  from read_exact_concat [OF chunks this] obtain c1 where
    c1: "read_exact 8 cs = Some (take 8 (write_frame t p), c1)" "concat c1 = p @ rest" "[] \<notin> set c1"
    using wire w by auto
  have h: "header_len (take 8 (write_frame t p)) = 8 + word_of_nat (length p)"
    "header_ver (take 8 (write_frame t p)) = 1" "header_type (take 8 (write_frame t p)) = t"
    by (simp_all add: write_frame_eq header_len_def header_ver_def header_type_def)
  have ok: "\<not> (8 + word_of_nat (length p) :: u32) < 8" using len by (simp add: word_less_nat_alt)
  obtain c2 where c2: "read_exact (length p) c1 = Some (p, c2)" "concat c2 = rest" "[] \<notin> set c2"
    using read_exact_concat [OF c1(3), of "length p"] c1(2) by auto
  show ?thesis
  proof (cases "p = []")
    case True
    then show ?thesis using c1 h ok len fit by (auto simp: read_frame_def fits_frame_def Let_def)
  next
    case False
    then show ?thesis using c1 c2 h ok len fit by (auto simp: read_frame_def fits_frame_def Let_def)
  qed
qed

text \<open>A conversation: frames written one after the other are read back one after the other.\<close>

fun read_frames :: "nat \<Rightarrow> incoming \<Rightarrow> (u16 \<times> bytes) list" where
  "read_frames 0 cs = []"
| "read_frames (Suc n) cs =
     (case read_frame cs of None \<Rightarrow> [] | Some (m, cs') \<Rightarrow> m # read_frames n cs')"

lemma read_frames_written:
  "[] \<notin> set cs \<Longrightarrow> concat cs = concat (map (\<lambda>(t, p). write_frame t p) ms) @ rest \<Longrightarrow>
    \<forall>(t, p) \<in> set ms. fits_frame p \<Longrightarrow> read_frames (length ms) cs = ms"
proof (induction ms arbitrary: cs)
  case (Cons m ms)
  obtain t p where m: "m = (t, p)" by (cases m)
  from Cons.prems m obtain cs' where "read_frame cs = Some ((t, p), cs')"
    "concat cs' = concat (map (\<lambda>(t, p). write_frame t p) ms) @ rest" "[] \<notin> set cs'"
    using read_write_frame [of cs t p "concat (map (\<lambda>(t, p). write_frame t p) ms) @ rest"] by auto
  with Cons m show ?case by auto
qed simp

lemma write_frame_encode: "length p < 2 ^ 32 - 8 \<Longrightarrow> write_frame (msg_type_value t) p = encode_frame t p"
  by (simp add: write_frame_eq header_encode)

subsection \<open>Properties\<close>

text \<open>
  However TCP cuts the byte stream into chunks, a reader of \<^verbatim>\<open>read_frame\<close> sees exactly the
  sequence of frames that \<^verbatim>\<open>write_frame\<close> wrote, each with its type and payload, as long as no
  payload exceeds the frame limit.
\<close>

theorem frames_survive_segmentation:
  assumes "[] \<notin> set cs" and "concat cs = concat (map (\<lambda>(t, p). write_frame t p) ms)"
    and "\<forall>(t, p) \<in> set ms. fits_frame p"
  shows "read_frames (length ms) cs = ms"
  using assms by (intro read_frames_written [where rest = "[]"]) simp_all

theorem frames_survive_segmentation_witness:
  "read_frames (length [(10 :: u16, [7 :: u8]), (13, [])]) [[0, 0, 0, 9, 0], [1, 0, 10, 7, 0, 0, 0], [8, 0, 1, 0, 13]]
     = [(10, [7]), (13, [])]"
proof (rule frames_survive_segmentation)
  show "concat [[0, 0, 0, 9, 0], [1, 0, 10, 7, 0, 0, 0], [8, 0, 1, 0, 13]]
      = concat (map (\<lambda>(t, p). write_frame t p) [(10, [7]), (13, [])])" by code_simp
qed (simp_all add: fits_frame_def kDistMaxFrameBytes_def)

end
