(* ===== verification/KC_Coordinator.thy ===== *)
theory KC_Coordinator
  imports KC_Manage KC_Transport KC_Samples
begin

text \<open>
  The coordinator and worker processes (\<^verbatim>\<open>distributed/coordinator.cpp\<close>, \<^verbatim>\<open>distributed/worker.cpp\<close>): what
  each does with one message. A connection to a worker is a parameter \<open>ask\<close>: the frame the socket
  delivers after a build request was written to it, or nothing when writing or reading fails.
\<close>

subsection \<open>Coordinator\<close>

record WorkerSlot =
  ws_fd :: "nat option"
  ws_id :: WorkerId
  ws_boot :: WorkerBootId

record 'p Coordinator =
  g_workers :: "WorkerSlot list"
  g_epoch :: u64
  g_gen :: u64
  g_cache :: "'p Impl"
  g_pending :: "string list"
  g_built :: "(string \<times> ArtifactId \<times> ArtifactGeneration) list"

type_synonym worker_link = "nat \<Rightarrow> bytes \<Rightarrow> (u16 \<times> bytes) option"

text \<open>The socket \<^verbatim>\<open>dispatch_build\<close> writes to: the worker of the given boot, else any worker.\<close>

definition pick_worker :: "WorkerBootId \<Rightarrow> WorkerSlot list \<Rightarrow> nat option" where
  "pick_worker boot ws =
     (case find (\<lambda>w. ws_fd w \<noteq> None \<and> ws_boot w = boot) ws of
        Some w \<Rightarrow> ws_fd w
      | None \<Rightarrow> (case find (\<lambda>w. ws_fd w \<noteq> None) ws of Some w \<Rightarrow> ws_fd w | None \<Rightarrow> None))"

text \<open>
  \<^verbatim>\<open>dispatch_build\<close>: the verdict and the output parameters, which the caller has initialised. The
  result of \<^verbatim>\<open>decode_build_response\<close> is not looked at.
\<close>

definition dispatch_build ::
  "worker_link \<Rightarrow> WorkerSlot list \<Rightarrow> BuildRequestMsg \<Rightarrow> bool \<times> BuildResponseMsg" where
  "dispatch_build ask ws m =
     (case pick_worker (au_boot (bq_auth m)) ws of
        None \<Rightarrow> (False, BuildResponseMsg_new\<lparr>bp_error_code := error_code_value EC_NotSupported,
                 bp_error := ''no worker''\<rparr>)
      | Some fd \<Rightarrow>
          (case ask fd (encode_build_request m) of
             None \<Rightarrow> (False, BuildResponseMsg_new)
           | Some (t, pl) \<Rightarrow>
               if t \<noteq> msg_type_value BuildResp then (False, BuildResponseMsg_new)
               else let (_, out) = decode_build_response pl BuildResponseMsg_new
                    in (bp_error_code out = 0, out)))"

definition coordinator_request :: "KernelCompatibilityKey \<Rightarrow> string \<Rightarrow> KernelLookupRequest" where
  "coordinator_request k ns = KernelLookupRequest_new\<lparr>req_key := k,
     req_device := DeviceDescriptor_new\<lparr>dd_vendor := DeviceVendor_CPU\<rparr>, desired_tier := RT_HostResident,
     allow_miss_build := False, req_namespace := ns\<rparr>"

text \<open>The answer to a lookup that passed the authority checks, with the new state.\<close>

definition serve_lookup ::
  "'p Env \<Rightarrow> worker_link \<Rightarrow> LookupRequestMsg \<Rightarrow> KernelCompatibilityKey \<Rightarrow> 'p Coordinator
    \<Rightarrow> (u8 \<times> u8 \<times> ArtifactId \<times> ArtifactGeneration) \<times> 'p Coordinator" where
  "serve_lookup env ask m k c =
     (let (lk, s) = lookup_impl env (coordinator_request k (lq_namespace m)) (g_cache c);
          c = c\<lparr>g_cache := s\<rparr>;
          kh = k_digest_hex k
      in case map_of (g_built c) kh of
           Some (i, g) \<Rightarrow> ((0x00, 1, i, g), c)
         | None \<Rightarrow>
             if (case lk of Inr r \<Rightarrow> is_hit r | Inl _ \<Rightarrow> False)
             then ((0x00, 1, the (lr_artifact (projr lk)), the (lr_generation (projr lk))), c)
             else if kh \<in> set (g_pending c) then
               let (good, out) = dispatch_build ask (g_workers c)
                     \<lparr>bq_auth = lq_auth m, bq_rid = lq_rid m, bq_key = lq_key m, bq_source = [],
                      bq_namespace = lq_namespace m, bq_arch = arch k\<rparr>;
                   c = c\<lparr>g_pending := removeAll kh (g_pending c)\<rparr>
               in if good
                  then ((0x00, 1, bp_id out, bp_gen out),
                        c\<lparr>g_built := AList.update kh (bp_id out, bp_gen out) (g_built c)\<rparr>)
                  else ((0x0F, 0, default_id, 0), c)
             else ((0x0B, 0, default_id, 0), c\<lparr>g_pending := kh # g_pending c\<rparr>))"

definition handle_lookup ::
  "'p Env \<Rightarrow> worker_link \<Rightarrow> bytes \<Rightarrow> 'p Coordinator \<Rightarrow> LookupResponseMsg \<times> 'p Coordinator" where
  "handle_lookup env ask payload c =
     (let (auth, rid) = decode_lookup_request payload default_id;
          ((oc, co, i, g), c) =
            (case auth of
               Inl e \<Rightarrow> ((0x0C, 0, default_id, 0), c)
             | Inr m \<Rightarrow>
                 if au_epoch (lq_auth m) \<noteq> g_epoch c then ((0x0D, 0, default_id, 0), c)
                 else if au_cache_gen (lq_auth m) \<noteq> g_gen c then ((0x0E, 0, default_id, 0), c)
                 else case from_canonical (lq_key m) of
                        Inl e \<Rightarrow> ((0x0C, 0, default_id, 0), c)
                      | Inr k \<Rightarrow> serve_lookup env ask m k c)
      in (\<lparr>lp_rid = rid, lp_outcome = oc, lp_compatible = co, lp_id = i, lp_gen = g\<rparr>, c))"

text \<open>A roll whose payload cannot be decoded sets the epoch to the default 0.\<close>

definition handle_roll_epoch :: "bytes \<Rightarrow> 'p Coordinator \<Rightarrow> (nat \<times> bytes) list \<times> 'p Coordinator" where
  "handle_roll_epoch payload c =
     (let e = (case decode_roll_epoch payload of Inr e \<Rightarrow> e | Inl _ \<Rightarrow> 0);
          frame = write_frame (msg_type_value RollEpoch) (encode_roll_epoch e)
      in (List.map_filter (\<lambda>w. map_option (\<lambda>fd. (fd, frame)) (ws_fd w)) (g_workers c),
          c\<lparr>g_epoch := e, g_gen := e\<rparr>))"

definition handle_query :: "'p Coordinator \<Rightarrow> bytes" where
  "handle_query c =
     encode_query_workers_resp (map (\<lambda>w. id_hi (ws_boot w)) (filter (\<lambda>w. ws_fd w \<noteq> None) (g_workers c)))"

text \<open>\<^verbatim>\<open>handle_conn\<close> for a worker: the new slot and the acknowledgement.\<close>

definition handle_register :: "nat \<Rightarrow> bytes \<Rightarrow> 'p Coordinator \<Rightarrow> bytes option \<times> 'p Coordinator" where
  "handle_register fd payload c =
     (case decode_register payload of
        Inl e \<Rightarrow> (None, c)
      | Inr m \<Rightarrow>
          (Some (encode_register_ack \<lparr>ra_epoch = g_epoch c, ra_worker = rg_worker m, ra_ok = 1\<rparr>),
           c\<lparr>g_workers := g_workers c @ [\<lparr>ws_fd = Some fd, ws_id = rg_worker m, ws_boot = rg_boot m\<rparr>]\<rparr>))"

text \<open>
  One round of \<^verbatim>\<open>serve_client\<close>: the frame sent back if any, the frames broadcast to workers, whether
  the session goes on, and the new state. Other message types are ignored.
\<close>

definition serve_message ::
  "'p Env \<Rightarrow> worker_link \<Rightarrow> u16 \<Rightarrow> bytes \<Rightarrow> 'p Coordinator
    \<Rightarrow> (u16 \<times> bytes) option \<times> (nat \<times> bytes) list \<times> bool \<times> 'p Coordinator" where
  "serve_message env ask t payload c =
     (if t = msg_type_value RollEpoch then
        let (fs, c) = handle_roll_epoch payload c in (None, fs, True, c)
      else if t = msg_type_value LookupReq then
        let (m, c) = handle_lookup env ask payload c
        in (Some (msg_type_value LookupResp, encode_lookup_response m), [], True, c)
      else if t = msg_type_value QueryWorkers then
        (Some (msg_type_value QueryWorkersResp, handle_query c), [], True, c)
      else if t = msg_type_value Shutdown then (None, [], False, c)
      else (None, [], True, c))"

subsection \<open>Worker\<close>

record 'p Worker =
  w_epoch :: u64
  w_boot :: WorkerBootId
  w_cache :: "'p Impl"

definition worker_request :: "KernelCompatibilityKey \<Rightarrow> string \<Rightarrow> string \<Rightarrow> KernelLookupRequest" where
  "worker_request k src ns = KernelLookupRequest_new\<lparr>req_key := k,
     req_device := DeviceDescriptor_new\<lparr>dd_vendor := DeviceVendor_CPU, dd_family := AcceleratorFamily_CPU\<rparr>,
     desired_tier := RT_HostResident, allow_miss_build := True, req_source := src, req_namespace := ns\<rparr>"

text \<open>
  One \<^verbatim>\<open>BuildReq\<close>: the response and the new state; \<^const>\<open>None\<close> when the acquire never returns.
\<close>

definition worker_build ::
  "'p Env \<Rightarrow> bytes \<Rightarrow> 'p Worker \<Rightarrow> (BuildResponseMsg \<times> 'p Worker) option" where
  "worker_build env payload w =
     (let (a, rid) = decode_build_request payload default_id;
          refuse = (\<lambda>c e. Some (\<lparr>bp_rid = rid, bp_id = default_id, bp_gen = 0,
                                 bp_error_code = error_code_value c, bp_error = e\<rparr>, w))
      in case a of
           Inl e \<Rightarrow> refuse EC_MalformedFrame ''malformed build request''
         | Inr m \<Rightarrow>
             if au_epoch (bq_auth m) \<noteq> w_epoch w then refuse EC_EpochMismatch ''stale epoch''
             else if au_boot (bq_auth m) \<noteq> w_boot w then refuse EC_WorkerBootMismatch ''stale worker boot''
             else case from_canonical (bq_key m) of
                    Inl e \<Rightarrow> refuse EC_MalformedFrame ''bad key''
                  | Inr k \<Rightarrow>
                      (case acquire_impl env (worker_request k (bq_source m) (bq_namespace m)) (w_cache w) of
                         None \<Rightarrow> None
                       | Some (Inr l, s) \<Rightarrow>
                           Some (\<lparr>bp_rid = rid, bp_id = lease_artifact_id l, bp_gen = lease_generation l,
                                  bp_error_code = 0, bp_error = []\<rparr>,
                                 w\<lparr>w_cache := snd (lease_release l s)\<rparr>)
                       | Some (Inl e, s) \<Rightarrow>
                           Some (\<lparr>bp_rid = rid, bp_id = default_id, bp_gen = 0,
                                  bp_error_code = error_code_value EC_BuildFailed, bp_error = message e\<rparr>,
                                 w\<lparr>w_cache := s\<rparr>)))"

definition worker_roll :: "bytes \<Rightarrow> 'p Worker \<Rightarrow> 'p Worker" where
  "worker_roll payload w = (case decode_roll_epoch payload of Inr e \<Rightarrow> w\<lparr>w_epoch := e\<rparr> | Inl _ \<Rightarrow> w)"

text \<open>The worker loop for one frame: the frame it answers with, or \<^const>\<open>None\<close> when it exits.\<close>

definition worker_frame ::
  "'p Env \<Rightarrow> u16 \<Rightarrow> bytes \<Rightarrow> 'p Worker \<Rightarrow> ((u16 \<times> bytes) option \<times> 'p Worker) option" where
  "worker_frame env t payload w =
     (if t = msg_type_value RollEpoch then Some (None, worker_roll payload w)
      else if t = msg_type_value Shutdown then None
      else if t \<noteq> msg_type_value BuildReq then Some (None, w)
      else map_option (\<lambda>(m, w). (Some (msg_type_value BuildResp, encode_build_response m), w))
             (worker_build env payload w))"


subsection \<open>Lemmas\<close>

lemma handle_lookup_stale:
  assumes "decode_lookup_request payload default_id = (Inr m, rid)"
    and "au_epoch (lq_auth m) \<noteq> g_epoch c \<or> au_cache_gen (lq_auth m) \<noteq> g_gen c"
  shows "handle_lookup env ask payload c =
    (\<lparr>lp_rid = rid, lp_outcome = (if au_epoch (lq_auth m) \<noteq> g_epoch c then 0x0D else 0x0E), lp_compatible = 0,
      lp_id = default_id, lp_gen = 0\<rparr>, c)"
  using assms by (auto simp: handle_lookup_def)

lemma worker_build_stale:
  assumes "decode_build_request payload default_id = (Inr m, rid)"
    and "au_epoch (bq_auth m) \<noteq> w_epoch w \<or> au_boot (bq_auth m) \<noteq> w_boot w"
  shows "worker_build env payload w =
    Some (\<lparr>bp_rid = rid, bp_id = default_id, bp_gen = 0,
      bp_error_code = error_code_value (if au_epoch (bq_auth m) \<noteq> w_epoch w then EC_EpochMismatch else EC_WorkerBootMismatch),
      bp_error = (if au_epoch (bq_auth m) \<noteq> w_epoch w then ''stale epoch'' else ''stale worker boot'')\<rparr>, w)"
  using assms by (auto simp: worker_build_def)

text \<open>What a worker answers, as the coordinator's link to it.\<close>

definition linked :: "'p Env \<Rightarrow> 'p Worker \<Rightarrow> nat \<Rightarrow> worker_link \<Rightarrow> bool" where
  "linked env w fd ask \<longleftrightarrow>
     (\<forall>req. ask fd req = Option.bind (worker_frame env (msg_type_value BuildReq) req w) fst)"

lemma msg_types_distinct [simp]:
  "msg_type_value BuildReq \<noteq> msg_type_value RollEpoch" "msg_type_value BuildReq \<noteq> msg_type_value Shutdown"
  by simp_all

lemma dispatch_stale:
  assumes fd: "pick_worker (au_boot (bq_auth m)) ws = Some fd" and link: "linked env w fd ask"
    and stale: "au_epoch (bq_auth m) \<noteq> w_epoch w \<or> au_boot (bq_auth m) \<noteq> w_boot w"
    and fit: "fits_frame (encode_build_request m)"
  shows "\<not> fst (dispatch_build ask ws m)"
proof -
  define r where "r = \<lparr>bp_rid = bq_rid m, bp_id = default_id, bp_gen = 0,
      bp_error_code = error_code_value (if au_epoch (bq_auth m) \<noteq> w_epoch w then EC_EpochMismatch else EC_WorkerBootMismatch),
      bp_error = (if au_epoch (bq_auth m) \<noteq> w_epoch w then ''stale epoch'' else ''stale worker boot'')\<rparr>"
  have "worker_build env (encode_build_request m) w = Some (r, w)"
    unfolding r_def using worker_build_stale [OF build_request_rid [OF fit] stale] .
  then have "ask fd (encode_build_request m) = Some (msg_type_value BuildResp, encode_build_response r)"
    using link by (simp add: linked_def worker_frame_def)
  moreover have "decode_build_response (encode_build_response r) BuildResponseMsg_new = (ok, r)"
    by (rule build_response_round)
      (auto simp: r_def fits_frame_def encode_build_response_def enc_simps enc_id_def kDistMaxFrameBytes_def Let_def)
  moreover have "bp_error_code r \<noteq> 0" by (simp add: r_def)
  ultimately show ?thesis using fd by (simp add: dispatch_build_def)
qed

lemma worker_keeps_leases:
  assumes run: "worker_build env payload w = Some (m, w')" and inv: "index_inv (w_cache w)"
    and room: "leases_of i (w_cache w) \<noteq> - 1"
  shows "leases_of i (w_cache w') = leases_of i (w_cache w)"
proof -
  have acq: "leases_of i (snd (lease_release l s)) = leases_of i (w_cache w)"
    if a: "acquire_impl env q (w_cache w) = Some (Inr l, s)" for q l s
  proof -
    obtain st where st: "l = Some st" "\<not> released st"
      "\<forall>j. leases_of j s = leases_of j (w_cache w) + of_bool (j = ls_rec st)"
      using acquire_lease [OF a inv] by (auto simp: hands_out_def)
    obtain l' s' where rel: "lease_release l s = (l', s')" by fastforce
    have "leases_of i (w_cache w) + 1 \<noteq> 0" using room by (simp add: add_eq_0_iff2)
    then show ?thesis
      using leases_release [OF rel, of i] st rel
      by (auto simp: lease_valid_def lease_artifact_id_def word_gt_0)
  qed
  have fail: "leases_of i s = leases_of i (w_cache w)"
    if "acquire_impl env q (w_cache w) = Some (Inl e, s)" for q e s
    using acquire_lease [OF that inv] by (simp add: same_leases_def)
  show ?thesis
    using run acq fail
    by (auto simp: worker_build_def Let_def split: prod.splits sum.splits if_splits option.splits)
qed

text \<open>A response that ends before its error byte.\<close>

lemma r_id_length: "r_id r = Some (i, r') \<Longrightarrow> length r = 16 + length r'"
  by (auto simp: r_id_def r_u64_def dest!: r_acc_length split: bind_splits)

lemma decode_build_response_short:
  assumes "length pl \<le> 40"
  shows "bp_error_code (snd (decode_build_response pl BuildResponseMsg_new)) = 0 \<and>
    fst (decode_build_response pl BuildResponseMsg_new) \<noteq> ok"
  using assms
  by (auto simp: decode_build_response_def BuildResponseMsg_new_def Let_def r_u64_def
      dest!: r_id_length r_acc_length r_u8_length split: option.splits)

lemma read_write_frame_whole: "fits_frame p \<Longrightarrow> read_frame [write_frame t p] = Some ((t, p), [])"
  using read_write_frame [of "[write_frame t p]" t p "[]"]
  by (auto simp: write_frame_def Let_def concat_eq_Nil_conv) (metis list.set_intros(1) neq_Nil_conv)

text \<open>A coordinator at epoch 1 with one worker, booted as 9.9, that builds with the sample backend.\<close>

definition sample_coordinator :: "StoredArtifact list Coordinator" where
  "sample_coordinator = \<lparr>g_workers = [\<lparr>ws_fd = Some 4, ws_id = 1, ws_boot = mk_id 9 9\<rparr>], g_epoch = 1, g_gen = 1,
     g_cache = sample_cache, g_pending = [], g_built = []\<rparr>"

definition sample_worker :: "StoredArtifact list Worker" where
  "sample_worker = \<lparr>w_epoch = 1, w_boot = mk_id 9 9, w_cache = sample_cache\<rparr>"

definition sample_link :: worker_link where
  "sample_link fd req = Option.bind (worker_frame sample_env (msg_type_value BuildReq) req sample_worker) fst"

subsection \<open>Properties\<close>

text \<open>
  C31. Stale authority never reaches a cache: a lookup of another epoch or cache generation is
  answered with the rejection code and leaves the coordinator as it was, and a build request of
  another epoch or worker boot is refused by the worker with its state unchanged.
\<close>

theorem stale_authority_rejected:
  assumes "fits_frame (encode_lookup_request q)"
    and "au_epoch (lq_auth q) \<noteq> g_epoch c \<or> au_cache_gen (lq_auth q) \<noteq> g_gen c"
    and "fits_frame (encode_build_request m)"
    and "au_epoch (bq_auth m) \<noteq> w_epoch w \<or> au_boot (bq_auth m) \<noteq> w_boot w"
  shows "handle_lookup env ask (encode_lookup_request q) c =
      (\<lparr>lp_rid = lq_rid q, lp_outcome = (if au_epoch (lq_auth q) \<noteq> g_epoch c then 0x0D else 0x0E),
        lp_compatible = 0, lp_id = default_id, lp_gen = 0\<rparr>, c) \<and>
    (\<exists>r. worker_build env (encode_build_request m) w = Some (r, w) \<and> bp_rid r = bq_rid m \<and>
      bp_error_code r \<in> {error_code_value EC_EpochMismatch, error_code_value EC_WorkerBootMismatch})"
  using handle_lookup_stale [OF lookup_request_rid [OF assms(1)] assms(2)]
    worker_build_stale [OF build_request_rid [OF assms(3)] assms(4)]
  by auto

theorem stale_authority_rejected_witness:
  "fst (handle_lookup sample_env sample_link (encode_lookup_request sample_lookup) sample_coordinator) =
      \<lparr>lp_rid = mk_id 5 6, lp_outcome = 0x0D, lp_compatible = 0, lp_id = default_id, lp_gen = 0\<rparr> \<and>
    map_option snd (worker_build sample_env (encode_build_request sample_build) sample_worker) = Some sample_worker"
  using stale_authority_rejected [OF sample_messages_fit(1) _ sample_messages_fit(2),
      of sample_coordinator sample_worker sample_env sample_link]
  by (auto simp: sample_lookup_def sample_build_def sample_coordinator_def sample_worker_def DistAuthority_new_def)

text \<open>
  The fallback of \<^verbatim>\<open>dispatch_build\<close> is futile: when the chosen socket leads to a worker whose boot
  or epoch is not the one of the request, that worker refuses and the dispatch fails.
\<close>

theorem dispatch_to_other_boot_fails:
  assumes "pick_worker (au_boot (bq_auth m)) ws = Some fd" and "linked env w fd ask"
    and "au_epoch (bq_auth m) \<noteq> w_epoch w \<or> au_boot (bq_auth m) \<noteq> w_boot w"
    and "fits_frame (encode_build_request m)"
  shows "\<not> fst (dispatch_build ask ws m)"
  using assms by (rule dispatch_stale)

theorem dispatch_to_other_boot_fails_witness:
  "pick_worker (au_boot (bq_auth sample_build)) (g_workers sample_coordinator) = Some 4 \<and>
    \<not> fst (dispatch_build sample_link (g_workers sample_coordinator) sample_build)"
proof -
  have p: "pick_worker (au_boot (bq_auth sample_build)) (g_workers sample_coordinator) = Some 4"
    by (simp add: pick_worker_def sample_build_def sample_coordinator_def)
  have l: "linked sample_env sample_worker 4 sample_link"
    by (simp add: linked_def sample_link_def)
  have "au_boot (bq_auth sample_build) \<noteq> w_boot sample_worker"
    by (simp add: sample_build_def sample_worker_def)
  with dispatch_to_other_boot_fails [OF p l _ sample_messages_fit(2)] p show ?thesis by blast
qed

text \<open>
  The result of \<^verbatim>\<open>decode_build_response\<close> is ignored: a response that breaks off before its error
  byte counts as a successful build.
\<close>

theorem truncated_response_counts_as_success:
  assumes "pick_worker (au_boot (bq_auth m)) ws = Some fd"
    and "ask fd (encode_build_request m) = Some (msg_type_value BuildResp, pl)" and "length pl \<le> 40"
  shows "fst (dispatch_build ask ws m) \<and> fst (decode_build_response pl BuildResponseMsg_new) \<noteq> ok"
  using decode_build_response_short [OF assms(3)] assms(1,2)
  by (auto simp: dispatch_build_def split: prod.splits)

theorem truncated_response_counts_as_success_witness:
  "fst (dispatch_build (\<lambda>fd req. Some (msg_type_value BuildResp, [1, 2, 3])) (g_workers sample_coordinator) sample_build)"
  by (rule conjunct1 [OF truncated_response_counts_as_success [where fd = 4 and pl = "[1, 2, 3]"]])
    (simp_all add: pick_worker_def sample_build_def sample_coordinator_def)

text \<open>
  A worker leaks no lease: whatever a build request makes it do, when it answers, every
  artifact has the number of leases it had before.
\<close>

theorem worker_releases_leases:
  assumes "worker_build env payload w = Some (m, w')" and "index_inv (w_cache w)"
    and "leases_of i (w_cache w) \<noteq> - 1"
  shows "leases_of i (w_cache w') = leases_of i (w_cache w)"
  using assms by (rule worker_keeps_leases)

theorem worker_releases_leases_witness:
  "\<exists>m w'. worker_build sample_env [] sample_worker = Some (m, w') \<and>
    leases_of sample_id (w_cache w') = leases_of sample_id (w_cache sample_worker)"
proof -
  obtain m w' where r: "worker_build sample_env [] sample_worker = Some (m, w')"
    by (simp add: worker_build_def decode_build_request_def r_u8_def)
  have "leases_of sample_id (w_cache sample_worker) \<noteq> - 1" "index_inv (w_cache sample_worker)"
    by (simp_all add: sample_worker_def leases_of_def)
  from worker_releases_leases [OF r this(2,1)] r show ?thesis by blast
qed

text \<open>
  Rolling the epoch fences the old one off everywhere: the coordinator takes the new epoch and
  generation, every connected worker is sent a frame from which it takes the same epoch, and from
  then on both refuse any request of another epoch.
\<close>

theorem roll_epoch_fences:
  assumes "handle_roll_epoch (encode_roll_epoch e) c = (frames, c')"
    and "slot \<in> set (g_workers c)" and "ws_fd slot = Some fd"
  shows "g_epoch c' = e \<and> g_gen c' = e \<and> g_workers c' = g_workers c \<and>
    (\<exists>f. (fd, f) \<in> set frames \<and>
      read_frame [f] = Some ((msg_type_value RollEpoch, encode_roll_epoch e), []) \<and>
      worker_frame env (msg_type_value RollEpoch) (encode_roll_epoch e) w = Some (None, w\<lparr>w_epoch := e\<rparr>))"
proof -
  let ?f = "write_frame (msg_type_value RollEpoch) (encode_roll_epoch e)"
  have fit: "fits_frame (encode_roll_epoch e)"
    by (simp add: fits_frame_def kDistMaxFrameBytes_def encode_roll_epoch_def enc_simps)
  then have dec: "decode_roll_epoch (encode_roll_epoch e) = Inr e" by (rule roll_epoch.round_trip [OF TrueI])
  have "(fd, ?f) \<in> set frames"
    using assms dec by (auto simp: handle_roll_epoch_def Let_def List.map_filter_def image_iff intro!: exI [of _ slot])
  moreover have "read_frame [?f] = Some ((msg_type_value RollEpoch, encode_roll_epoch e), [])"
    using read_write_frame_whole [OF fit] .
  ultimately show ?thesis
    using assms(1) dec by (auto simp: handle_roll_epoch_def worker_frame_def worker_roll_def Let_def)
qed

theorem roll_epoch_fences_witness:
  "g_epoch (snd (handle_roll_epoch (encode_roll_epoch 5) sample_coordinator)) = 5 \<and>
    worker_frame sample_env (msg_type_value RollEpoch) (encode_roll_epoch 5) sample_worker
      = Some (None, sample_worker\<lparr>w_epoch := 5\<rparr>)"
  using roll_epoch_fences [OF prod.collapse [symmetric], of "\<lparr>ws_fd = Some 4, ws_id = 1, ws_boot = mk_id 9 9\<rparr>"
      sample_coordinator 4 5 sample_env sample_worker]
  by (auto simp: sample_coordinator_def)

end
