(* ===== verification/KC_Client.thy ===== *)
theory KC_Client
  imports KC_Cli KC_Coordinator
begin

text \<open>
  The client (\<^verbatim>\<open>distributed/client.cpp\<close>): it asks a coordinator for one kernel over framed TCP and
  reports the outcome. The connection is a parameter: whether it can be opened, and the chunks that
  arrive for the bytes that were sent.
\<close>

definition client_key :: "string \<Rightarrow> i64 \<Rightarrow> KernelCompatibilityKey" where
  "client_key oper sh = finalized (key_fields oper sh)"

definition client_authority :: DistAuthority where
  "client_authority = \<lparr>au_epoch = 1, au_worker = 0, au_boot = default_id, au_cache_gen = 1, au_artifact_gen = 0,
     au_attempt = default_id, au_request = default_id\<rparr>"

definition client_message :: "string \<Rightarrow> i64 \<Rightarrow> LookupRequestMsg" where
  "client_message oper sh = \<lparr>lq_auth = client_authority, lq_rid = mk_id 0x1234 0x5678, lq_operation = oper,
     lq_key = k_canonical (client_key oper sh), lq_namespace = [], lq_tier = 3\<rparr>"

text \<open>\<^verbatim>\<open>%02X\<close> of a byte\<close>

definition show_hex2 :: "u8 \<Rightarrow> string" where
  "show_hex2 b = [''0123456789ABCDEF'' ! (unat b div 16), ''0123456789ABCDEF'' ! (unat b mod 16)]"

definition client_main ::
  "(string \<Rightarrow> u16 \<Rightarrow> bool) \<Rightarrow> (bytes \<Rightarrow> incoming) \<Rightarrow> string list \<Rightarrow> string \<times> string \<times> int" where
  "client_main connect wire argv =
     (if length argv < 4 then ([], line ''usage: client <host> <port> <operation> [shape]'', 2)
      else
        let host = argv ! 1; port = ucast (atoi (argv ! 2)); oper = argv ! 3;
            sh = (if length argv > 4 then atoll (argv ! 4) else 1024)
        in if \<not> connect host port then ([], line ''client: connect failed'', 1)
           else case read_frame (wire (write_frame (msg_type_value LookupReq) (encode_lookup_request (client_message oper sh)))) of
                  None \<Rightarrow> ([], line ''client: no response'', 1)
                | Some ((t, pl), _) \<Rightarrow>
                    if t \<noteq> msg_type_value LookupResp then ([], line ''client: no response'', 1)
                    else case decode_lookup_response pl of
                           Inl _ \<Rightarrow> ([], line ''client: bad resp'', 1)
                         | Inr m \<Rightarrow> (line (''client: outcome=0x'' @ show_hex2 (lp_outcome m) @ '' op='' @ oper
                               @ '' id='' @ str (lp_id m) @ '' gen='' @ show_word (lp_gen m)),
                             [], if lp_outcome m = 0 then 0 else 1))"

subsection \<open>The client and a coordinator\<close>

text \<open>
  A coordinator at the other end: it reads the frame from the chunks it gets and answers; both
  directions are cut into chunks anywhere.
\<close>

definition coordinator_wire ::
  "'p Env \<Rightarrow> worker_link \<Rightarrow> (bytes \<Rightarrow> incoming) \<Rightarrow> (bytes \<Rightarrow> incoming) \<Rightarrow> 'p Coordinator \<Rightarrow> bytes \<Rightarrow> incoming" where
  "coordinator_wire env ask there back c sent =
     (case read_frame (there sent) of
        None \<Rightarrow> []
      | Some ((t, pl), _) \<Rightarrow>
          (case fst (serve_message env ask t pl c) of None \<Rightarrow> [] | Some (t, pl) \<Rightarrow> back (write_frame t pl)))"

definition tcp_cut :: "(bytes \<Rightarrow> incoming) \<Rightarrow> bool" where
  "tcp_cut seg \<longleftrightarrow> (\<forall>b. concat (seg b) = b \<and> [] \<notin> set (seg b))"

lemma client_key_finalize: "finalize (client_key oper sh) = (True, client_key oper sh)"
  using make_key_finalize by (simp add: client_key_def make_key_def)

lemma read_cut: "tcp_cut seg \<Longrightarrow> fits_frame p \<Longrightarrow> \<exists>r. read_frame (seg (write_frame t p)) = Some ((t, p), r)"
  using read_write_frame [of "seg (write_frame t p)" t p "[]"] by (auto simp: tcp_cut_def)

lemma length_lookup_response: "length (encode_lookup_response m) = 42"
  by (simp add: encode_lookup_response_def append_id_def push_be_u64_def Let_def)

lemma fits_lookup_response: "fits_frame (encode_lookup_response m)"
  by (simp add: fits_frame_def length_lookup_response kDistMaxFrameBytes_def)

lemma client_asks:
  assumes "tcp_cut there" "tcp_cut back" "fits_frame (encode_lookup_request (client_message oper sh))"
    and "handle_lookup env ask (encode_lookup_request (client_message oper sh)) c = (m, c')"
    and "sh = (case rest of [] \<Rightarrow> 1024 | x # _ \<Rightarrow> atoll x)"
  shows "client_main (\<lambda>h p. True) (coordinator_wire env ask there back c) (prog # host # port # oper # rest) =
    (line (''client: outcome=0x'' @ show_hex2 (lp_outcome m) @ '' op='' @ oper @ '' id='' @ str (lp_id m)
       @ '' gen='' @ show_word (lp_gen m)), [], if lp_outcome m = 0 then 0 else 1)"
proof -
  let ?p = "encode_lookup_request (client_message oper sh)"
  have t: "msg_type_value LookupReq \<noteq> msg_type_value RollEpoch" by simp
  obtain r where r: "read_frame (there (write_frame (msg_type_value LookupReq) ?p)) = Some ((msg_type_value LookupReq, ?p), r)"
    using read_cut [OF assms(1,3)] by blast
  obtain r' where r': "read_frame (back (write_frame (msg_type_value LookupResp) (encode_lookup_response m))) =
      Some ((msg_type_value LookupResp, encode_lookup_response m), r')"
    using read_cut [OF assms(2) fits_lookup_response] by blast
  have "serve_message env ask (msg_type_value LookupReq) ?p c =
      (Some (msg_type_value LookupResp, encode_lookup_response m), [], True, c')"
    using assms(4) by (simp add: serve_message_def t)
  then have w: "coordinator_wire env ask there back c (write_frame (msg_type_value LookupReq) ?p) =
      back (write_frame (msg_type_value LookupResp) (encode_lookup_response m))"
    using r by (simp add: coordinator_wire_def)
  have sh: "(if length (prog # host # port # oper # rest) > 4 then atoll ((prog # host # port # oper # rest) ! 4) else 1024) = sh"
    using assms(5) by (cases rest) simp_all
  show ?thesis
    unfolding client_main_def Let_def sh
    using lookup_response.round_trip [of m] fits_lookup_response w r' by simp
qed


lemma client_message_sel:
  "lq_auth (client_message oper sh) = client_authority" "lq_key (client_message oper sh) = k_canonical (client_key oper sh)"
  "lq_rid (client_message oper sh) = mk_id 0x1234 0x5678" "lq_namespace (client_message oper sh) = []"
  by (simp_all add: client_message_def)

lemma client_authority_sel: "au_epoch client_authority = 1" "au_cache_gen client_authority = 1" "au_boot client_authority = default_id"
  by (simp_all add: client_authority_def)

lemma client_key_decodes:
  assumes "fits_frame (encode_lookup_request (client_message oper sh))"
  shows "from_canonical (k_canonical (client_key oper sh)) = Inr (client_key oper sh)"
proof (rule from_canonical_finalized)
  have "length oper < 2 ^ 64"
    using fits_frame_bound [OF assms] by (simp add: encode_lookup_request_def client_message_def enc_simps Let_def)
  then show "key_wf (key_fields oper sh)" by (simp add: key_wf_def key_fields_def KernelCompatibilityKey_new_def)
  show "finalize (key_fields oper sh) = (True, client_key oper sh)"
    using key_fields_structure by (simp add: client_key_def finalize_eq)
qed

lemma handle_client:
  assumes "fits_frame (encode_lookup_request (client_message oper sh))" "g_epoch c = 1" "g_gen c = 1"
    and "serve_lookup env ask (client_message oper sh) (client_key oper sh) c = ((oc, co, i, g), c')"
  shows "handle_lookup env ask (encode_lookup_request (client_message oper sh)) c =
    (\<lparr>lp_rid = mk_id 0x1234 0x5678, lp_outcome = oc, lp_compatible = co, lp_id = i, lp_gen = g\<rparr>, c')"
  using assms client_key_decodes [OF assms(1)] lookup_request_rid [OF assms(1), of default_id]
  by (simp add: handle_lookup_def client_message_sel client_authority_sel)

text \<open>Clients that come one after the other, each with a new connection: their exit codes.\<close>

primrec client_codes ::
  "'p Env \<Rightarrow> worker_link \<Rightarrow> (bytes \<Rightarrow> incoming) \<Rightarrow> (bytes \<Rightarrow> incoming) \<Rightarrow> string list \<Rightarrow> nat \<Rightarrow> 'p Coordinator \<Rightarrow> int list" where
  "client_codes env ask there back argv 0 c = []"
| "client_codes env ask there back argv (Suc n) c =
     (let sh = (if length argv > 4 then atoll (argv ! 4) else 1024);
          (_, _, code) = client_main (\<lambda>h p. True) (coordinator_wire env ask there back c) argv;
          (_, c) = handle_lookup env ask (encode_lookup_request (client_message (argv ! 3) sh)) c
      in code # client_codes env ask there back argv n c)"

text \<open>A coordinator at epoch 1 whose own cache is empty and that has not had the key built.\<close>

definition unserved :: "KernelCompatibilityKey \<Rightarrow> 'p Coordinator \<Rightarrow> bool" where
  "unserved k c \<longleftrightarrow> g_epoch c = 1 \<and> g_gen c = 1 \<and> map_of (g_built c) (k_digest_hex k) = None \<and>
     by_id (g_cache c) = [] \<and> by_key (g_cache c) = [] \<and> by_operation (g_cache c) = []"

lemma empty_lookup:
  assumes "by_id s = []" "by_key s = []" "by_operation s = []" "lookup_impl env q s = (res, s')"
  shows "\<not> (case res of Inr r \<Rightarrow> is_hit r | Inl _ \<Rightarrow> False) \<and> by_id s' = [] \<and> by_key s' = [] \<and> by_operation s' = []"
proof -
  have "collect_candidates k (s\<lparr>ticks := t\<rparr>) = []" for k t
    using assms(1-3) by (simp add: collect_candidates_def ids_of_def Let_def)
  moreover have "same_records s s'" using lookup_frame [OF assms(4)] ..
  ultimately show ?thesis using assms
    by (auto simp: lookup_impl_def now_ns_def Let_def compatible_candidates_def lookup_miss_def is_hit_def same_records_def
        KernelLookupResult_new_def split: if_splits)
qed

definition client_build :: "string \<Rightarrow> i64 \<Rightarrow> BuildRequestMsg" where
  "client_build oper sh = \<lparr>bq_auth = client_authority, bq_rid = mk_id 0x1234 0x5678,
     bq_key = k_canonical (client_key oper sh), bq_source = [], bq_namespace = [], bq_arch = arch (client_key oper sh)\<rparr>"

lemma client_dispatch_fails:
  assumes "\<forall>fd. \<exists>w. linked env w fd ask \<and> w_boot w \<noteq> default_id" "fits_frame (encode_build_request (client_build oper sh))"
  shows "\<not> fst (dispatch_build ask ws (client_build oper sh))"
proof (cases "pick_worker default_id ws")
  case None
  then show ?thesis by (simp add: dispatch_build_def client_build_def client_authority_sel)
next
  case (Some fd)
  obtain w where "linked env w fd ask" "w_boot w \<noteq> default_id" using assms(1) by blast
  with Some show ?thesis
    by (intro dispatch_stale [OF _ _ _ assms(2)]) (auto simp: client_build_def client_authority_sel)
qed

lemma unserved_step:
  assumes u: "unserved (client_key oper sh) c" and w: "\<forall>fd. \<exists>w. linked env w fd ask \<and> w_boot w \<noteq> default_id"
    and f: "fits_frame (encode_lookup_request (client_message oper sh))" "fits_frame (encode_build_request (client_build oper sh))"
    and h: "handle_lookup env ask (encode_lookup_request (client_message oper sh)) c = (m, c')"
  shows "lp_outcome m \<noteq> 0 \<and> unserved (client_key oper sh) c'"
proof -
  let ?k = "client_key oper sh" and ?m = "client_message oper sh"
  obtain lk s where l: "lookup_impl env (coordinator_request ?k []) (g_cache c) = (lk, s)" by fastforce
  note e = empty_lookup [OF _ _ _ l]
  have d: "\<not> fst (dispatch_build ask ws (client_build oper sh))" for ws using client_dispatch_fails [OF w f(2)] .
  obtain oc co i g c2 where s: "serve_lookup env ask ?m ?k c = ((oc, co, i, g), c2)" by (metis surj_pair)
  have "oc \<noteq> 0 \<and> unserved ?k c2"
    using s u e d [of "g_workers c"] by (auto simp: serve_lookup_def unserved_def client_message_sel l Let_def client_build_def
        split: prod.splits if_splits)
  then show ?thesis using handle_client [OF f(1) _ _ s] u h by (auto simp: unserved_def)
qed

subsection \<open>Properties\<close>

text \<open>
  The client and a coordinator of its epoch understand each other: however TCP cuts the bytes in
  either direction, the coordinator looks up exactly the key the client built from its arguments, the client
  prints the outcome, identifier and generation that the coordinator found, and its exit code is 0
  exactly when the outcome is a hit.
\<close>

theorem client_reports_outcome:
  assumes "tcp_cut there" and "tcp_cut back" and "sh = (case rest of [] \<Rightarrow> 1024 | x # _ \<Rightarrow> atoll x)"
    and "fits_frame (encode_lookup_request (client_message oper sh))" and "g_epoch c = 1" and "g_gen c = 1"
    and "serve_lookup env ask (client_message oper sh) (client_key oper sh) c = ((oc, co, i, g), c')"
  shows "client_main (\<lambda>h p. True) (coordinator_wire env ask there back c) (prog # host # port # oper # rest) =
    (line (''client: outcome=0x'' @ show_hex2 oc @ '' op='' @ oper @ '' id='' @ str i @ '' gen='' @ show_word g), [],
     if oc = 0 then 0 else 1)"
  using client_asks [OF assms(1,2,4) handle_client [OF assms(4-7)] assms(3)] by simp

text \<open>
  The client is never served a kernel that has to be built: it names no worker boot, a coordinator
  with nothing under that boot hands the build to any worker, and a worker of another boot refuses. So against a
  coordinator that starts empty and whose workers all have a boot identifier, every client run ends with exit
  code 1, however often it is repeated.
\<close>

theorem client_never_served:
  assumes "tcp_cut there" and "tcp_cut back" and "sh = (case rest of [] \<Rightarrow> 1024 | x # _ \<Rightarrow> atoll x)"
    and "fits_frame (encode_lookup_request (client_message oper sh))"
    and "fits_frame (encode_build_request (client_build oper sh))"
    and "\<forall>fd. \<exists>w. linked env w fd ask \<and> w_boot w \<noteq> default_id" and "unserved (client_key oper sh) c"
  shows "client_codes env ask there back (prog # host # port # oper # rest) n c = replicate n 1"
  using assms(7)
proof (induction n arbitrary: c)
  case (Suc n)
  obtain m c' where h: "handle_lookup env ask (encode_lookup_request (client_message oper sh)) c = (m, c')" by fastforce
  have st: "lp_outcome m \<noteq> 0" "unserved (client_key oper sh) c'"
    using unserved_step [OF Suc.prems assms(6,4,5) h] by auto
  have sh: "(if length (prog # host # port # oper # rest) > 4 then atoll ((prog # host # port # oper # rest) ! 4) else 1024) = sh"
    using assms(3) by (cases rest) simp_all
  have "snd (snd (client_main (\<lambda>h p. True) (coordinator_wire env ask there back c) (prog # host # port # oper # rest))) = 1"
    using client_asks [OF assms(1,2,4) h assms(3)] st(1) by simp
  then show ?case
    unfolding client_codes.simps Let_def sh using h Suc.IH [OF st(2)] by (simp add: case_prod_unfold)
qed simp

subsection \<open>Witnesses\<close>

lemma whole_cut: "tcp_cut (\<lambda>b. if b = [] then [] else [b])"
  by (simp add: tcp_cut_def)

lemma client_key_length: "length (k_canonical (client_key ''vec_add'' 1024)) \<le> 1000"
  using key_fields_structure [of "''vec_add''" 1024]
  by (simp add: client_key_def finalize_eq canonical_encoding_def Let_def key_fields_def canonicalize_def enc_simps enc_str_def
      KernelCompatibilityKey_new_def sort_strings_def sort_pairs_def)

lemma client_fits:
  "fits_frame (encode_lookup_request (client_message ''vec_add'' 1024))"
  "fits_frame (encode_build_request (client_build ''vec_add'' 1024))"
proof -
  have "length (arch (client_key ''vec_add'' 1024)) = 6"
    using key_fields_structure [of "''vec_add''" 1024]
    by (simp add: client_key_def finalize_eq derive_def canonicalize_def key_fields_def)
  then show "fits_frame (encode_lookup_request (client_message ''vec_add'' 1024))"
    "fits_frame (encode_build_request (client_build ''vec_add'' 1024))"
    using client_key_length
    by (simp_all add: fits_frame_def kDistMaxFrameBytes_def encode_lookup_request_def encode_build_request_def
        client_message_def client_build_def enc_simps enc_str_def enc_blob_def enc_id_def enc_authority_def Let_def)
qed

definition built_coordinator :: "StoredArtifact list Coordinator" where
  "built_coordinator = sample_coordinator\<lparr>g_built := [(k_digest_hex (client_key ''vec_add'' 1024), sample_id, 7)]\<rparr>"

theorem client_reports_outcome_witness:
  "client_main (\<lambda>h p. True)
     (coordinator_wire sample_env sample_link (\<lambda>b. if b = [] then [] else [b]) (\<lambda>b. if b = [] then [] else [b]) built_coordinator)
     [''client'', ''localhost'', ''41000'', ''vec_add''] =
   (line (''client: outcome=0x00 op=vec_add id='' @ str sample_id @ '' gen=7''), [], 0)"
proof -
  obtain c' where "serve_lookup sample_env sample_link (client_message ''vec_add'' 1024) (client_key ''vec_add'' 1024) built_coordinator =
      ((0, 1, sample_id, 7), c')"
    by (cases "lookup_impl sample_env (coordinator_request (client_key ''vec_add'' 1024) []) sample_cache")
      (auto simp: serve_lookup_def built_coordinator_def sample_coordinator_def client_message_sel)
  moreover have "show_hex2 0 = ''00''" "show_word (7 :: u64) = ''7''" by code_simp+
  ultimately show ?thesis
    using client_reports_outcome [OF whole_cut whole_cut _ client_fits(1), where rest = "[]" and c = built_coordinator]
    by (simp add: built_coordinator_def sample_coordinator_def)
qed

theorem client_never_served_witness:
  "client_codes sample_env sample_link (\<lambda>b. if b = [] then [] else [b]) (\<lambda>b. if b = [] then [] else [b])
     [''client'', ''localhost'', ''41000'', ''vec_add''] 3 sample_coordinator = [1, 1, 1]"
proof -
  have w: "\<forall>fd. \<exists>w. linked sample_env w fd sample_link \<and> w_boot w \<noteq> default_id"
    by (intro allI exI [of _ sample_worker])
      (simp add: linked_def sample_link_def sample_worker_def default_id_def)
  have u: "unserved (client_key ''vec_add'' 1024) sample_coordinator"
    by (simp add: unserved_def sample_coordinator_def sample_cache_def Impl_new_def)
  show ?thesis
    using client_never_served [OF whole_cut whole_cut _ client_fits w u, where rest = "[]" and n = 3]
    by (simp add: numeral_3_eq_3)
qed

end
