(* ===== verification/KC_Socket.thy ===== *)
theory KC_Socket
  imports KC_Transport "HOL-Library.Sublist"
begin

text \<open>
  The socket side of the transport (\<^verbatim>\<open>distributed/dist_tcp.hpp\<close>): opening and closing sockets, and
  sending. The system calls are parameters. The outgoing side of a socket is the list of what
  successive calls of \<^verbatim>\<open>send\<close> accept, in bytes; 0 or the end of the list is a call that fails.
\<close>

subsection \<open>Opening and closing\<close>

record SocketApi =
  api_socket :: "nat option"                          \<comment> \<open>\<^verbatim>\<open>socket\<close>: a descriptor, or none\<close>
  api_bind :: "nat \<Rightarrow> u16 \<Rightarrow> bool"
  api_listen :: "nat \<Rightarrow> bool"
  api_pton :: "string \<Rightarrow> u32 option"                  \<comment> \<open>\<^verbatim>\<open>inet_pton\<close>\<close>
  api_connect :: "nat \<Rightarrow> u32 \<Rightarrow> u16 \<Rightarrow> bool"

text \<open>
  Each operation takes the open descriptors and gives them back. \<^verbatim>\<open>listen\<close> closes what it opened
  when it fails.
\<close>

type_synonym descriptors = "nat list"

definition listener_listen :: "SocketApi \<Rightarrow> u16 \<Rightarrow> descriptors \<Rightarrow> bool \<times> nat option \<times> descriptors" where
  "listener_listen api port ds =
     (case api_socket api of
        None \<Rightarrow> (False, None, ds)
      | Some fd \<Rightarrow>
          let ds = fd # ds
          in if \<not> api_bind api fd port then (False, None, remove1 fd ds)
             else if \<not> api_listen api fd then (False, None, remove1 fd ds)
             else (True, Some fd, ds))"

text \<open>
  \<^verbatim>\<open>connect\<close> does not look at the result of \<^verbatim>\<open>inet_pton\<close>, so an address it cannot parse stays the
  zero of the initialiser, and it keeps the descriptor when connecting fails.
\<close>

definition connection_connect :: "SocketApi \<Rightarrow> string \<Rightarrow> u16 \<Rightarrow> descriptors \<Rightarrow> bool \<times> nat option \<times> descriptors" where
  "connection_connect api host port ds =
     (case api_socket api of
        None \<Rightarrow> (False, None, ds)
      | Some fd \<Rightarrow>
          let addr = (case api_pton api host of Some a \<Rightarrow> a | None \<Rightarrow> 0)
          in (api_connect api fd addr port, Some fd, fd # ds))"

definition connection_close :: "nat option \<Rightarrow> descriptors \<Rightarrow> bool \<times> nat option \<times> descriptors" where
  "connection_close fd ds = (case fd of None \<Rightarrow> (False, None, ds) | Some f \<Rightarrow> (True, None, remove1 f ds))"

definition listener_close :: "nat option \<Rightarrow> descriptors \<Rightarrow> nat option \<times> descriptors" where
  "listener_close fd ds = (case fd of None \<Rightarrow> (None, ds) | Some f \<Rightarrow> (None, remove1 f ds))"

subsection \<open>Sending\<close>

type_synonym outgoing = "nat list"

text \<open>The verdict, the bytes that went out, and what is left of the outgoing side.\<close>

function write_all :: "bytes \<Rightarrow> outgoing \<Rightarrow> (bool \<times> bytes) \<times> outgoing" where
  "write_all buf ss =
     (if buf = [] then ((True, []), ss)
      else case ss of
             [] \<Rightarrow> ((False, []), [])
           | k # ss' \<Rightarrow>
               if k = 0 then ((False, []), ss')
               else let ((good, b), r) = write_all (drop k buf) ss' in ((good, take k buf @ b), r))"
  by pat_completeness auto

termination by (relation "measure (\<lambda>(b, ss). length ss)") auto

declare write_all.simps [simp del]

lemma write_all_cases:
  "write_all [] ss = ((True, []), ss)"
  "buf \<noteq> [] \<Longrightarrow> write_all buf [] = ((False, []), [])"
  "buf \<noteq> [] \<Longrightarrow> write_all buf (0 # ss) = ((False, []), ss)"
  "buf \<noteq> [] \<Longrightarrow> k > 0 \<Longrightarrow> write_all buf (k # ss) =
     (let ((good, b), r) = write_all (drop k buf) ss in ((good, take k buf @ b), r))"
  by (simp_all add: write_all.simps [of "[]"] write_all.simps [of buf])

definition send_frame :: "u16 \<Rightarrow> bytes \<Rightarrow> outgoing \<Rightarrow> (bool \<times> bytes) \<times> outgoing" where
  "send_frame t payload ss =
     (let hdr = take 8 (write_frame t payload);
          ((good, b), ss) = write_all hdr ss
      in if \<not> good then ((False, b), ss)
         else if payload = [] then ((True, b), ss)
         else let ((good, b'), ss) = write_all payload ss in ((good, b @ b'), ss))"

subsection \<open>Lemmas\<close>

text \<open>What a sender delivers: everything and success, or a strict prefix and failure.\<close>

definition delivers :: "bytes \<Rightarrow> bool \<times> bytes \<Rightarrow> bool" where
  "delivers buf r \<longleftrightarrow> (if fst r then snd r = buf else strict_prefix (snd r) buf)"

lemma write_all_delivers: "delivers buf (fst (write_all buf ss))"
proof (induction buf ss rule: write_all.induct)
  case (1 buf ss)
  have cut: "strict_prefix b (drop k buf) \<Longrightarrow> strict_prefix (take k buf @ b) buf" for b k
    by (metis append_take_drop_id strict_prefix_def prefix_def append.assoc same_append_eq)
  show ?case
  proof (cases "buf = [] \<or> ss = [] \<or> hd ss = 0")
    case True
    then show ?thesis
      by (cases "buf = []"; cases ss) (auto simp: write_all_cases delivers_def strict_prefix_def)
  next
    case False
    then obtain k ss' where ss: "ss = k # ss'" "k \<noteq> 0" "buf \<noteq> []" by (cases ss) auto
    obtain g b r where w: "write_all (drop k buf) ss' = ((g, b), r)" by (metis surj_pair)
    have "delivers (drop k buf) (g, b)" using 1 [OF ss(3,1,2)] w by simp
    then show ?thesis using ss w cut by (auto simp: write_all_cases delivers_def)
  qed
qed

lemma write_frame_split: "write_frame t p = take 8 (write_frame t p) @ p" "length (take 8 (write_frame t p)) = 8"
  by (simp_all add: write_frame_eq)

lemma send_frame_delivers: "delivers (write_frame t p) (fst (send_frame t p ss))"
proof -
  let ?h = "take 8 (write_frame t p)"
  obtain g b r where h: "write_all ?h ss = ((g, b), r)" by (metis surj_pair)
  obtain g' b' r' where q: "write_all p r = ((g', b'), r')" by (metis surj_pair)
  have d: "delivers ?h (g, b)" "delivers p (g', b')" using write_all_delivers h q by (metis fst_conv)+
  have pre: "strict_prefix b ?h \<Longrightarrow> strict_prefix b (write_frame t p)"
    by (metis prefix_def prefix_order.less_le_trans write_frame_split(1))
  have post: "strict_prefix b' p \<Longrightarrow> strict_prefix (?h @ b') (write_frame t p)"
    by (metis same_prefix_prefix same_append_eq strict_prefix_def write_frame_split(1))
  show ?thesis
    using d pre post write_frame_split(1) [of t p]
    by (auto simp: send_frame_def Let_def h q delivers_def)
qed

lemma send_frame_accepts:
  assumes "length (write_frame t p) \<le> length ss" and "0 \<notin> set ss"
  shows "fst (fst (send_frame t p ss))"
proof -
  have all: "fst (fst (write_all buf ss)) \<and> length ss \<le> length buf + length (snd (write_all buf ss)) \<and>
      0 \<notin> set (snd (write_all buf ss))" if "length buf \<le> length ss" "0 \<notin> set ss" for buf and ss :: outgoing
    using that
  proof (induction buf ss rule: write_all.induct)
    case (1 buf ss)
    show ?case
    proof (cases "buf = []")
      case False
      then obtain k ss' where ss: "ss = k # ss'" "k \<noteq> 0" using "1.prems" by (cases ss) auto
      have "length (drop k buf) \<le> length ss'" using "1.prems" ss False by (cases buf; cases k) auto
      then have "fst (fst (write_all (drop k buf) ss')) \<and> length ss' \<le> length (drop k buf) + length (snd (write_all (drop k buf) ss')) \<and>
          0 \<notin> set (snd (write_all (drop k buf) ss'))"
        using 1(1) [OF False ss] "1.prems" ss by auto
      moreover have "Suc (length (drop k buf)) \<le> length buf" using ss False by (cases buf; cases k) auto
      ultimately show ?thesis
        using ss False by (auto simp: write_all_cases split: prod.splits)
    qed (use "1.prems" in \<open>simp add: write_all_cases\<close>)
  qed
  let ?h = "take 8 (write_frame t p)"
  have len: "length (write_frame t p) = 8 + length p" by (simp add: write_frame_eq)
  obtain g b r where h: "write_all ?h ss = ((g, b), r)" by (metis surj_pair)
  have "g \<and> length p \<le> length r \<and> 0 \<notin> set r"
    using all [of ?h ss] assms h len by (auto simp: write_frame_split(2))
  then show ?thesis using all [of p r] by (auto simp: send_frame_def Let_def h split: prod.splits)
qed

text \<open>A frame that broke off is not read as a frame.\<close>

lemma read_frame_partial:
  assumes "strict_prefix b (write_frame t p)" and "fits_frame p" and "concat cs = b" and "[] \<notin> set cs"
  shows "read_frame cs = None"
proof -
  obtain z where z: "write_frame t p = b @ z" "z \<noteq> []" using assms(1) by (auto simp: strict_prefix_def prefix_def)
  have len: "length (write_frame t p) = 8 + length p" by (simp add: write_frame_eq)
  show ?thesis
  proof (cases "length b < 8")
    case True
    then show ?thesis using read_exact_short [of cs 8] assms(3) by (simp add: read_frame_def)
  next
    case False
    then have h: "take 8 b = take 8 (write_frame t p)" using z by simp
    obtain c1 where c1: "read_exact 8 cs = Some (take 8 b, c1)" "concat c1 = drop 8 b"
      using read_exact_concat [OF assms(4), of 8] assms(3) False by auto
    have "unat (header_len (take 8 b)) = 8 + length p"
    proof -
      have "unat (word_of_nat (8 + length p) :: u32) = 8 + length p"
        by (simp only: unat_of_nat) (use assms(2) in \<open>simp add: fits_frame_def kDistMaxFrameBytes_def\<close>)
      then show ?thesis unfolding h by (simp add: write_frame_eq header_len_def)
    qed
    moreover have "length (concat c1) < length p"
    proof -
      have "length b + length z = 8 + length p" using z(1) len by (metis length_append)
      then show ?thesis using z(2) c1(2) False by (cases z) auto
    qed
    ultimately show ?thesis
      using c1 read_exact_short [of c1 "length p"] by (auto simp: read_frame_def Let_def)
  qed
qed

subsection \<open>Properties\<close>

text \<open>
  C35. A frame arrives whole or not at all: however the sender's system accepts the bytes and however
  the network cuts them, the receiver reads exactly the frame if the sender was told that it was
  written, and reads no frame if the sender was told that it was not.
\<close>

theorem frame_all_or_nothing:
  assumes "send_frame t p ss = ((good, sent), ss')" and "fits_frame p"
    and "concat cs = sent" and "[] \<notin> set cs"
  shows "map_option fst (read_frame cs) = (if good then Some (t, p) else None)"
proof -
  have d: "delivers (write_frame t p) (good, sent)" using send_frame_delivers assms(1) by (metis fst_conv)
  show ?thesis
  proof (cases good)
    case True
    then obtain cs' where "read_frame cs = Some ((t, p), cs')"
      using read_write_frame [OF assms(4) _ assms(2), of t "[]"] d assms(3) by (auto simp: delivers_def)
    then show ?thesis using True by simp
  next
    case False
    then show ?thesis using d read_frame_partial [OF _ assms(2,3,4)] by (simp add: delivers_def)
  qed
qed

theorem frame_all_or_nothing_witness:
  "map_option fst (read_frame [[0, 0, 0, 10, 0], [1, 0, 10, 7, 8]]) = Some (10, [7, 8]) \<and>
   map_option fst (read_frame [[0, 0, 0, 10, 0], [1, 0, 10, 7]]) = None"
proof -
  have f: "fits_frame [7, 8]" by (simp add: fits_frame_def kDistMaxFrameBytes_def)
  have s: "send_frame 10 [7, 8] [5, 9, 9] = ((True, [0, 0, 0, 10, 0, 1, 0, 10, 7, 8]), [])"
    "send_frame 10 [7, 8] [5, 9, 1, 0] = ((False, [0, 0, 0, 10, 0, 1, 0, 10, 7]), [])"
    by code_simp+
  show ?thesis
    using frame_all_or_nothing [OF s(1) f, of "[[0, 0, 0, 10, 0], [1, 0, 10, 7, 8]]"]
      frame_all_or_nothing [OF s(2) f, of "[[0, 0, 0, 10, 0], [1, 0, 10, 7]]"] by simp
qed

text \<open>
  Sockets: a listener that fails leaves no descriptor behind; a connection that is closed leaves
  none either, whether or not it could be made.
\<close>

lemma listen_no_leak:
  "listener_listen api port ds = (good, fd, ds') \<Longrightarrow> ds' = (case fd of None \<Rightarrow> ds | Some f \<Rightarrow> f # ds) \<and> good = (fd \<noteq> None)"
  by (cases "api_socket api"; cases fd) (auto simp: listener_listen_def Let_def split: if_splits)

lemma connect_close_no_leak:
  "connection_connect api host port ds = (good, fd, ds') \<Longrightarrow> snd (snd (connection_close fd ds')) = ds"
  by (auto simp: connection_connect_def connection_close_def Let_def split: option.splits)

text \<open>A host that is not a numeric address is not looked up: every such name leads to 0.0.0.0.\<close>

theorem host_name_not_resolved:
  assumes "api_pton api host = None" and "api_socket api = Some fd"
  shows "connection_connect api host port ds = (api_connect api fd 0 port, Some fd, fd # ds)"
  using assms by (simp add: connection_connect_def)

end
