(* ===== verification/KC_Sessions.thy ===== *)
theory KC_Sessions
  imports KC_Client KC_Socket
begin

text \<open>
  The processes of the distributed runtime from start to end: the \<^verbatim>\<open>main\<close> of the worker
  (\<^verbatim>\<open>distributed/worker.cpp\<close>) with its registration and message loop, and the connection handlers and
  the \<^verbatim>\<open>main\<close> of the coordinator (\<^verbatim>\<open>distributed/coordinator.cpp\<close>). The network is a parameter:
  the chunks that arrive on a connection. What the processes print on \<^verbatim>\<open>stderr\<close> is left out.
\<close>

subsection \<open>Reading consumes the stream\<close>

lemma read_exact_consumes:
  "read_exact n cs = Some (b, cs') \<Longrightarrow> length b = n \<and> concat cs = b @ concat cs'"
proof (induction n cs arbitrary: b cs' rule: read_exact.induct)
  case (1 n cs)
  show ?case
  proof (cases "n = 0 \<or> cs = [] \<or> hd cs = []")
    case True
    then show ?thesis using "1.prems" by (cases cs) (auto simp: read_exact.simps [of n] split: if_splits)
  next
    case False
    then obtain c ds where cs: "cs = c # ds" "c \<noteq> []" "n \<noteq> 0" by (cases cs) auto
    show ?thesis
    proof (cases "length c \<le> n")
      case True
      then obtain b' where r: "read_exact (n - length c) ds = Some (b', cs')" "b = c @ b'"
        using "1.prems" cs by (auto simp: read_exact.simps [of n])
      show ?thesis using "1.IH" [OF cs(3,1,2) True r(1)] r(2) cs True by simp
    qed (use "1.prems" cs in \<open>auto simp: read_exact.simps [of n]\<close>)
  qed
qed

lemma read_frame_consumes: "read_frame cs = Some (m, cs') \<Longrightarrow> length (concat cs') + 8 \<le> length (concat cs)"
  by (auto simp: read_frame_def Let_def dest!: read_exact_consumes split: option.splits if_splits)

subsection \<open>Worker\<close>

text \<open>\<^verbatim>\<open>strtoull\<close> in base 10: 0 without digits, the largest value when out of range.\<close>

definition strtoull :: "string \<Rightarrow> u64" where
  "strtoull s =
     (let s = dropWhile is_space s;
          neg = (s \<noteq> [] \<and> hd s = CHR ''-'');
          s = (if s \<noteq> [] \<and> (hd s = CHR ''-'' \<or> hd s = CHR ''+'') then tl s else s);
          n = dec_value (takeWhile is_digit s)
      in if n \<ge> 2 ^ 64 then - 1 else if neg then - word_of_nat n else word_of_nat n)"

text \<open>
  The message loop: the frames it answers with and the last state; \<^const>\<open>None\<close> when an acquire never
  returns. It ends when the connection does, or with a \<^verbatim>\<open>Shutdown\<close>.
\<close>

function worker_loop :: "'p Env \<Rightarrow> incoming \<Rightarrow> 'p Worker \<Rightarrow> ((u16 \<times> bytes) list \<times> 'p Worker) option" where
  "worker_loop env cs w =
     (case read_frame cs of
        None \<Rightarrow> Some ([], w)
      | Some ((t, p), cs') \<Rightarrow>
          if t = msg_type_value Shutdown then Some ([], w)
          else case worker_frame env t p w of
                 None \<Rightarrow> None
               | Some (reply, w') \<Rightarrow>
                   map_option (\<lambda>(fs, w). ((case reply of None \<Rightarrow> fs | Some f \<Rightarrow> f # fs), w)) (worker_loop env cs' w'))"
  by pat_completeness auto

termination
  by (relation "measure (\<lambda>(env, cs, w). length (concat cs))") (auto dest: read_frame_consumes)

declare worker_loop.simps [simp del]

definition worker_root :: "(string \<rightharpoonup> string) \<Rightarrow> u64 \<Rightarrow> string" where
  "worker_root getenv wid =
     (case getenv ''TEMP'' of Some (c # cs) \<Rightarrow> c # cs | _ \<Rightarrow> CHR 0x5C # ''tmp'') @ ''/kc_worker_'' @ show_word wid"

record 'p Process =
  pr_env :: "'p Env"
  pr_open :: "string \<Rightarrow> 'p result"
  pr_cpu :: KernelBackend
  pr_cuda :: "KernelBackend option"
  pr_getenv :: "string \<rightharpoonup> string"

definition process_cache :: "'p Process \<Rightarrow> string \<Rightarrow> bool \<Rightarrow> 'p Impl" where
  "process_cache pr dir persist =
     (let cf = KernelCacheConfig_new\<lparr>persistence_root := dir, persistence_enabled := persist\<rparr>
      in snd (use_builtin_backends (pr_cpu pr) (pr_cuda pr) (KernelCache_new (pr_env pr) (pr_open pr) cf)))"

text \<open>
  The wire takes the host, the port and the registration and gives what arrives; a connection that
  cannot be made is one on which nothing arrives, since \<^verbatim>\<open>main\<close> ignores the results of \<^verbatim>\<open>connect\<close>
  and \<^verbatim>\<open>write_frame\<close>. The result has the exit code, the frames written and the last state.
\<close>

definition worker_main ::
  "'p Process \<Rightarrow> (string \<Rightarrow> u16 \<Rightarrow> bytes \<Rightarrow> incoming) \<Rightarrow> string list
    \<Rightarrow> (int \<times> (u16 \<times> bytes) list \<times> 'p Worker option) option" where
  "worker_main pr wire argv =
     (if length argv < 6 then Some (2, [], None)
      else
        let port = ucast (atoi (argv ! 2)); wid = strtoull (argv ! 3);
            boot = mk_id (strtoull (argv ! 4)) (strtoull (argv ! 5));
            reg = (msg_type_value Register_W, encode_register \<lparr>rg_worker = wid, rg_boot = boot, rg_gen = 1\<rparr>)
        in case read_frame (wire (argv ! 1) port (write_frame (fst reg) (snd reg))) of
             None \<Rightarrow> Some (3, [reg], None)
           | Some ((t, p), cs) \<Rightarrow>
               if t \<noteq> msg_type_value RegisterAck_C then Some (3, [reg], None)
               else case decode_register_ack p of
                      Inl _ \<Rightarrow> Some (3, [reg], None)
                    | Inr a \<Rightarrow>
                        if ra_ok a \<noteq> 1 then Some (3, [reg], None)
                        else map_option (\<lambda>(fs, w). (0, reg # fs, Some w))
                               (worker_loop (pr_env pr) cs \<lparr>w_epoch = ra_epoch a, w_boot = boot,
                                  w_cache = process_cache pr (worker_root (pr_getenv pr) wid) False\<rparr>))"

subsection \<open>Coordinator\<close>

text \<open>
  A client session: the frames sent back, the frames sent to workers and the last state. The links to
  the workers may differ from message to message, since the workers change.
\<close>

function serve_client ::
  "'p Env \<Rightarrow> (nat \<Rightarrow> worker_link) \<Rightarrow> nat \<Rightarrow> u16 \<Rightarrow> bytes \<Rightarrow> incoming \<Rightarrow> 'p Coordinator
    \<Rightarrow> (u16 \<times> bytes) list \<times> (nat \<times> bytes) list \<times> 'p Coordinator" where
  "serve_client env asks n t payload cs c =
     (let (reply, bc, again, c) = serve_message env (asks n) t payload c;
          rs = (case reply of None \<Rightarrow> [] | Some r \<Rightarrow> [r])
      in if \<not> again then (rs, bc, c)
         else case read_frame cs of
                None \<Rightarrow> (rs, bc, c)
              | Some ((t, payload), cs) \<Rightarrow>
                  let (rs', bc', c) = serve_client env asks (Suc n) t payload cs c in (rs @ rs', bc @ bc', c))"
  by pat_completeness auto

termination
  by (relation "measure (\<lambda>(env, asks, n, t, payload, cs, c). length (concat cs))") (auto dest: read_frame_consumes)

declare serve_client.simps [simp del]

text \<open>One accepted connection; the flag tells whether the socket stays open, as that of a worker does.\<close>

definition handle_conn ::
  "'p Env \<Rightarrow> (nat \<Rightarrow> worker_link) \<Rightarrow> nat \<Rightarrow> incoming \<Rightarrow> 'p Coordinator
    \<Rightarrow> bool \<times> (u16 \<times> bytes) list \<times> (nat \<times> bytes) list \<times> 'p Coordinator" where
  "handle_conn env asks fd cs c =
     (case read_frame cs of
        None \<Rightarrow> (False, [], [], c)
      | Some ((t, payload), cs) \<Rightarrow>
          if t = msg_type_value Register_W then
            (case handle_register fd payload c of
               (None, c) \<Rightarrow> (False, [], [], c)
             | (Some ack, c) \<Rightarrow> (True, [(msg_type_value RegisterAck_C, ack)], [], c))
          else (False, serve_client env asks 0 t payload cs c))"

text \<open>
  \<^verbatim>\<open>main\<close> up to the accept loop, which never ends: the exit code when it stops before, else the state
  in which connections are accepted.
\<close>

definition coordinator_main ::
  "'p Process \<Rightarrow> (u16 \<Rightarrow> bool) \<Rightarrow> string list \<Rightarrow> int + 'p Coordinator" where
  "coordinator_main pr listen argv =
     (if length argv < 3 then Inl 2
      else
        let port = ucast (atoi (argv ! 1)); cache = process_cache pr (argv ! 2) True
        in if \<not> listen port then Inl 3
           else Inr \<lparr>g_workers = [], g_epoch = 1, g_gen = 1, g_cache = cache, g_pending = [], g_built = []\<rparr>)"

text \<open>Connections handled one after the other; \<^verbatim>\<open>accept\<close> failing is skipped.\<close>

primrec accept_loop ::
  "'p Env \<Rightarrow> (nat \<Rightarrow> worker_link) \<Rightarrow> (nat option \<times> incoming) list \<Rightarrow> 'p Coordinator \<Rightarrow> 'p Coordinator" where
  "accept_loop env asks [] c = c"
| "accept_loop env asks (x # xs) c =
     (case x of
        (None, _) \<Rightarrow> accept_loop env asks xs c
      | (Some fd, cs) \<Rightarrow>
          (case handle_conn env asks fd cs c of (_, _, _, c) \<Rightarrow> accept_loop env asks xs c))"

subsection \<open>A worker always returns\<close>

text \<open>
  A worker's cache is private to one thread and has no store, so no build is in flight between
  requests and persisting cannot fail.
\<close>

definition private_cache :: "'p Impl \<Rightarrow> bool" where
  "private_cache s \<longleftrightarrow> index_inv s \<and> in_flight s = [] \<and> \<not> persistence_open s"

lemma private_outer: "same_outer s s' \<Longrightarrow> index_inv s' \<Longrightarrow> private_cache s \<Longrightarrow> private_cache s'"
  by (simp add: private_cache_def same_outer_def)

lemma process_cache_private: "private_cache (process_cache pr dir False)"
  by (simp add: private_cache_def process_cache_def use_builtin_backends_def register_backend_def KernelCache_new_def
      record_event_def now_ns_def Impl_new_def Let_def index_inv_def indexes_def ids_of_def KernelCacheConfig_new_def
      split: option.splits)

lemma build_finish_returns:
  assumes "\<not> persistence_open s"
  shows "\<exists>r s'. build_finish env att oc s = Some (r, s') \<and> in_flight s' = in_flight s \<and> \<not> persistence_open s'"
  using assms
  by (auto simp: build_finish_def build_insert_def build_persist_def Let_def now_ns_def split: option.splits)

lemma build_private:
  assumes "private_cache s"
  shows "\<exists>r own s'. build_impl env q s = Some ((r, own), s') \<and> private_cache s'"
proof -
  let ?k = "finalized (req_key q)"
  let ?rq = "default_namespace s (q\<lparr>req_key := ?k\<rparr>)"
  have s: "in_flight s = []" "\<not> persistence_open s" "index_inv s" using assms by (simp_all add: private_cache_def)
  obtain f s1 where c: "build_claim env ?rq s = ((True, f), s1)"
    using claims_free [of s ?rq env] s by auto
  let ?att = "attempt (fences s1 ! f)" and ?gen = "build_generation (fences s1 ! f)"
  obtain oc s2 where b: "run_build env ?rq ?gen ?att s1 = (oc, s2)" by fastforce
  let ?t = "build_retire ?k f (build_publish f oc s2)"
  have "in_flight s2 = [(key_digest ?k, f)]" "\<not> persistence_open s2"
    using claim_owner [OF c] claim_frame [OF c] run_build_frame [OF b] s by (simp_all add: same_outer_def)
  then have t: "in_flight ?t = []" "\<not> persistence_open ?t"
    by (simp_all add: build_retire_def build_publish_def Let_def)
  obtain r s' where r: "build_finish env ?att oc ?t = Some (r, s')" "in_flight s' = []" "\<not> persistence_open s'"
    using build_finish_returns [OF t(2), of env ?att oc] t(1) by auto
  have run: "build_impl env q s = Some ((r, True), s')"
    using r by (simp add: build_impl_def Let_def c b)
  then have "index_inv s'" using evolves_build [OF run] s(3) by (simp add: evolves_def)
  then show ?thesis using run r by (auto simp: private_cache_def)
qed

lemma grant_outer: "grant_lease env i q s = (res, s') \<Longrightarrow> same_outer s s'"
  by (auto simp: grant_lease_def now_ns_def Let_def split: option.splits if_splits)

lemma promote_private:
  assumes "private_cache s"
  shows "\<exists>r s'. promote_and_grant env i q s = Some (r, s') \<and> private_cache s'"
proof -
  have inv: "index_inv s" using assms by (simp add: private_cache_def)
  obtain r s1 where p: "promote_to_tier env i (desired_tier q) (req_device q) s = Some (r, s1)" "same_outer s s1"
    using promote_returns [OF inv] by blast
  obtain r' s2 where g: "grant_lease env i q s1 = (r', s2)" by fastforce
  have "\<exists>r u. promote_and_grant env i q s = Some (r, u) \<and> same_outer s u"
    using p g grant_outer [OF g] by (cases r) (auto simp: promote_and_grant_def intro: same_outer_trans)
  then obtain r u where "promote_and_grant env i q s = Some (r, u)" "same_outer s u" by blast
  moreover from this have "index_inv u" using evolves_promote_and_grant [of env i q s r u] inv by (simp add: evolves_def)
  ultimately show ?thesis using private_outer assms by blast
qed

lemma acquire_private:
  assumes "private_cache s"
  shows "\<exists>r s'. acquire_impl env q s = Some (r, s') \<and> private_cache s'"
proof -
  let ?q = "q\<lparr>req_key := finalized (req_key q)\<rparr>"
  obtain dec s1 where l: "lookup_impl env ?q s = (dec, s1)" by fastforce
  have inv: "index_inv s1"
    using lookup_frame [OF l] assms same_records_evolves by (auto simp: private_cache_def evolves_def)
  then have s1: "private_cache s1" using lookup_frame [OF l] assms private_outer by blast
  obtain r own s2 where b: "build_impl env ?q s1 = Some ((r, own), s2)" "private_cache s2"
    using build_private [OF s1] by blast
  show ?thesis
    using s1 b promote_private [OF s1, of env _ ?q] promote_private [OF b(2), of env _ ?q]
    by (cases dec; cases r) (auto simp: acquire_impl_def Let_def l split: option.splits)
qed

lemma release_private: "private_cache s \<Longrightarrow> private_cache (snd (lease_release l s))"
proof -
  assume s: "private_cache s"
  obtain l' s' where r: "lease_release l s = (l', s')" by fastforce
  then have "same_outer s s'" "index_inv s'"
    using s evolves_release [OF r]
    by (auto simp: lease_release_def on_lease_release_def Let_def evolves_def private_cache_def split: option.splits if_splits)
  with r s show ?thesis using private_outer by simp
qed

text \<open>The request identifier of a build request, as the worker reads it.\<close>

definition request_id :: "bytes \<Rightarrow> RequestId" where
  "request_id p = snd (decode_build_request p default_id)"

lemma worker_build_returns:
  assumes "private_cache (w_cache w)"
  shows "\<exists>m w'. worker_build env p w = Some (m, w') \<and> private_cache (w_cache w') \<and> w_epoch w' = w_epoch w \<and>
    w_boot w' = w_boot w \<and> bp_rid m = request_id p"
proof -
  obtain a rid where d: "decode_build_request p default_id = (a, rid)" by fastforce
  show ?thesis
  proof (cases a)
    case (Inr m)
    show ?thesis
    proof (cases "from_canonical (bq_key m)")
      case (Inr k)
      obtain r s where acq: "acquire_impl env (worker_request k (bq_source m) (bq_namespace m)) (w_cache w) = Some (r, s)"
        "private_cache s" using acquire_private [OF assms] by blast
      show ?thesis
        using acq d \<open>a = Inr m\<close> Inr assms release_private [OF acq(2)]
        by (cases r) (simp_all add: worker_build_def request_id_def)
    qed (use d Inr assms in \<open>simp add: worker_build_def request_id_def\<close>)
  qed (use d assms in \<open>simp add: worker_build_def request_id_def\<close>)
qed

subsection \<open>What a worker does with a sequence of frames\<close>

definition before_shutdown :: "(u16 \<times> bytes) list \<Rightarrow> (u16 \<times> bytes) list" where
  "before_shutdown = takeWhile (\<lambda>(t, p). t \<noteq> msg_type_value Shutdown)"

definition epoch_after :: "u64 \<Rightarrow> (u16 \<times> bytes) list \<Rightarrow> u64" where
  "epoch_after = foldl (\<lambda>e (t, p). if t = msg_type_value RollEpoch
     then (case decode_roll_epoch p of Inr e' \<Rightarrow> e' | Inl _ \<Rightarrow> e) else e)"

definition build_ids :: "(u16 \<times> bytes) list \<Rightarrow> RequestId list" where
  "build_ids ms = map (\<lambda>(t, p). request_id p) (filter (\<lambda>(t, p). t = msg_type_value BuildReq) ms)"

definition idle_worker :: "'p Worker \<Rightarrow> bool" where
  "idle_worker w \<longleftrightarrow> private_cache (w_cache w) \<and> (\<forall>i. leases_of i (w_cache w) = 0)"

abbreviation answer :: "BuildResponseMsg \<Rightarrow> u16 \<times> bytes" where
  "answer m \<equiv> (msg_type_value BuildResp, encode_build_response m)"

lemma process_cache_idle: "idle_worker \<lparr>w_epoch = e, w_boot = b, w_cache = process_cache pr dir False\<rparr>"
proof -
  have "by_id (process_cache pr dir False) = []"
    by (simp add: process_cache_def use_builtin_backends_def register_backend_def KernelCache_new_def
      record_event_def now_ns_def Impl_new_def Let_def KernelCacheConfig_new_def split: option.splits)
  then show ?thesis by (simp add: idle_worker_def process_cache_private leases_of_def find_rec_def)
qed

lemma worker_frame_returns:
  assumes "idle_worker w" and "t \<noteq> msg_type_value Shutdown"
  shows "\<exists>rs w'. worker_frame env t p w = Some (map_option answer rs, w') \<and> idle_worker w' \<and>
    w_epoch w' = epoch_after (w_epoch w) [(t, p)] \<and> w_boot w' = w_boot w \<and>
    map bp_rid (case rs of None \<Rightarrow> [] | Some r \<Rightarrow> [r]) = build_ids [(t, p)]"
proof (cases "t = msg_type_value BuildReq")
  case True
  obtain m w' where b: "worker_build env p w = Some (m, w')" "private_cache (w_cache w')" "w_epoch w' = w_epoch w"
    "w_boot w' = w_boot w" "bp_rid m = request_id p"
    using worker_build_returns [of w env p] assms(1) by (auto simp: idle_worker_def)
  have "leases_of i (w_cache w') = 0" for i
    using worker_keeps_leases [OF b(1), of i] assms(1) by (simp add: idle_worker_def private_cache_def)
  then show ?thesis
    using True b by (auto simp: worker_frame_def idle_worker_def epoch_after_def build_ids_def intro!: exI [of _ "Some m"])
next
  case False
  then show ?thesis
    using assms
    by (auto simp: worker_frame_def worker_roll_def idle_worker_def epoch_after_def build_ids_def
        intro!: exI [of _ "None :: BuildResponseMsg option"] split: sum.splits)
qed

lemma epoch_after_Cons: "epoch_after e (m # ms) = epoch_after (epoch_after e [m]) ms"
  by (simp add: epoch_after_def)

lemma build_ids_Cons: "build_ids (m # ms) = build_ids [m] @ build_ids ms"
  by (simp add: build_ids_def)

lemma read_frame_end: "read_frame [] = None"
  by (simp add: read_frame_def read_exact.simps)

lemma worker_loop_frames:
  assumes "[] \<notin> set cs" and "concat cs = concat (map (\<lambda>(t, p). write_frame t p) ms)"
    and "\<forall>(t, p) \<in> set ms. fits_frame p" and "idle_worker w"
  shows "\<exists>rs w'. worker_loop env cs w = Some (map answer rs, w') \<and> idle_worker w' \<and>
    map bp_rid rs = build_ids (before_shutdown ms) \<and> w_epoch w' = epoch_after (w_epoch w) (before_shutdown ms) \<and>
    w_boot w' = w_boot w"
  using assms
proof (induction ms arbitrary: cs w)
  case Nil
  then have "cs = []" by (cases cs) auto
  then show ?case using Nil
    by (simp add: worker_loop.simps [of env "[]"] read_frame_end before_shutdown_def build_ids_def epoch_after_def)
next
  case (Cons m ms)
  obtain t p where m: "m = (t, p)" by (cases m)
  obtain cs' where r: "read_frame cs = Some ((t, p), cs')" "concat cs' = concat (map (\<lambda>(t, p). write_frame t p) ms)"
    "[] \<notin> set cs'"
    using read_write_frame [OF Cons.prems(1), of t p] Cons.prems(2,3) m by auto
  show ?case
  proof (cases "t = msg_type_value Shutdown")
    case True
    then show ?thesis using Cons.prems(4) r m
      by (simp add: worker_loop.simps [of env cs] before_shutdown_def build_ids_def epoch_after_def)
  next
    case False
    obtain q w1 where f: "worker_frame env t p w = Some (map_option answer q, w1)" "idle_worker w1"
      "w_epoch w1 = epoch_after (w_epoch w) [(t, p)]" "w_boot w1 = w_boot w"
      "map bp_rid (case q of None \<Rightarrow> [] | Some r \<Rightarrow> [r]) = build_ids [(t, p)]"
      using worker_frame_returns [OF Cons.prems(4) False, of env p] by blast
    obtain rs w' where l: "worker_loop env cs' w1 = Some (map answer rs, w')" "idle_worker w'"
      "map bp_rid rs = build_ids (before_shutdown ms)" "w_epoch w' = epoch_after (w_epoch w1) (before_shutdown ms)"
      "w_boot w' = w_boot w1"
      using Cons.IH [OF r(3,2) _ f(2)] Cons.prems(3) by auto
    have b: "before_shutdown (m # ms) = (t, p) # before_shutdown ms" using m False by (simp add: before_shutdown_def)
    let ?rs = "(case q of None \<Rightarrow> [] | Some r \<Rightarrow> [r]) @ rs"
    have "worker_loop env cs w = Some (map answer ?rs, w')"
      using r(1) False f(1) l(1) by (cases q) (simp_all add: worker_loop.simps [of env cs])
    moreover have "map bp_rid ?rs = build_ids (before_shutdown (m # ms))"
      using b build_ids_Cons [of "(t, p)" "before_shutdown ms"] f(5) l(3) by simp
    moreover have "w_epoch w' = epoch_after (w_epoch w) (before_shutdown (m # ms))"
      using b epoch_after_Cons [of "w_epoch w" "(t, p)" "before_shutdown ms"] f(3) l(4) by simp
    ultimately show ?thesis using f(4) l(2,5) by metis
  qed
qed

lemma register_ack_fits: "fits_frame (encode_register_ack m)"
  by (simp add: fits_frame_def kDistMaxFrameBytes_def encode_register_ack_def enc_simps)

lemma register_ack_round: "decode_register_ack (encode_register_ack m) = Inr m"
  by (rule register_ack.round_trip [OF TrueI register_ack_fits])

text \<open>Registration: the worker starts its loop with the epoch it was told, and gives up otherwise.\<close>

lemma worker_main_registers:
  assumes "6 \<le> length argv"
    and "read_frame (wire (argv ! 1) (ucast (atoi (argv ! 2))) (write_frame (msg_type_value Register_W) (encode_register reg))) = x"
    and "reg = \<lparr>rg_worker = strtoull (argv ! 3), rg_boot = mk_id (strtoull (argv ! 4)) (strtoull (argv ! 5)), rg_gen = 1\<rparr>"
  shows "worker_main pr wire argv =
    (case x of
       Some ((t, p), cs) \<Rightarrow>
         if t = msg_type_value RegisterAck_C \<and> (\<exists>a. decode_register_ack p = Inr a \<and> ra_ok a = 1)
         then map_option (\<lambda>(fs, w). (0, (msg_type_value Register_W, encode_register reg) # fs, Some w))
           (worker_loop (pr_env pr) cs \<lparr>w_epoch = ra_epoch (projr (decode_register_ack p)), w_boot = rg_boot reg,
              w_cache = process_cache pr (worker_root (pr_getenv pr) (rg_worker reg)) False\<rparr>)
         else Some (3, [(msg_type_value Register_W, encode_register reg)], None)
     | None \<Rightarrow> Some (3, [(msg_type_value Register_W, encode_register reg)], None))"
  using assms by (auto simp: worker_main_def Let_def split: option.splits sum.splits)

lemma worker_session:
  assumes "6 \<le> length argv" and "[] \<notin> set cs" and "\<forall>(t, p) \<in> set ms. fits_frame p"
    and "concat cs = write_frame (msg_type_value RegisterAck_C) (encode_register_ack \<lparr>ra_epoch = e, ra_worker = i, ra_ok = 1\<rparr>)
      @ concat (map (\<lambda>(t, p). write_frame t p) ms)"
  shows "\<exists>reg rs w. worker_main pr (\<lambda>h p b. cs) argv = Some (0, (msg_type_value Register_W, reg) # map answer rs, Some w) \<and>
    map bp_rid rs = build_ids (before_shutdown ms) \<and> w_epoch w = epoch_after e (before_shutdown ms) \<and>
    (\<forall>j. leases_of j (w_cache w) = 0)"
proof -
  let ?a = "\<lparr>ra_epoch = e, ra_worker = i, ra_ok = 1\<rparr>"
  let ?reg = "\<lparr>rg_worker = strtoull (argv ! 3), rg_boot = mk_id (strtoull (argv ! 4)) (strtoull (argv ! 5)), rg_gen = 1\<rparr>"
  obtain cs' where r: "read_frame cs = Some ((msg_type_value RegisterAck_C, encode_register_ack ?a), cs')"
    "concat cs' = concat (map (\<lambda>(t, p). write_frame t p) ms)" "[] \<notin> set cs'"
    using read_write_frame [OF assms(2,4) register_ack_fits] by blast
  from worker_loop_frames [OF r(3,2) assms(3) process_cache_idle]
  obtain rs w where "worker_loop (pr_env pr) cs' \<lparr>w_epoch = e, w_boot = rg_boot ?reg,
      w_cache = process_cache pr (worker_root (pr_getenv pr) (rg_worker ?reg)) False\<rparr> = Some (map answer rs, w)"
    "idle_worker w" "map bp_rid rs = build_ids (before_shutdown ms)" "w_epoch w = epoch_after e (before_shutdown ms)"
    by (metis Worker.select_convs(1))
  then show ?thesis
    using worker_main_registers [OF assms(1), of "\<lambda>h p b. cs" ?reg _ pr] r(1)
    by (auto simp: register_ack_round idle_worker_def)
qed

lemma worker_unacknowledged:
  assumes "6 \<le> length argv"
    and "\<forall>p cs' a. read_frame cs = Some ((msg_type_value RegisterAck_C, p), cs') \<and> decode_register_ack p = Inr a \<longrightarrow> ra_ok a \<noteq> 1"
  shows "\<exists>reg. worker_main pr (\<lambda>h p b. cs) argv = Some (3, [(msg_type_value Register_W, reg)], None)"
  using worker_main_registers [OF assms(1) refl refl, of pr "\<lambda>h p b. cs"] assms(2)
  by (auto split: option.splits)

definition reply_types :: "(u16 \<times> bytes) list \<Rightarrow> u16 list" where
  "reply_types ms = concat (map (\<lambda>(t, p). if t = msg_type_value LookupReq then [msg_type_value LookupResp]
     else if t = msg_type_value QueryWorkers then [msg_type_value QueryWorkersResp] else []) ms)"

lemma serve_message_replies:
  assumes "serve_message env ask t p c = (reply, bc, again, c')"
  shows "map fst (case reply of None \<Rightarrow> [] | Some r \<Rightarrow> [r]) = reply_types [(t, p)] \<and> again = (t \<noteq> msg_type_value Shutdown)"
  using assms by (auto simp: serve_message_def reply_types_def Let_def split: if_splits prod.splits)

subsection \<open>Properties\<close>

text \<open>
  C33. A registered worker serves until it is told to stop: however TCP cuts what the coordinator sent
  after the acknowledgement, the process ends with exit code 0, has answered every build request
  before the first \<^verbatim>\<open>Shutdown\<close> exactly once and in order, each under the request's identifier, has
  followed every epoch change, and holds no lease.
\<close>

theorem worker_serves:
  assumes "6 \<le> length argv" and "[] \<notin> set cs" and "\<forall>(t, p) \<in> set ms. fits_frame p"
    and "concat cs = write_frame (msg_type_value RegisterAck_C) (encode_register_ack \<lparr>ra_epoch = e, ra_worker = i, ra_ok = 1\<rparr>)
      @ concat (map (\<lambda>(t, p). write_frame t p) ms)"
  shows "\<exists>reg rs w. worker_main pr (\<lambda>h p b. cs) argv = Some (0, (msg_type_value Register_W, reg) # map answer rs, Some w) \<and>
    map bp_rid rs = build_ids (before_shutdown ms) \<and> w_epoch w = epoch_after e (before_shutdown ms) \<and>
    (\<forall>j. leases_of j (w_cache w) = 0)"
  using assms by (rule worker_session)

text \<open>
  A worker that is not acknowledged does nothing: when the first thing it reads is not a positive
  acknowledgement, be it another frame or the end of the connection, it exits with code 3 and has
  sent its registration only.
\<close>

theorem worker_needs_acknowledgement:
  assumes "6 \<le> length argv"
    and "\<forall>p cs' a. read_frame cs = Some ((msg_type_value RegisterAck_C, p), cs') \<and> decode_register_ack p = Inr a \<longrightarrow> ra_ok a \<noteq> 1"
  shows "\<exists>reg. worker_main pr (\<lambda>h p b. cs) argv = Some (3, [(msg_type_value Register_W, reg)], None)"
  using assms by (rule worker_unacknowledged)

text \<open>
  A client session is a conversation: the coordinator answers every lookup and every worker query
  that the client sends before a \<^verbatim>\<open>Shutdown\<close>, once and in order, and sends the client nothing else.
\<close>

theorem session_answers_requests:
  assumes "[] \<notin> set cs" and "concat cs = concat (map (\<lambda>(t, p). write_frame t p) ms)"
    and "\<forall>(t, p) \<in> set ms. fits_frame p"
  shows "map fst (fst (serve_client env asks n t p cs c)) = reply_types (before_shutdown ((t, p) # ms))"
  using assms
proof (induction ms arbitrary: cs n t p c)
  case Nil
  then have "cs = []" by (cases cs) auto
  obtain reply bc again c' where m: "serve_message env (asks n) t p c = (reply, bc, again, c')" by (metis surj_pair)
  show ?case
    using serve_message_replies [OF m] m \<open>cs = []\<close>
    by (auto simp: serve_client.simps [of env asks n t p "[]" c] read_frame_end before_shutdown_def reply_types_def)
next
  case (Cons x ms)
  obtain t' p' where x: "x = (t', p')" by (cases x)
  obtain cs' where r: "read_frame cs = Some ((t', p'), cs')" "concat cs' = concat (map (\<lambda>(t, p). write_frame t p) ms)"
    "[] \<notin> set cs'"
    using read_write_frame [OF Cons.prems(1), of t' p'] Cons.prems(2,3) x by auto
  obtain reply bc again c' where m: "serve_message env (asks n) t p c = (reply, bc, again, c')" by (metis surj_pair)
  obtain rs' bc' c'' where s: "serve_client env asks (Suc n) t' p' cs' c' = (rs', bc', c'')" by (metis surj_pair)
  have "map fst rs' = reply_types (before_shutdown ((t', p') # ms))"
    using Cons.IH [OF r(3,2), of "Suc n" t' p' c'] Cons.prems(3) s by simp
  then show ?case
    using serve_message_replies [OF m] m r(1) s x
    by (auto simp: serve_client.simps [of env asks n t p cs c] before_shutdown_def reply_types_def)
qed

subsection \<open>Witnesses\<close>

definition sample_process :: "StoredArtifact list Process" where
  "sample_process = \<lparr>pr_env = sample_env, pr_open = (\<lambda>d. Inr []), pr_cpu = text_backend, pr_cuda = None,
     pr_getenv = (\<lambda>v. None)\<rparr>"

definition sample_argv :: "string list" where
  "sample_argv = [''worker'', ''127.0.0.1'', ''41000'', ''1'', ''9'', ''9'']"

theorem worker_serves_witness:
  "\<exists>reg rs w. worker_main sample_process
      (\<lambda>h p b. [write_frame (msg_type_value RegisterAck_C) (encode_register_ack \<lparr>ra_epoch = 1, ra_worker = 1, ra_ok = 1\<rparr>),
        write_frame (msg_type_value RollEpoch) (encode_roll_epoch 5) @ write_frame (msg_type_value BuildReq) [1, 2],
        write_frame (msg_type_value Shutdown) []]) sample_argv =
      Some (0, (msg_type_value Register_W, reg) # map answer rs, Some w) \<and>
    length rs = 1 \<and> w_epoch w = 5"
proof -
  let ?ms = "[(msg_type_value RollEpoch, encode_roll_epoch 5), (msg_type_value BuildReq, [1, 2]), (msg_type_value Shutdown, [])]"
  have ne: "write_frame t p \<noteq> []" for t p by (simp add: write_frame_eq be_bytes_def upt_rec)
  have roll: "fits_frame (encode_roll_epoch 5)"
    by (simp add: fits_frame_def kDistMaxFrameBytes_def encode_roll_epoch_def enc_simps)
  then have dec: "decode_roll_epoch (encode_roll_epoch 5) = Inr 5" by (rule roll_epoch.round_trip [OF TrueI])
  have eff: "length (build_ids (before_shutdown ?ms)) = 1" "epoch_after 1 (before_shutdown ?ms) = 5"
    by (simp_all add: before_shutdown_def build_ids_def epoch_after_def dec)
  have arg: "6 \<le> length sample_argv" by (simp add: sample_argv_def)
  have fit: "\<forall>(t, p) \<in> set ?ms. fits_frame p" using roll by (simp add: fits_frame_def kDistMaxFrameBytes_def)
  have cat: "concat [write_frame (msg_type_value RegisterAck_C) (encode_register_ack \<lparr>ra_epoch = 1, ra_worker = 1, ra_ok = 1\<rparr>),
        write_frame (msg_type_value RollEpoch) (encode_roll_epoch 5) @ write_frame (msg_type_value BuildReq) [1, 2],
        write_frame (msg_type_value Shutdown) []] =
      write_frame (msg_type_value RegisterAck_C) (encode_register_ack \<lparr>ra_epoch = 1, ra_worker = 1, ra_ok = 1\<rparr>) @
      concat (map (\<lambda>(t, p). write_frame t p) ?ms)" by simp
  from worker_serves [OF arg _ fit cat, of sample_process] ne eff show ?thesis
    by (metis (no_types, lifting) append_is_Nil_conv empty_iff empty_set insert_iff length_map list.simps(15))
qed

theorem worker_needs_acknowledgement_witness:
  "\<exists>reg. worker_main sample_process (\<lambda>h p b. [write_frame (msg_type_value RollEpoch) (encode_roll_epoch 5)]) sample_argv
     = Some (3, [(msg_type_value Register_W, reg)], None)"
proof (rule worker_needs_acknowledgement)
  have "fits_frame (encode_roll_epoch 5)"
    by (simp add: fits_frame_def kDistMaxFrameBytes_def encode_roll_epoch_def enc_simps)
  from read_write_frame_whole [OF this]
  show "\<forall>p cs' a. read_frame [write_frame (msg_type_value RollEpoch) (encode_roll_epoch 5)] =
      Some ((msg_type_value RegisterAck_C, p), cs') \<and> decode_register_ack p = Inr a \<longrightarrow> ra_ok a \<noteq> 1" by simp
qed (simp add: sample_argv_def)

theorem session_answers_requests_witness:
  "map fst (fst (serve_client sample_env (\<lambda>n. sample_link) 0 (msg_type_value QueryWorkers) []
      [write_frame (msg_type_value LookupReq) [], write_frame (msg_type_value Shutdown) []] sample_coordinator)) =
    [msg_type_value QueryWorkersResp, msg_type_value LookupResp]"
  by (subst session_answers_requests [where ms = "[(msg_type_value LookupReq, []), (msg_type_value Shutdown, [])]"])
    (simp_all add: write_frame_eq be_bytes_def upt_rec fits_frame_def kDistMaxFrameBytes_def before_shutdown_def reply_types_def)

end
