(* ===== verification/KC_Threads.thy ===== *)
theory KC_Threads
  imports KC_Sessions
begin

text \<open>
  The threads of the coordinator. \<^verbatim>\<open>main\<close> hands every accepted connection to a thread of its own; the
  threads share the epoch, the generation, the workers and the worker sockets. A step is what one
  thread does between two points where others can come in: \<^verbatim>\<open>handle_conn\<close> publishes the slot of a
  worker before it reads the epoch and before it writes the acknowledgement, and \<^verbatim>\<open>RollEpoch\<close> stores
  the epoch, stores the generation and sends to the workers in three steps. Each frame is written in
  one go. The parts of a lookup are one step, and the build request that it may send to a worker is
  any; the coordinator's own answer to it is that of \<^const>\<open>handle_lookup\<close> over any link.
\<close>

datatype ConnPhase =
    P_First                          \<comment> \<open>accepted, the first frame not read yet\<close>
  | P_Registered WorkerId            \<comment> \<open>slot pushed\<close>
  | P_Acking u64 WorkerId            \<comment> \<open>epoch read, acknowledgement not written\<close>
  | P_Worker                         \<comment> \<open>thread gone, the socket belongs to the slot\<close>
  | P_Serve                          \<comment> \<open>in the loop of \<^verbatim>\<open>serve_client\<close>\<close>
  | P_Rolling u64                    \<comment> \<open>epoch stored\<close>
  | P_Sending u64                    \<comment> \<open>generation stored, workers not told\<close>
  | P_Closed

record 'p Net =
  net_co :: "'p Coordinator"
  net_phase :: "nat \<Rightarrow> ConnPhase option"
  net_wire :: "nat \<Rightarrow> (u16 \<times> bytes) list"

definition goes :: "nat \<Rightarrow> ConnPhase \<Rightarrow> 'p Net \<Rightarrow> 'p Net" where
  "goes fd ph n = n\<lparr>net_phase := (net_phase n)(fd := Some ph)\<rparr>"

definition sends :: "nat \<Rightarrow> (u16 \<times> bytes) list \<Rightarrow> 'p Net \<Rightarrow> 'p Net" where
  "sends fd fs n = n\<lparr>net_wire := (net_wire n)(fd := net_wire n fd @ fs)\<rparr>"

definition becomes :: "'p Coordinator \<Rightarrow> 'p Net \<Rightarrow> 'p Net" where
  "becomes c n = n\<lparr>net_co := c\<rparr>"

definition serving :: "ConnPhase option \<Rightarrow> bool" where
  "serving ph \<longleftrightarrow> ph = Some P_First \<or> ph = Some P_Serve"

definition push_slot :: "nat \<Rightarrow> RegisterMsg \<Rightarrow> 'p Coordinator \<Rightarrow> 'p Coordinator" where
  "push_slot fd m c = c\<lparr>g_workers := g_workers c @ [\<lparr>ws_fd = Some fd, ws_id = rg_worker m, ws_boot = rg_boot m\<rparr>]\<rparr>"

definition ack_frame :: "u64 \<Rightarrow> WorkerId \<Rightarrow> u16 \<times> bytes" where
  "ack_frame e w = (msg_type_value RegisterAck_C, encode_register_ack \<lparr>ra_epoch = e, ra_worker = w, ra_ok = 1\<rparr>)"

definition roll_frame :: "u64 \<Rightarrow> u16 \<times> bytes" where
  "roll_frame e = (msg_type_value RollEpoch, encode_roll_epoch e)"

definition build_frame :: "bytes \<Rightarrow> u16 \<times> bytes" where
  "build_frame q = (msg_type_value BuildReq, q)"

definition rolled_to :: "bytes \<Rightarrow> u64" where
  "rolled_to p = (case decode_roll_epoch p of Inr e \<Rightarrow> e | Inl _ \<Rightarrow> 0)"

text \<open>One frame for every slot of the socket.\<close>

definition broadcast :: "u64 \<Rightarrow> 'p Net \<Rightarrow> 'p Net" where
  "broadcast e n = n\<lparr>net_wire := (\<lambda>fd. net_wire n fd @
     map (\<lambda>w. roll_frame e) (filter (\<lambda>w. ws_fd w = Some fd) (g_workers (net_co n))))\<rparr>"

definition worker_fds :: "'p Coordinator \<Rightarrow> nat set" where
  "worker_fds c = {fd. \<exists>w \<in> set (g_workers c). ws_fd w = Some fd}"

text \<open>The set holds the connections that may roll the epoch.\<close>

inductive net_step :: "'p Env \<Rightarrow> nat set \<Rightarrow> 'p Net \<Rightarrow> 'p Net \<Rightarrow> bool" for env R where
  accept: "net_phase n fd = None \<or> net_phase n fd = Some P_Closed \<Longrightarrow>
    net_step env R n (goes fd P_First (n\<lparr>net_wire := (net_wire n)(fd := [])\<rparr>))"
| register: "net_phase n fd = Some P_First \<Longrightarrow> decode_register p = Inr m \<Longrightarrow>
    net_step env R n (goes fd (P_Registered (rg_worker m)) (becomes (push_slot fd m (net_co n)) n))"
| refuse: "net_phase n fd = Some P_First \<Longrightarrow> decode_register p = Inl e \<Longrightarrow> net_step env R n (goes fd P_Closed n)"
| load: "net_phase n fd = Some (P_Registered w) \<Longrightarrow> net_step env R n (goes fd (P_Acking (g_epoch (net_co n)) w) n)"
| ack: "net_phase n fd = Some (P_Acking e w) \<Longrightarrow> net_step env R n (goes fd P_Worker (sends fd [ack_frame e w] n))"
| roll: "serving (net_phase n fd) \<Longrightarrow> fd \<in> R \<Longrightarrow>
    net_step env R n (goes fd (P_Rolling (rolled_to p)) (becomes ((net_co n)\<lparr>g_epoch := rolled_to p\<rparr>) n))"
| roll_gen: "net_phase n fd = Some (P_Rolling e) \<Longrightarrow>
    net_step env R n (goes fd (P_Sending e) (becomes ((net_co n)\<lparr>g_gen := e\<rparr>) n))"
| roll_send: "net_phase n fd = Some (P_Sending e) \<Longrightarrow> net_step env R n (goes fd P_Serve (broadcast e n))"
| lookup: "serving (net_phase n fd) \<Longrightarrow> handle_lookup env ask p (net_co n) = (m, c) \<Longrightarrow>
    wfd \<in> worker_fds (net_co n) \<or> reqs = [] \<Longrightarrow>
    net_step env R n (goes fd P_Serve (sends fd [(msg_type_value LookupResp, encode_lookup_response m)]
      (sends wfd (map build_frame reqs) (becomes c n))))"
| query: "serving (net_phase n fd) \<Longrightarrow>
    net_step env R n (goes fd P_Serve (sends fd [(msg_type_value QueryWorkersResp, handle_query (net_co n))] n))"
| ignore: "serving (net_phase n fd) \<Longrightarrow> net_step env R n (goes fd P_Serve n)"
| close: "serving (net_phase n fd) \<Longrightarrow> net_step env R n (goes fd P_Closed n)"

definition net_start :: "'p Coordinator \<Rightarrow> 'p Net" where
  "net_start c = \<lparr>net_co = c, net_phase = (\<lambda>fd. None), net_wire = (\<lambda>fd. [])\<rparr>"

abbreviation net_runs :: "'p Env \<Rightarrow> nat set \<Rightarrow> 'p Coordinator \<Rightarrow> 'p Net \<Rightarrow> bool" where
  "net_runs env R c \<equiv> (net_step env R)\<^sup>*\<^sup>* (net_start c)"

subsection \<open>Invariant\<close>

definition busy :: "ConnPhase option \<Rightarrow> bool" where
  "busy ph \<longleftrightarrow> (\<exists>e. ph = Some (P_Rolling e) \<or> ph = Some (P_Sending e))"

definition acked :: "(u16 \<times> bytes) list \<Rightarrow> bool" where
  "acked fs \<longleftrightarrow> fs \<noteq> [] \<and> fst (hd fs) = msg_type_value RegisterAck_C"

text \<open>The acknowledgement comes first and the frames after it lead to the given epoch.\<close>

definition follows :: "(u64 \<Rightarrow> bool) \<Rightarrow> (u16 \<times> bytes) list \<Rightarrow> bool" where
  "follows good fs \<longleftrightarrow> (acked fs \<longrightarrow> (\<exists>e i ms. fs = ack_frame e i # ms \<and> good (epoch_after e ms)))"

definition socket_ok :: "u64 \<Rightarrow> bool \<Rightarrow> bool \<Rightarrow> ConnPhase option \<Rightarrow> (u16 \<times> bytes) list \<Rightarrow> bool" where
  "socket_ok ep bsy reg ph fs \<longleftrightarrow>
     (case ph of
        Some P_First \<Rightarrow> \<not> reg \<and> fs = []
      | Some (P_Registered w) \<Rightarrow> reg \<and> \<not> acked fs
      | Some (P_Acking e w) \<Rightarrow> reg \<and> \<not> acked fs \<and> (fs = [] \<longrightarrow> e = ep \<or> bsy)
      | Some P_Worker \<Rightarrow> reg \<and> follows (\<lambda>e. e = ep \<or> bsy) fs
      | _ \<Rightarrow> \<not> reg) \<and>
     (reg \<longrightarrow> (\<forall>f \<in> set fs. fst f \<noteq> msg_type_value Shutdown))"

lemma net_sel [simp]:
  "net_co (goes fd ph n) = net_co n" "net_co (sends fd fs n) = net_co n" "net_co (becomes c n) = c"
  "net_co (broadcast e n) = net_co n"
  "net_phase (goes fd ph n) = (net_phase n)(fd := Some ph)" "net_phase (sends fd fs n) = net_phase n"
  "net_phase (becomes c n) = net_phase n" "net_phase (broadcast e n) = net_phase n"
  "net_wire (goes fd ph n) = net_wire n" "net_wire (sends fd fs n) = (net_wire n)(fd := net_wire n fd @ fs)"
  "net_wire (becomes c n) = net_wire n"
  by (simp_all add: goes_def sends_def becomes_def broadcast_def)

lemma push_slot_sel [simp]:
  "g_epoch (push_slot fd m c) = g_epoch c" "worker_fds (push_slot fd m c) = insert fd (worker_fds c)"
  by (auto simp: push_slot_def worker_fds_def)

lemma worker_fds_update [simp]: "worker_fds (c\<lparr>g_epoch := e\<rparr>) = worker_fds c" "worker_fds (c\<lparr>g_gen := e\<rparr>) = worker_fds c"
  by (simp_all add: worker_fds_def)

lemma serving_busy [simp]: "serving ph \<Longrightarrow> \<not> busy ph"
  by (auto simp: serving_def busy_def)

lemma busy_simps [simp]:
  "\<not> busy None" "\<not> busy (Some P_First)" "\<not> busy (Some (P_Registered w))" "\<not> busy (Some (P_Acking e w))"
  "\<not> busy (Some P_Worker)" "\<not> busy (Some P_Serve)" "\<not> busy (Some P_Closed)" "busy (Some (P_Rolling e))" "busy (Some (P_Sending e))"
  by (simp_all add: busy_def)

lemma handle_lookup_frame: "handle_lookup env ask p c = (m, c') \<Longrightarrow> g_epoch c' = g_epoch c \<and> worker_fds c' = worker_fds c"
  by (auto simp: handle_lookup_def serve_lookup_def worker_fds_def Let_def
      split: prod.splits sum.splits if_splits option.splits)

lemma roll_frame_decodes: "decode_roll_epoch (encode_roll_epoch e) = Inr e"
  by (rule roll_epoch.round_trip [OF TrueI]) (simp add: fits_frame_def kDistMaxFrameBytes_def encode_roll_epoch_def enc_simps)

lemma epoch_after_append: "epoch_after e (xs @ ys) = epoch_after (epoch_after e xs) ys"
  by (simp add: epoch_after_def)

lemma epoch_after_rolls: "ws \<noteq> [] \<Longrightarrow> epoch_after e (map (\<lambda>w. roll_frame k) ws) = k"
  by (induction ws arbitrary: e rule: list_nonempty_induct) (simp_all add: epoch_after_def roll_frame_def roll_frame_decodes)

lemma epoch_after_builds: "epoch_after e (map build_frame qs) = e"
  by (induction qs) (simp_all add: epoch_after_def build_frame_def)

lemma follows_append:
  assumes "follows good fs" and "\<not> acked gs" and "\<And>e. good e \<Longrightarrow> good' (epoch_after e gs)"
  shows "follows good' (fs @ gs)"
proof (cases "fs = []")
  case False
  then have a: "acked (fs @ gs) = acked fs" by (simp add: acked_def)
  show ?thesis unfolding follows_def a
  proof
    assume "acked fs"
    then obtain e i ms where "fs = ack_frame e i # ms" "good (epoch_after e ms)" using assms(1) by (auto simp: follows_def)
    then show "\<exists>e i ms. fs @ gs = ack_frame e i # ms \<and> good' (epoch_after e ms)"
      using assms(3) by (intro exI [of _ e] exI [of _ i] exI [of _ "ms @ gs"]) (simp add: epoch_after_append)
  qed
qed (use assms(2) in \<open>simp add: follows_def\<close>)

lemma acked_append: "acked (fs @ gs) = (if fs = [] then acked gs else acked fs)"
  by (simp add: acked_def)

lemma not_acked [simp]:
  "\<not> acked []" "\<not> acked (map (\<lambda>w. roll_frame k) ws)" "\<not> acked (map build_frame qs)"
  by (auto simp: acked_def roll_frame_def build_frame_def hd_map)

lemma frame_types [simp]:
  "fst (roll_frame e) \<noteq> msg_type_value Shutdown" "fst (build_frame q) \<noteq> msg_type_value Shutdown"
  "fst (ack_frame e w) \<noteq> msg_type_value Shutdown"
  by (simp_all add: roll_frame_def build_frame_def ack_frame_def)

text \<open>A socket on which nothing happens.\<close>

lemma socket_ok_mono:
  "socket_ok ep b g ph fs \<Longrightarrow> (b \<longrightarrow> b') \<Longrightarrow> ep' = ep \<or> b' \<Longrightarrow> socket_ok ep' b' g ph fs"
  by (fastforce simp: socket_ok_def follows_def split: option.splits ConnPhase.splits)

text \<open>A worker's socket to which build requests or the current epoch are written.\<close>

lemma socket_ok_append:
  assumes "socket_ok ep b True ph fs" and "\<not> acked gs" and "\<forall>f \<in> set gs. fst f \<noteq> msg_type_value Shutdown"
    and "gs \<noteq> []" and "\<And>e. e = ep \<or> b \<Longrightarrow> epoch_after e gs = ep \<or> b'"
  shows "socket_ok ep b' True ph (fs @ gs)"
  using assms(1-4) follows_append [of "\<lambda>e. e = ep \<or> b" fs gs "\<lambda>e. e = ep \<or> b'"] assms(5)
  by (auto simp: socket_ok_def acked_append simp del: msg_type_value.simps split: option.splits ConnPhase.splits)

lemma socket_ok_builds: "socket_ok ep b True ph fs \<Longrightarrow> socket_ok ep b True ph (fs @ map build_frame qs)"
  by (cases "qs = []") (simp_all add: epoch_after_builds socket_ok_append del: msg_type_value.simps)

lemma socket_ok_rolls:
  "socket_ok ep b True ph fs \<Longrightarrow> ws \<noteq> [] \<Longrightarrow> socket_ok ep b' True ph (fs @ map (\<lambda>w. roll_frame ep) ws)"
  by (rule socket_ok_append) (auto simp: epoch_after_rolls simp del: msg_type_value.simps)

lemma socket_ok_ack:
  assumes "socket_ok ep b True (Some (P_Acking e w)) fs"
  shows "socket_ok ep b True (Some P_Worker) (fs @ [ack_frame e w])"
proof (cases "fs = []")
  case True
  then have "e = ep \<or> b" using assms by (simp add: socket_ok_def)
  then have "follows (\<lambda>x. x = ep \<or> b) [ack_frame e w]"
    by (auto simp: follows_def epoch_after_def)
  then show ?thesis using True by (simp add: socket_ok_def del: msg_type_value.simps)
next
  case False
  then have "\<not> acked (fs @ [ack_frame e w])" using assms by (simp add: socket_ok_def acked_append)
  then show ?thesis using assms by (auto simp: socket_ok_def follows_def simp del: msg_type_value.simps)
qed

definition roller_ok :: "nat \<Rightarrow> 'p Net \<Rightarrow> bool" where
  "roller_ok r n \<longleftrightarrow>
     (\<forall>fd e. net_phase n fd = Some (P_Rolling e) \<or> net_phase n fd = Some (P_Sending e) \<longrightarrow> fd = r \<and> e = g_epoch (net_co n))"

lemma roller_step: "net_step env {r} n n' \<Longrightarrow> roller_ok r n \<Longrightarrow> roller_ok r n'"
  by (induction rule: net_step.induct) (auto simp: roller_ok_def dest: handle_lookup_frame)

lemma socket_ok_cases:
  "socket_ok ep b g (Some P_First) fs \<longleftrightarrow> \<not> g \<and> fs = []"
  "socket_ok ep b g (Some P_Serve) fs \<longleftrightarrow> \<not> g" "socket_ok ep b g (Some P_Closed) fs \<longleftrightarrow> \<not> g"
  "socket_ok ep b g (Some (P_Rolling e)) fs \<longleftrightarrow> \<not> g" "socket_ok ep b g (Some (P_Sending e)) fs \<longleftrightarrow> \<not> g"
  "socket_ok ep b g None fs \<longleftrightarrow> \<not> g"
  by (auto simp: socket_ok_def)

lemma serving_not_worker: "serving ph \<Longrightarrow> socket_ok ep b g ph fs \<Longrightarrow> \<not> g"
  by (auto simp: serving_def socket_ok_cases)

definition sockets_ok :: "nat \<Rightarrow> 'p Net \<Rightarrow> bool" where
  "sockets_ok r n \<longleftrightarrow> (\<forall>fd. socket_ok (g_epoch (net_co n)) (busy (net_phase n r)) (fd \<in> worker_fds (net_co n))
     (net_phase n fd) (net_wire n fd))"

text \<open>Steps that concern one socket.\<close>

lemma sockets_one:
  assumes "sockets_ok r n" and "busy (net_phase n r) \<longrightarrow> busy (net_phase n' r)"
    and "g_epoch (net_co n') = g_epoch (net_co n) \<or> busy (net_phase n' r)"
    and "\<And>x. x \<noteq> fd \<Longrightarrow> net_phase n' x = net_phase n x \<and> net_wire n' x = net_wire n x \<and>
      (x \<in> worker_fds (net_co n')) = (x \<in> worker_fds (net_co n))"
    and "socket_ok (g_epoch (net_co n')) (busy (net_phase n' r)) (fd \<in> worker_fds (net_co n')) (net_phase n' fd) (net_wire n' fd)"
  shows "sockets_ok r n'"
  unfolding sockets_ok_def
proof
  fix x
  show "socket_ok (g_epoch (net_co n')) (busy (net_phase n' r)) (x \<in> worker_fds (net_co n')) (net_phase n' x) (net_wire n' x)"
  proof (cases "x = fd")
    case False
    with assms(4) have "net_phase n' x = net_phase n x" "net_wire n' x = net_wire n x"
      "(x \<in> worker_fds (net_co n')) = (x \<in> worker_fds (net_co n))" by blast+
    moreover have "socket_ok (g_epoch (net_co n)) (busy (net_phase n r)) (x \<in> worker_fds (net_co n)) (net_phase n x) (net_wire n x)"
      using assms(1) by (simp add: sockets_ok_def)
    ultimately show ?thesis using socket_ok_mono assms(2,3) by simp
  qed (use assms(5) in simp)
qed

lemma sockets_okD: "sockets_ok r n \<Longrightarrow> net_phase n fd = ph \<Longrightarrow>
  socket_ok (g_epoch (net_co n)) (busy (net_phase n r)) (fd \<in> worker_fds (net_co n)) ph (net_wire n fd)"
  by (auto simp: sockets_ok_def)

lemma sockets_serving: "sockets_ok r n \<Longrightarrow> serving (net_phase n fd) \<Longrightarrow> fd \<notin> worker_fds (net_co n)"
  using serving_not_worker sockets_okD by blast

lemma sockets_lookup:
  assumes "sockets_ok r n" and "serving (net_phase n fd)" and "g_epoch c = g_epoch (net_co n)"
    and "worker_fds c = worker_fds (net_co n)" and "wfd \<in> worker_fds (net_co n) \<or> reqs = []"
  shows "sockets_ok r (goes fd P_Serve (sends fd fs (sends wfd (map build_frame reqs) (becomes c n))))"
proof -
  let ?n1 = "sends wfd (map build_frame reqs) (becomes c n)"
  have wfd: "socket_ok (g_epoch (net_co n)) (busy (net_phase n r)) (wfd \<in> worker_fds (net_co n)) (net_phase n wfd)
      (net_wire n wfd @ map build_frame reqs)"
    using assms(5) sockets_okD [OF assms(1) refl, of wfd] socket_ok_builds by (cases "reqs = []") auto
  have one: "sockets_ok r ?n1"
    by (rule sockets_one [OF assms(1), where fd = wfd]) (use wfd assms(3,4) in auto)
  show ?thesis
    by (rule sockets_one [OF one, where fd = fd])
      (use assms sockets_serving [OF assms(1,2)] in \<open>auto simp: socket_ok_cases\<close>)
qed

lemma sockets_broadcast:
  assumes "sockets_ok r n" and "net_phase n r = Some (P_Sending (g_epoch (net_co n)))"
  shows "sockets_ok r (goes r P_Serve (broadcast (g_epoch (net_co n)) n))"
  unfolding sockets_ok_def
proof
  fix x
  let ?e = "g_epoch (net_co n)" and ?ws = "filter (\<lambda>w. ws_fd w = Some x) (g_workers (net_co n))"
  note ok = sockets_okD [OF assms(1) refl, of x]
  have "socket_ok ?e False (x \<in> worker_fds (net_co n)) (((net_phase n)(r := Some P_Serve)) x)
      (net_wire n x @ map (\<lambda>w. roll_frame ?e) ?ws)"
  proof (cases "x \<in> worker_fds (net_co n)")
    case True
    then have "?ws \<noteq> []" by (auto simp: worker_fds_def filter_empty_conv)
    moreover have "x \<noteq> r" using ok True assms(2) by (auto simp: socket_ok_cases)
    ultimately show ?thesis using ok True by (simp add: socket_ok_rolls)
  next
    case False
    then have "?ws = []" by (auto simp: worker_fds_def filter_empty_conv)
    with False show ?thesis using ok by (auto simp: socket_ok_def split: option.splits ConnPhase.splits)
  qed
  then show "socket_ok (g_epoch (net_co (goes r P_Serve (broadcast ?e n)))) (busy (net_phase (goes r P_Serve (broadcast ?e n)) r))
      (x \<in> worker_fds (net_co (goes r P_Serve (broadcast ?e n)))) (net_phase (goes r P_Serve (broadcast ?e n)) x)
      (net_wire (goes r P_Serve (broadcast ?e n)) x)"
    by (simp add: broadcast_def)
qed

lemma sockets_step: "net_step env {r} n n' \<Longrightarrow> roller_ok r n \<Longrightarrow> sockets_ok r n \<Longrightarrow> sockets_ok r n'"
proof (induction rule: net_step.induct)
  case (accept n fd)
  show ?case by (rule sockets_one [OF accept(3), where fd = fd]) (use accept sockets_okD [OF accept(3) refl, of fd] in \<open>auto simp: socket_ok_cases\<close>)
next
  case (register n fd p m)
  note ok = sockets_okD [OF register(4,1)]
  then have "socket_ok (g_epoch (net_co n)) (busy (net_phase n r)) True (Some (P_Registered (rg_worker m))) (net_wire n fd)"
    by (simp add: socket_ok_cases) (simp add: socket_ok_def)
  then show ?case by (intro sockets_one [OF register(4), where fd = fd]) (use register in auto)
next
  case (refuse n fd p e)
  show ?case by (rule sockets_one [OF refuse(4), where fd = fd]) (use refuse sockets_okD [OF refuse(4,1)] in \<open>auto simp: socket_ok_cases\<close>)
next
  case (load n fd w)
  have "socket_ok (g_epoch (net_co n)) (busy (net_phase n r)) (fd \<in> worker_fds (net_co n)) (Some (P_Acking (g_epoch (net_co n)) w)) (net_wire n fd)"
    using sockets_okD [OF load(3,1)] by (auto simp: socket_ok_def)
  then show ?case by (intro sockets_one [OF load(3), where fd = fd]) (use load in auto)
next
  case (ack n fd e w)
  note ok = sockets_okD [OF ack(3,1)]
  then have "fd \<in> worker_fds (net_co n)" by (simp add: socket_ok_def)
  with ok show ?case by (intro sockets_one [OF ack(3), where fd = fd]) (use ack in \<open>auto intro: socket_ok_ack\<close>)
next
  case (roll n fd p)
  show ?case
    by (rule sockets_one [OF roll(4), where fd = fd]) (use roll sockets_serving [OF roll(4,1)] in \<open>auto simp: socket_ok_cases\<close>)
next
  case (roll_gen n fd e)
  show ?case
    by (rule sockets_one [OF roll_gen(3), where fd = fd]) (use roll_gen sockets_okD [OF roll_gen(3,1)] in \<open>auto simp: socket_ok_cases\<close>)
next
  case (roll_send n fd e)
  then have "fd = r" "e = g_epoch (net_co n)" by (auto simp: roller_ok_def)
  with roll_send show ?case using sockets_broadcast by simp
next
  case (lookup n fd ask p m c wfd reqs)
  from handle_lookup_frame [OF lookup(2)] show ?case by (intro sockets_lookup lookup(1,3,5)) simp_all
next
  case (query n fd)
  show ?case
    by (rule sockets_one [OF query(3), where fd = fd]) (use query sockets_serving [OF query(3,1)] in \<open>auto simp: socket_ok_cases\<close>)
next
  case (ignore n fd)
  show ?case
    by (rule sockets_one [OF ignore(3), where fd = fd]) (use ignore sockets_serving [OF ignore(3,1)] in \<open>auto simp: socket_ok_cases\<close>)
next
  case (close n fd)
  show ?case
    by (rule sockets_one [OF close(3), where fd = fd]) (use close sockets_serving [OF close(3,1)] in \<open>auto simp: socket_ok_cases\<close>)
qed

lemma net_runs_inv:
  assumes "net_runs env {r} c n" and "g_workers c = []"
  shows "roller_ok r n \<and> sockets_ok r n"
  using assms(1)
proof (induction rule: rtranclp_induct)
  case base
  then show ?case
    using assms(2) by (simp add: net_start_def roller_ok_def sockets_ok_def socket_ok_cases worker_fds_def)
next
  case (step n n')
  then show ?case using roller_step sockets_step by blast
qed

lemma worker_follows:
  assumes "6 \<le> length argv" and "[] \<notin> set cs" and "\<forall>(t, p) \<in> set ms. fits_frame p"
    and "concat cs = concat (map (\<lambda>(t, p). write_frame t p) (ack_frame e i # ms))"
    and "\<forall>f \<in> set ms. fst f \<noteq> msg_type_value Shutdown"
  shows "\<exists>fs w. worker_main pr (\<lambda>h p b. cs) argv = Some (0, fs, Some w) \<and> w_epoch w = epoch_after e ms"
proof -
  have "before_shutdown ms = ms"
    using assms(5) by (auto simp: before_shutdown_def takeWhile_eq_all_conv simp del: msg_type_value.simps)
  then show ?thesis using worker_session [OF assms(1-3), of e i pr] assms(4) by (auto simp: ack_frame_def)
qed

subsection \<open>Playing a schedule\<close>

datatype NetEvent = E_accept nat | E_register nat bytes | E_load nat | E_ack nat | E_roll nat bytes | E_gen nat | E_send nat

fun net_exec :: "NetEvent \<Rightarrow> 'p Net \<Rightarrow> 'p Net option" where
  "net_exec (E_accept fd) n =
     (case net_phase n fd of None \<Rightarrow> Some (goes fd P_First (n\<lparr>net_wire := (net_wire n)(fd := [])\<rparr>)) | _ \<Rightarrow> None)"
| "net_exec (E_register fd p) n =
     (case (net_phase n fd, decode_register p) of
        (Some P_First, Inr m) \<Rightarrow> Some (goes fd (P_Registered (rg_worker m)) (becomes (push_slot fd m (net_co n)) n))
      | _ \<Rightarrow> None)"
| "net_exec (E_load fd) n =
     (case net_phase n fd of Some (P_Registered w) \<Rightarrow> Some (goes fd (P_Acking (g_epoch (net_co n)) w) n) | _ \<Rightarrow> None)"
| "net_exec (E_ack fd) n =
     (case net_phase n fd of Some (P_Acking e w) \<Rightarrow> Some (goes fd P_Worker (sends fd [ack_frame e w] n)) | _ \<Rightarrow> None)"
| "net_exec (E_roll fd p) n =
     (if serving (net_phase n fd)
      then Some (goes fd (P_Rolling (rolled_to p)) (becomes ((net_co n)\<lparr>g_epoch := rolled_to p\<rparr>) n)) else None)"
| "net_exec (E_gen fd) n =
     (case net_phase n fd of
        Some (P_Rolling e) \<Rightarrow> Some (goes fd (P_Sending e) (becomes ((net_co n)\<lparr>g_gen := e\<rparr>) n)) | _ \<Rightarrow> None)"
| "net_exec (E_send fd) n =
     (case net_phase n fd of Some (P_Sending e) \<Rightarrow> Some (goes fd P_Serve (broadcast e n)) | _ \<Rightarrow> None)"

fun net_play :: "NetEvent list \<Rightarrow> 'p Net \<Rightarrow> 'p Net option" where
  "net_play [] n = Some n"
| "net_play (ev # evs) n = (case net_exec ev n of None \<Rightarrow> None | Some n' \<Rightarrow> net_play evs n')"

fun rolls_in :: "nat set \<Rightarrow> NetEvent \<Rightarrow> bool" where
  "rolls_in R (E_roll fd p) = (fd \<in> R)"
| "rolls_in R _ = True"

lemma net_exec_step: "net_exec ev n = Some n' \<Longrightarrow> rolls_in R ev \<Longrightarrow> net_step env R n n'"
  by (cases ev) (auto intro: net_step.intros split: option.splits ConnPhase.splits sum.splits if_splits)

lemma net_play_runs:
  "net_play evs n = Some n' \<Longrightarrow> \<forall>ev \<in> set evs. rolls_in R ev \<Longrightarrow> (net_step env R)\<^sup>*\<^sup>* n n'"
proof (induction evs arbitrary: n)
  case (Cons ev evs)
  then show ?case
    by (auto split: option.splits intro: converse_rtranclp_into_rtranclp net_exec_step)
qed simp

definition sample_registration :: RegisterMsg where
  "sample_registration = \<lparr>rg_worker = 1, rg_boot = mk_id 9 9, rg_gen = 1\<rparr>"

lemma register_round: "decode_register (encode_register m) = Inr m"
  by (rule register.round_trip [OF TrueI])
    (simp add: fits_frame_def kDistMaxFrameBytes_def encode_register_def enc_simps enc_id_def)

lemma roll_frame_fits: "fits_frame (encode_roll_epoch e)"
  by (simp add: fits_frame_def kDistMaxFrameBytes_def encode_roll_epoch_def enc_simps)

lemma write_frame_nonempty: "write_frame t p \<noteq> []" "[] \<noteq> write_frame t p"
  by (auto simp: write_frame_def Let_def)

lemmas play_simps = net_start_def register_round sample_registration_def rolled_to_def roll_frame_decodes serving_def
  broadcast_def goes_def sends_def becomes_def push_slot_def worker_fds_def

subsection \<open>Properties\<close>


text \<open>
  Two connections that roll the epoch at the same time can leave coordinator and worker apart for
  good: there is an interleaving after which no thread is busy, and a worker that has read all its
  frames is at another epoch than the coordinator.
\<close>

theorem overlapping_rolls_diverge:
  assumes "g_workers c = []" and "6 \<le> length argv"
  shows "\<exists>n fs w. net_runs env UNIV c n \<and> (\<forall>fd. \<not> busy (net_phase n fd)) \<and> 0 \<in> worker_fds (net_co n) \<and>
    worker_main pr (\<lambda>h p b. map (\<lambda>(t, p). write_frame t p) (net_wire n 0)) argv = Some (0, fs, Some w) \<and>
    w_epoch w \<noteq> g_epoch (net_co n)"
proof -
  let ?evs = "[E_accept 0, E_register 0 (encode_register sample_registration), E_load 0, E_ack 0, E_accept 1, E_accept 2,
    E_roll 1 (encode_roll_epoch 5), E_roll 2 (encode_roll_epoch 7), E_gen 2, E_send 2, E_gen 1, E_send 1]"
  obtain n where n: "net_play ?evs (net_start c) = Some n" "g_epoch (net_co n) = 7" "0 \<in> worker_fds (net_co n)"
    "net_wire n 0 = [ack_frame (g_epoch c) 1, roll_frame 7, roll_frame 5]" "\<forall>fd. \<not> busy (net_phase n fd)"
    using assms(1) by (simp add: play_simps)
  have run: "net_runs env UNIV c n" using net_play_runs [OF n(1), of UNIV env] by simp
  have "\<exists>fs w. worker_main pr (\<lambda>h p b. map (\<lambda>(t, p). write_frame t p) (net_wire n 0)) argv = Some (0, fs, Some w) \<and>
      w_epoch w = epoch_after (g_epoch c) [roll_frame 7, roll_frame 5]"
    by (rule worker_follows [OF assms(2), where i = 1])
      (use n(4) in \<open>auto simp: write_frame_nonempty roll_frame_fits [unfolded roll_frame_def] roll_frame_def ack_frame_def\<close>)
  moreover have "epoch_after (g_epoch c) [roll_frame 7, roll_frame 5] = 5"
    by (simp add: epoch_after_def roll_frame_def roll_frame_decodes)
  ultimately show ?thesis using run n(2,3,5) by fastforce
qed

text \<open>
  A worker can be lost while it registers: the slot is visible before the acknowledgement is
  written, so a roll can put its frame first. There is an interleaving, with a single roll, after which
  no thread is busy and the worker is registered for good, but the process has exited with code 3.
\<close>

theorem registration_race:
  assumes "g_workers c = []" and "6 \<le> length argv"
  shows "\<exists>n reg. net_runs env {1} c n \<and> (\<forall>fd. \<not> busy (net_phase n fd)) \<and> 0 \<in> worker_fds (net_co n) \<and>
    worker_main pr (\<lambda>h p b. map (\<lambda>(t, p). write_frame t p) (net_wire n 0)) argv =
      Some (3, [(msg_type_value Register_W, reg)], None)"
proof -
  let ?evs = "[E_accept 0, E_register 0 (encode_register sample_registration), E_load 0, E_accept 1,
    E_roll 1 (encode_roll_epoch 5), E_gen 1, E_send 1, E_ack 0]"
  obtain n where n: "net_play ?evs (net_start c) = Some n" "0 \<in> worker_fds (net_co n)"
    "net_wire n 0 = [roll_frame 5, ack_frame (g_epoch c) 1]" "\<forall>fd. \<not> busy (net_phase n fd)"
    using assms(1) by (simp add: play_simps)
  have run: "net_runs env {1} c n" using net_play_runs [OF n(1), of "{1}" env] by simp
  have "read_frame (map (\<lambda>(t, p). write_frame t p) (net_wire n 0)) = Some (roll_frame 5, cs') \<Longrightarrow>
      fst (roll_frame 5) \<noteq> msg_type_value RegisterAck_C" for cs' by (simp add: roll_frame_def)
  moreover obtain cs' where "read_frame (map (\<lambda>(t, p). write_frame t p) (net_wire n 0)) = Some (roll_frame 5, cs')"
    using read_write_frame [of "map (\<lambda>(t, p). write_frame t p) (net_wire n 0)" "fst (roll_frame 5)" "snd (roll_frame 5)"]
      n(3) roll_frame_fits [of 5] by (auto simp: write_frame_nonempty roll_frame_def ack_frame_def)
  ultimately have "\<exists>reg. worker_main pr (\<lambda>h p b. map (\<lambda>(t, p). write_frame t p) (net_wire n 0)) argv =
      Some (3, [(msg_type_value Register_W, reg)], None)"
    by (intro worker_unacknowledged [OF assms(2)]) (simp add: roll_frame_def)
  with run n(2,4) show ?thesis by blast
qed

text \<open>
  \<^verbatim>\<open>dispatch_build\<close> and \<^verbatim>\<open>RollEpoch\<close> write to a worker's socket under different mutexes, and a frame is
  written in two calls. When one frame comes between the header and the payload of another, the reader
  takes its bytes for the payload.
\<close>

theorem interleaved_writes_misread:
  assumes "fits_frame p" and "concat cs = take 8 (write_frame t p) @ write_frame t' p' @ p" and "[] \<notin> set cs"
  shows "\<exists>cs'. read_frame cs = Some ((t, take (length p) (write_frame t' p' @ p)), cs')"
proof -
  let ?q = "take (length p) (write_frame t' p' @ p)"
  have len: "length ?q = length p" by simp
  then have "take 8 (write_frame t p) = take 8 (write_frame t ?q)" by (simp add: write_frame_def Let_def)
  moreover have "write_frame t ?q = take 8 (write_frame t ?q) @ ?q" by (rule write_frame_split(1))
  ultimately have "concat cs = write_frame t ?q @ drop (length p) (write_frame t' p' @ p)"
    using assms(2) by (metis append.assoc append_take_drop_id)
  moreover have "fits_frame ?q" using assms(1) len by (simp add: fits_frame_def)
  ultimately show ?thesis using read_write_frame [OF assms(3)] by blast
qed

subsection \<open>Witnesses\<close>

lemma sample_coordinator_start: "g_workers (sample_coordinator\<lparr>g_workers := []\<rparr>) = []"
  by simp


theorem registration_race_witness:
  "\<exists>n reg. net_runs sample_env {1} (sample_coordinator\<lparr>g_workers := []\<rparr>) n \<and> (\<forall>fd. \<not> busy (net_phase n fd)) \<and>
    0 \<in> worker_fds (net_co n) \<and>
    worker_main sample_process (\<lambda>h p b. map (\<lambda>(t, p). write_frame t p) (net_wire n 0)) sample_argv =
      Some (3, [(msg_type_value Register_W, reg)], None)"
  by (rule registration_race) (simp_all add: sample_argv_def)

end
