(* ===== verification/KC_KeyDecode.thy ===== *)
theory KC_KeyDecode
  imports KC_Key
begin

text \<open>
  What the decoder of canonical keys (\<^verbatim>\<open>KernelCompatibilityKey::from_canonical\<close>, \<^verbatim>\<open>src/key.cpp\<close>) guarantees
  for arbitrary bytes, such as those a coordinator or a worker receives.
\<close>

text \<open>Every string and list of the key fits its counter, as in \<^const>\<open>key_wf\<close>.\<close>

definition short :: "string \<Rightarrow> bool" where
  "short s \<longleftrightarrow> length s < 2 ^ 64"

definition few :: "'a list \<Rightarrow> bool" where
  "few xs \<longleftrightarrow> length xs < 2 ^ 32"

definition key_fits :: "KernelCompatibilityKey \<Rightarrow> bool" where
  "key_fits k \<longleftrightarrow>
     list_all short [operation k, artifact_format k, arch k, runtime_backend k, compiler_name k, compiler_backend k,
       abi_name k, kernel_interface_signature k, launch_abi k, model_revision k, operator_revision k, quantization_kind k] \<and>
     few (scalar_param_types k) \<and> list_all short (scalar_param_types k) \<and> few (dtypes k) \<and> few (layouts k) \<and> few (shape k) \<and>
     few (symbolic_shape_constraints k) \<and> list_all short (symbolic_shape_constraints k) \<and>
     few (codegen_flags k) \<and> list_all short (codegen_flags k) \<and>
     few (specialization k) \<and> list_all (\<lambda>p. short (fst p) \<and> short (snd p)) (specialization k)"

lemma key_fits_wf: "key_fits k \<Longrightarrow> distinct (map fst (specialization k)) \<Longrightarrow> key_wf k"
  by (simp add: key_fits_def key_wf_def short_def few_def list_all_iff)

lemma key_fits_finalize: "finalize k = (True, k') \<Longrightarrow> key_fits k \<Longrightarrow> key_fits k'"
  by (auto simp: finalize_True key_fits_def derive_def canonicalize_def few_def list_all_iff sort_strings_def sort_pairs_def)

lemma r_str_short: "r_str r = Some (s, r') \<Longrightarrow> short s"
proof -
  assume a: "r_str r = Some (s, r')"
  then obtain len :: u64 and x where "r_u64 r = Some (len, x)" by (auto simp: r_str_def split: bind_splits)
  with a have "length s \<le> unat len" by (auto simp: r_str_def string_of_bytes_def split: if_splits)
  moreover have "unat len < 2 ^ LENGTH(64)" by (rule unsigned_less)
  ultimately show "short s" by (simp add: short_def)
qed

lemma r_pair_short: "r_pair r = Some (p, r') \<Longrightarrow> short (fst p) \<and> short (snd p)"
  by (auto simp: r_pair_def split: bind_splits) (metis r_str_short)+

lemma r_many_length: "r_many n f r = Some (xs, r') \<Longrightarrow> length xs = n"
  by (induction n f r arbitrary: xs r' rule: r_many.induct) (auto split: bind_splits)

lemma r_counted_few: "r_many (unat (c :: u32)) f r = Some (xs, r') \<Longrightarrow> few xs"
proof -
  assume "r_many (unat c) f r = Some (xs, r')"
  moreover have "unat c < 2 ^ LENGTH(32)" by (rule unsigned_less)
  ultimately show "few xs" by (simp add: few_def r_many_length)
qed

lemma r_many_all:
  "r_many n f r = Some (xs, r') \<Longrightarrow> (\<And>r x r'. f r = Some (x, r') \<Longrightarrow> P x) \<Longrightarrow> list_all P xs"
  by (induction n f r arbitrary: xs r' rule: r_many.induct) (auto split: bind_splits)

lemmas r_many_short = r_many_all [OF _ r_str_short] r_many_all [OF _ r_pair_short]

lemma key_fits_update:
  "short s \<Longrightarrow> key_fits k \<Longrightarrow> key_fits (k\<lparr>operation := s\<rparr>)"
  "short s \<Longrightarrow> key_fits k \<Longrightarrow> key_fits (k\<lparr>artifact_format := s\<rparr>)"
  "short s \<Longrightarrow> key_fits k \<Longrightarrow> key_fits (k\<lparr>arch := s\<rparr>)"
  "short s \<Longrightarrow> key_fits k \<Longrightarrow> key_fits (k\<lparr>kernel_interface_signature := s\<rparr>)"
  "short s \<Longrightarrow> key_fits k \<Longrightarrow> key_fits (k\<lparr>launch_abi := s\<rparr>)"
  "short s \<Longrightarrow> key_fits k \<Longrightarrow> key_fits (k\<lparr>model_revision := s\<rparr>)"
  "short s \<Longrightarrow> key_fits k \<Longrightarrow> key_fits (k\<lparr>operator_revision := s\<rparr>)"
  "short s \<Longrightarrow> key_fits k \<Longrightarrow> key_fits (k\<lparr>runtime_backend := s, runtime_version_major := a, runtime_version_minor := b\<rparr>)"
  "short s \<Longrightarrow> short s' \<Longrightarrow> key_fits k \<Longrightarrow> key_fits (k\<lparr>compiler_name := s, compiler_version_major := a, compiler_version_minor := b, compiler_version_patch := c, compiler_backend := s'\<rparr>)"
  "short s \<Longrightarrow> key_fits k \<Longrightarrow> key_fits (k\<lparr>abi_name := s, abi_version := v\<rparr>)"
  "short s \<Longrightarrow> key_fits k \<Longrightarrow> key_fits (k\<lparr>quantization_kind := s, quantization_bits := a, quantization_symmetric := q\<rparr>)"
  "few ss \<Longrightarrow> list_all short ss \<Longrightarrow> key_fits k \<Longrightarrow> key_fits (k\<lparr>scalar_param_types := ss\<rparr>)"
  "few ss \<Longrightarrow> list_all short ss \<Longrightarrow> key_fits k \<Longrightarrow> key_fits (k\<lparr>symbolic_shape_constraints := ss\<rparr>)"
  "few ss \<Longrightarrow> list_all short ss \<Longrightarrow> key_fits k \<Longrightarrow> key_fits (k\<lparr>codegen_flags := ss\<rparr>)"
  "few ds \<Longrightarrow> key_fits k \<Longrightarrow> key_fits (k\<lparr>dtypes := ds\<rparr>)"
  "few ls \<Longrightarrow> key_fits k \<Longrightarrow> key_fits (k\<lparr>layouts := ls\<rparr>)"
  "few ns \<Longrightarrow> key_fits k \<Longrightarrow> key_fits (k\<lparr>shape := ns\<rparr>)"
  "few ps \<Longrightarrow> list_all (\<lambda>p. short (fst p) \<and> short (snd p)) ps \<Longrightarrow> key_fits k \<Longrightarrow> key_fits (k\<lparr>specialization := ps\<rparr>)"
  "key_fits k \<Longrightarrow> key_fits (k\<lparr>vendor := e\<rparr>)"
  "key_fits k \<Longrightarrow> key_fits (k\<lparr>family := e\<rparr>)"
  "key_fits k \<Longrightarrow> key_fits (k\<lparr>capability := cc\<rparr>)"
  "key_fits k \<Longrightarrow> key_fits (k\<lparr>device_id := i\<rparr>)"
  "key_fits k \<Longrightarrow> key_fits (k\<lparr>rank := a\<rparr>)"
  "key_fits k \<Longrightarrow> key_fits (k\<lparr>alignment_bytes := a\<rparr>)"
  "key_fits k \<Longrightarrow> key_fits (k\<lparr>shared_mem_bytes := a\<rparr>)"
  "key_fits k \<Longrightarrow> key_fits (k\<lparr>block_x := a, block_y := b, block_z := c\<rparr>)"
  by (simp_all add: key_fits_def)

lemma read_field_fits:
  assumes "read_field tag k r = Inr (Some (k', r'))" and "key_fits k"
  shows "key_fits k'"
  using assms unfolding read_field_def
  by (auto split: if_splits bind_splits intro: r_str_short r_counted_few r_many_short intro!: key_fits_update)
    (metis r_str_short)+

lemma read_fields_fits: "read_fields k r = Inr (Some k') \<Longrightarrow> key_fits k \<Longrightarrow> key_fits k'"
  by (induction k r rule: read_fields.induct) (auto dest: read_field_fits split: sum.splits option.splits)

lemma key_fits_new: "key_fits KernelCompatibilityKey_new"
  by (simp add: key_fits_def KernelCompatibilityKey_new_def short_def few_def)

lemma from_canonical_Inr:
  assumes "from_canonical b = Inr k"
  obtains k0 where "finalize k0 = (True, k)" "key_fits k0"
  using assms read_fields_fits [OF _ key_fits_new, of b]
  by (auto simp: from_canonical_def split: sum.splits option.splits prod.splits bool.splits)

text \<open>
  C36. The wire yields well-formed keys only: whatever bytes arrive, a key that the decoder accepts has
  consistent ranks, is finalized under the digest of its own canonical bytes, fits every counter of the
  encoding and, when no specialization parameter is named twice, is read back from its own encoding.
\<close>

theorem decoded_key_well_formed:
  assumes "from_canonical b = Inr k"
  shows "structure_ok k \<and> finalize k = (True, k) \<and> k_digest k = digest (k_canonical k) \<and> key_fits k \<and>
    (distinct (map fst (specialization k)) \<longrightarrow> from_canonical (k_canonical k) = Inr k)"
proof -
  from assms obtain k0 where k0: "finalize k0 = (True, k)" "key_fits k0" by (rule from_canonical_Inr)
  have fits: "key_fits k" using key_fits_finalize k0 by blast
  have idem: "finalize k = (True, k)" using finalize_idem k0(1) .
  then have "structure_ok k" by (simp add: finalize_True)
  moreover have "k_digest k = digest (k_canonical k)" using finalize_digest k0(1) by blast
  moreover have "from_canonical (k_canonical k) = Inr k" if "distinct (map fst (specialization k))"
    using from_canonical_finalized [OF key_fits_wf [OF fits that] idem] .
  ultimately show ?thesis using fits idem by blast
qed

theorem decoded_key_well_formed_witness:
  "structure_ok (derive (canonicalize matmul_key)) \<and> key_fits (derive (canonicalize matmul_key)) \<and>
    finalize (derive (canonicalize matmul_key)) = (True, derive (canonicalize matmul_key))"
  using decoded_key_well_formed [OF from_canonical_finalized [OF sample_keys_ok(1) sample_keys_final(1)]] by blast

end
