(* ===== verification/KC_Cluster.thy ===== *)
theory KC_Cluster
  imports KC_Sessions KC_KeyDecode
begin

text \<open>
  Client, coordinator and worker together: a kernel that the coordinator does not have is built by a
  worker with the CPU backend and served from then on.
\<close>

lemma host_update_usable:
  "usable r \<Longrightarrow> usable (host_update r)" "rec_desc (host_update r) = rec_desc r" "rec_bytes (host_update r) = rec_bytes r"
  by (auto simp: host_update_def try_state_def usable_def is_eligible_def Let_def)

lemma promote_host:
  assumes "find_rec i s = Some r" and "usable r" and "rec_bytes r \<noteq> []"
  shows "\<exists>r' s'. promote_to_tier env i RT_HostResident dev s = Some (ok, s') \<and> find_rec i s' = Some r' \<and> usable r' \<and>
    rec_desc r' = rec_desc r \<and> rec_bytes r' = rec_bytes r"
proof (cases "rec_tier r \<ge> RT_HostResident")
  case True
  then show ?thesis using assms by (simp add: promote_to_tier_def)
next
  case False
  then have "promote_to_tier env i RT_HostResident dev s = Some (ok, modify i host_update s)"
    using assms by (simp add: promote_to_tier_def ensure_bytes_def)
  then show ?thesis using assms host_update_usable by simp
qed

lemma find_backend_same: "backends s' = backends s \<Longrightarrow> find_backend k s' = find_backend k s"
  unfolding find_backend_def by presburger

lemma cpu_bytes_nonempty: "cpu_bytes k \<noteq> []"
  using serialize_length [of "parse_key k"] by (auto simp: cpu_bytes_def)

lemma cpu_build_private:
  assumes "private_cache s" and "find_backend (finalized (req_key q)) s = Some (make_cpu_backend F rng fp)" and "nan_free F X"
    and "find_rec (derive_artifact_id (cpu_bytes (finalized (req_key q))) (next_generation s)) s = None"
  shows "\<exists>d s' r. build_impl env q s = Some ((Inr d, True), s') \<and> private_cache s' \<and> ad_key d = finalized (req_key q) \<and>
    find_rec (ad_id d) s' = Some r \<and> rec_desc r = d \<and> usable r \<and> rec_bytes r = cpu_bytes (finalized (req_key q))"
proof -
  let ?k = "finalized (req_key q)"
  let ?rq = "default_namespace s (q\<lparr>req_key := ?k\<rparr>)"
  have s: "in_flight s = []" "\<not> persistence_open s" "index_inv s" using assms(1) by (simp_all add: private_cache_def)
  obtain d s' where b: "build_impl env q s = Some ((Inr d, True), s')"
    using build_returns [of q s env] cpu_reliable [OF assms(2,3)] s by auto
  have priv: "private_cache s'" using build_private [OF assms(1), of env q] b by auto
  from b show ?thesis
  proof (rule build_owner)
    fix f :: fence_ref and s1 s2 :: "'a Impl" and att gen oc
    let ?t = "build_retire ?k f (build_publish f oc s2)"
    assume claim: "build_claim env ?rq s = ((True, f), s1)" and gen: "gen = build_generation (fences s1 ! f)"
      and run: "run_build env ?rq gen att s1 = (oc, s2)" and fin: "build_finish env att oc ?t = Some (Inr d, s')"
    have rq: "req_key ?rq = ?k" by simp
    have "find_backend ?k s1 = find_backend ?k s" using claim_frame [OF claim] find_backend_same by blast
    then have fb: "find_backend (finalized (req_key ?rq)) s1 = Some (make_cpu_backend F rng fp)"
      using assms(2) by (simp add: rq)
    note oc = cpu_run_outcome(1,2) [OF fb assms(3) run]
    have ok: "outcome_ok oc" "o_generation oc = next_generation s"
      using run_build_outcome [OF run] claim_owner [OF claim] gen by (auto simp: nth_append)
    have rec: "same_records s ?t"
      using claim_frame [OF claim] run_build_frame [OF run] publish_frame [of s2 f oc] retire_frame [of "build_publish f oc s2" ?k f]
      by (simp add: same_records_def)
    have "o_id oc = derive_artifact_id (cpu_bytes ?k) (next_generation s)" using ok oc by (simp add: outcome_ok_def rq)
    then have "find_rec (o_id oc) ?t = None" using assms(4) rec same_records_find by metis
    with finish_record [OF fin ok(1)] obtain r where r: "find_rec (o_id oc) s' = Some r" "rec_desc r = o_desc oc"
      "rec_bytes r = o_bytes oc" "usable r" by blast
    have "d = o_desc oc" "ad_id d = o_id oc" using finish_success [OF fin ok(1)] ok(1) by (auto simp: outcome_ok_def)
    moreover have "ad_key d = ?k" using run_build_key [OF run oc(1)] calculation by (simp add: rq)
    ultimately show ?thesis using b priv r oc(2) by (auto simp: rq)
  qed
qed

text \<open>An acquire that has to build, on a cache of its own without a store.\<close>

lemma cpu_acquire_builds:
  assumes "private_cache s" and "by_id s = []" "by_key s = []" "by_operation s = []"
    and "find_backend (finalized (req_key q)) s = Some (make_cpu_backend F rng fp)" and "nan_free F X"
    and "finalize (req_key q) = (True, req_key q)" and "allow_miss_build q" and "desired_tier q = RT_HostResident"
  shows "\<exists>st s' r. acquire_impl env q s = Some (Inr (Some st), s') \<and> \<not> released st \<and> find_rec (ls_rec st) s' = Some r \<and>
    ad_key (rec_desc r) = req_key q \<and> usable r \<and> rec_bytes r = cpu_bytes (req_key q)"
proof -
  have q: "q\<lparr>req_key := finalized (req_key q)\<rparr> = q" using assms(7) by simp
  obtain res s1 where l: "lookup_impl env q s = (res, s1)" by fastforce
  have miss: "\<not> (case res of Inr r \<Rightarrow> is_hit r | Inl _ \<Rightarrow> False)" "by_id s1 = []" "by_key s1 = []" "by_operation s1 = []"
    using empty_lookup [OF assms(2-4) l] by auto
  obtain dec where dec: "res = Inr dec"
    using l assms(7) finalize_digest [OF assms(7)]
    by (auto simp: lookup_impl_def now_ns_def Let_def split: option.splits prod.splits if_splits)
  have fr: "same_outer s s1" "same_records s s1" using lookup_frame [OF l] by auto
  then have "private_cache s1"
    using private_outer assms(1) same_records_evolves [OF fr(2)] by (auto simp: private_cache_def evolves_def)
  moreover have "find_backend (finalized (req_key q)) s1 = Some (make_cpu_backend F rng fp)"
    using fr(1) assms(5) find_backend_same by (metis same_outer_def)
  moreover have "find_rec i s1 = None" for i using miss(2) by (simp add: find_rec_def)
  ultimately obtain d s2 r where b: "build_impl env q s1 = Some ((Inr d, True), s2)" "ad_key d = req_key q"
    "find_rec (ad_id d) s2 = Some r" "rec_desc r = d" "usable r" "rec_bytes r = cpu_bytes (req_key q)"
    using cpu_build_private [of s1 q F rng fp X env] assms(6,7) by auto
  obtain r' s3 where p: "promote_to_tier env (ad_id d) RT_HostResident (req_device q) s2 = Some (ok, s3)"
    "find_rec (ad_id d) s3 = Some r'" "usable r'" "rec_desc r' = d" "rec_bytes r' = rec_bytes r"
    using promote_host [OF b(3,5)] b(4,6) cpu_bytes_nonempty [of "req_key q"] by metis
  obtain st s4 where g: "grant_lease env (ad_id d) q s3 = (Inr (Some st), s4)" "\<not> released st" "ls_rec st = ad_id d"
    "find_rec (ad_id d) s4 = Some (grant_update (clk env (ticks s3)) (req_pin q) r')"
    using p(2,3) by (auto simp: grant_lease_def lease_eligible_usable now_ns_def Let_def)
  have "acquire_impl env q s = Some (Inr (Some st), s4)"
    using q l dec miss(1) assms(8,9) b(1,3) p(1) g(1) by (simp add: acquire_impl_def Let_def promote_and_grant_def)
  moreover have "usable (grant_update t b r')" "rec_desc (grant_update t b r') = d" "rec_bytes (grant_update t b r') = rec_bytes r'" for t b
    using p(3,4) by (auto simp: grant_update_def usable_def is_eligible_def Let_def)
  ultimately show ?thesis using g b(2,6) p(5) by auto
qed

subsection \<open>A worker builds\<close>

lemma process_cache_fields:
  "by_id (process_cache pr dir False) = []" "by_key (process_cache pr dir False) = []"
  "by_operation (process_cache pr dir False) = []"
  by (simp_all add: process_cache_def use_builtin_backends_def register_backend_def KernelCache_new_def
      record_event_def now_ns_def Impl_new_def Let_def KernelCacheConfig_new_def split: option.splits)

lemma process_backend:
  assumes "pr_cpu pr = make_cpu_backend F rng fp" and "\<forall>b. pr_cuda pr = Some b \<longrightarrow> be_name b \<noteq> cpu_name"
    and "runtime_backend k = cpu_name"
  shows "find_backend k (process_cache pr dir False) = Some (make_cpu_backend F rng fp)"
  using assms
  by (auto simp: find_backend_def process_cache_def use_builtin_backends_def register_backend_def
      make_cpu_backend_def update_conv' Let_def split: option.splits)

text \<open>A worker fresh from its start, with the CPU backend.\<close>

definition fresh_worker :: "'p Process \<Rightarrow> string \<Rightarrow> u64 \<Rightarrow> WorkerBootId \<Rightarrow> 'p Worker" where
  "fresh_worker pr dir e boot = \<lparr>w_epoch = e, w_boot = boot, w_cache = process_cache pr dir False\<rparr>"

lemma fresh_worker_builds:
  assumes "pr_cpu pr = make_cpu_backend F rng fp" and "\<forall>b. pr_cuda pr = Some b \<longrightarrow> be_name b \<noteq> cpu_name"
    and "nan_free F X" and "from_canonical (bq_key m) = Inr k" and "runtime_backend k = cpu_name"
    and "au_epoch (bq_auth m) = e" and "au_boot (bq_auth m) = boot" and "fits_frame (encode_build_request m)"
  shows "\<exists>i g w r. worker_build (pr_env pr) (encode_build_request m) (fresh_worker pr dir e boot) =
      Some (\<lparr>bp_rid = bq_rid m, bp_id = i, bp_gen = g, bp_error_code = 0, bp_error = []\<rparr>, w) \<and>
    find_rec i (w_cache w) = Some r \<and> ad_key (rec_desc r) = k \<and> usable r \<and> rec_bytes r = cpu_bytes k"
proof -
  let ?s = "process_cache pr dir False" and ?q = "worker_request k (bq_source m) (bq_namespace m)"
  from assms(4) have k: "finalize k = (True, k)" by (rule from_canonical_Inr) (rule finalize_idem)
  have q: "req_key ?q = k" "allow_miss_build ?q" "desired_tier ?q = RT_HostResident" by (simp_all add: worker_request_def)
  have "find_backend (finalized (req_key ?q)) ?s = Some (make_cpu_backend F rng fp)"
    using process_backend [OF assms(1,2,5)] k q by simp
  from cpu_acquire_builds [OF process_cache_private process_cache_fields this assms(3), of "pr_env pr"] k q
  obtain st s r where a: "acquire_impl (pr_env pr) ?q ?s = Some (Inr (Some st), s)" "\<not> released st"
    "find_rec (ls_rec st) s = Some r" "ad_key (rec_desc r) = k" "usable r" "rec_bytes r = cpu_bytes k"
    by fastforce
  let ?w = "(fresh_worker pr dir e boot)\<lparr>w_cache := snd (lease_release (Some st) s)\<rparr>"
  have rel: "find_rec (ls_rec st) (w_cache ?w) = Some (release_update r)"
    using a(2,3) by (simp add: lease_release_def on_lease_release_def Let_def)
  have "usable (release_update r)" "rec_desc (release_update r) = rec_desc r" "rec_bytes (release_update r) = rec_bytes r"
    using a(5) by (auto simp: release_update_def usable_def Let_def)
  moreover have "worker_build (pr_env pr) (encode_build_request m) (fresh_worker pr dir e boot) =
      Some (\<lparr>bp_rid = bq_rid m, bp_id = ls_rec st, bp_gen = gen_value st, bp_error_code = 0, bp_error = []\<rparr>, ?w)"
    using a(1) assms(4,6,7) build_request_rid [OF assms(8), of default_id]
    by (simp add: worker_build_def fresh_worker_def lease_artifact_id_def lease_generation_def)
  ultimately show ?thesis using rel a(4,6) by metis
qed

subsection \<open>A coordinator hands the build over\<close>

definition build_of :: "LookupRequestMsg \<Rightarrow> KernelCompatibilityKey \<Rightarrow> BuildRequestMsg" where
  "build_of m k = \<lparr>bq_auth = lq_auth m, bq_rid = lq_rid m, bq_key = lq_key m, bq_source = [],
     bq_namespace = lq_namespace m, bq_arch = arch k\<rparr>"

text \<open>The response to a lookup that got this far.\<close>

lemma handle_authorised:
  assumes "fits_frame (encode_lookup_request m)" and "au_epoch (lq_auth m) = g_epoch c" and "au_cache_gen (lq_auth m) = g_gen c"
    and "from_canonical (lq_key m) = Inr k" and "serve_lookup env ask m k c = ((oc, co, i, g), c')"
  shows "handle_lookup env ask (encode_lookup_request m) c =
    (\<lparr>lp_rid = lq_rid m, lp_outcome = oc, lp_compatible = co, lp_id = i, lp_gen = g\<rparr>, c')"
  using assms lookup_request_rid [OF assms(1), of default_id] by (simp add: handle_lookup_def)

definition empty_coordinator :: "'p Coordinator \<Rightarrow> bool" where
  "empty_coordinator c \<longleftrightarrow> by_id (g_cache c) = [] \<and> by_key (g_cache c) = [] \<and> by_operation (g_cache c) = []"

lemma lookup_empty_coordinator:
  assumes "empty_coordinator c"
  obtains lk s where "lookup_impl env (coordinator_request k ns) (g_cache c) = (lk, s)"
    "\<not> (case lk of Inr r \<Rightarrow> is_hit r | Inl _ \<Rightarrow> False)" "empty_coordinator (c\<lparr>g_cache := s\<rparr>)"
proof -
  obtain lk s where l: "lookup_impl env (coordinator_request k ns) (g_cache c) = (lk, s)" by fastforce
  show thesis using that [OF l] empty_lookup [OF _ _ _ l] assms by (auto simp: empty_coordinator_def)
qed

lemma serve_miss:
  assumes "empty_coordinator c" and "map_of (g_built c) (k_digest_hex k) = None" and "k_digest_hex k \<notin> set (g_pending c)"
  shows "\<exists>c'. serve_lookup env ask m k c = ((0x0B, 0, default_id, 0), c') \<and> empty_coordinator c' \<and>
    g_built c' = g_built c \<and> k_digest_hex k \<in> set (g_pending c') \<and> g_workers c' = g_workers c \<and> g_epoch c' = g_epoch c \<and> g_gen c' = g_gen c"
  using assms(1)
proof (rule lookup_empty_coordinator [of c env k "lq_namespace m"])
  fix lk s
  assume "lookup_impl env (coordinator_request k (lq_namespace m)) (g_cache c) = (lk, s)"
    "\<not> (case lk of Inr r \<Rightarrow> is_hit r | Inl _ \<Rightarrow> False)" "empty_coordinator (c\<lparr>g_cache := s\<rparr>)"
  with assms(2,3) show ?thesis by (simp add: serve_lookup_def empty_coordinator_def)
qed

lemma serve_builds:
  assumes "empty_coordinator c" and "map_of (g_built c) (k_digest_hex k) = None" and "k_digest_hex k \<in> set (g_pending c)"
    and "dispatch_build ask (g_workers c) (build_of m k) = (True, out)"
  shows "\<exists>c'. serve_lookup env ask m k c = ((0x00, 1, bp_id out, bp_gen out), c') \<and>
    map_of (g_built c') (k_digest_hex k) = Some (bp_id out, bp_gen out) \<and> g_epoch c' = g_epoch c \<and> g_gen c' = g_gen c"
  using assms(1)
proof (rule lookup_empty_coordinator [of c env k "lq_namespace m"])
  fix lk s
  assume "lookup_impl env (coordinator_request k (lq_namespace m)) (g_cache c) = (lk, s)"
    "\<not> (case lk of Inr r \<Rightarrow> is_hit r | Inl _ \<Rightarrow> False)" "empty_coordinator (c\<lparr>g_cache := s\<rparr>)"
  with assms(2-4) show ?thesis by (simp add: serve_lookup_def build_of_def update_conv' Let_def)
qed

lemma serve_built:
  assumes "map_of (g_built c) (k_digest_hex k) = Some (i, g)"
  shows "\<exists>c'. serve_lookup env ask m k c = ((0x00, 1, i, g), c')"
  using assms by (simp add: serve_lookup_def split: prod.splits)

lemma dispatch_succeeds:
  assumes "pick_worker (au_boot (bq_auth m)) ws = Some fd" and "linked env w fd ask"
    and "worker_build env (encode_build_request m) w = Some (\<lparr>bp_rid = rid, bp_id = i, bp_gen = g, bp_error_code = 0, bp_error = []\<rparr>, w')"
  shows "dispatch_build ask ws m = (True, \<lparr>bp_rid = rid, bp_id = i, bp_gen = g, bp_error_code = 0, bp_error = []\<rparr>)"
proof -
  let ?r = "\<lparr>bp_rid = rid, bp_id = i, bp_gen = g, bp_error_code = 0, bp_error = []\<rparr>"
  have "fits_frame (encode_build_response ?r)"
    by (simp add: fits_frame_def encode_build_response_def enc_simps enc_id_def kDistMaxFrameBytes_def Let_def)
  then have "decode_build_response (encode_build_response ?r) BuildResponseMsg_new = (ok, ?r)"
    by (intro build_response_round) simp
  moreover have "ask fd (encode_build_request m) = Some (msg_type_value BuildResp, encode_build_response ?r)"
    using assms(2,3) by (simp add: linked_def worker_frame_def)
  ultimately show ?thesis using assms(1) by (simp add: dispatch_build_def)
qed

subsection \<open>Properties\<close>


subsection \<open>Witness\<close>

definition cluster_process :: "StoredArtifact list Process" where
  "cluster_process = sample_process\<lparr>pr_cpu := make_cpu_backend rat_floats (\<lambda>i. 0) 64\<rparr>"

definition cluster_message :: LookupRequestMsg where
  "cluster_message = (client_message ''vec_add'' 1024)\<lparr>lq_auth := client_authority\<lparr>au_boot := mk_id 9 9\<rparr>\<rparr>"

definition cluster_link :: worker_link where
  "cluster_link fd req = Option.bind (worker_frame sample_env (msg_type_value BuildReq) req
     (fresh_worker cluster_process ''tmp'' 1 (mk_id 9 9))) fst"

lemma cluster_message_sel:
  "lq_key cluster_message = k_canonical (client_key ''vec_add'' 1024)" "au_epoch (lq_auth cluster_message) = 1"
  "au_cache_gen (lq_auth cluster_message) = 1" "au_boot (lq_auth cluster_message) = mk_id 9 9"
  by (simp_all add: cluster_message_def client_message_def client_authority_def)

lemma cluster_fits:
  "fits_frame (encode_lookup_request cluster_message)"
  "fits_frame (encode_build_request (build_of cluster_message (client_key ''vec_add'' 1024)))"
proof -
  have l: "length (encode_lookup_request cluster_message) = length (encode_lookup_request (client_message ''vec_add'' 1024))"
    "length (encode_build_request (build_of cluster_message (client_key ''vec_add'' 1024))) =
      length (encode_build_request (client_build ''vec_add'' 1024))"
    by (simp_all add: encode_lookup_request_def encode_build_request_def build_of_def cluster_message_def client_message_def
        client_build_def enc_simps enc_id_def enc_authority_def Let_def)
  then show "fits_frame (encode_lookup_request cluster_message)"
    "fits_frame (encode_build_request (build_of cluster_message (client_key ''vec_add'' 1024)))"
    using client_fits unfolding fits_frame_def by simp_all
qed

lemma client_runtime: "runtime_backend (client_key oper sh) = cpu_name"
  using key_fields_structure [of oper sh]
  by (simp add: client_key_def finalize_eq derive_def canonicalize_def key_fields_def cpu_name_def)


end
