(* ===== verification/KC_CudaBackend.thy ===== *)
theory KC_CudaBackend
  imports KC_CpuBackend
begin

text \<open>
  The CUDA backend (\<^verbatim>\<open>backends/cuda/cuda_backend.cpp\<close>). The driver and the runtime compiler are
  libraries found at run time: a record of function pointers, null when a symbol is missing, that
  work on the state \<open>'g\<close> of the machine outside. A call through a null pointer is \<^const>\<open>None\<close>, so every
  operation is a function to an option. Host buffers are lists of floats, the element type is \<open>'f\<close>,
  and allocations on the host are taken to succeed. Constant launch arguments (one block in the
  other dimensions, no shared memory, no stream) are left out of the calls.
\<close>

type_synonym CUresult = int
type_synonym CUmodule = u64
type_synonym CUfunction = u64
type_synonym CUdevice = int
type_synonym CUdeviceptr = u64
type_synonym CUcontext = u64
type_synonym nvrtcProgram = u64

subsection \<open>The driver\<close>

record ('f, 'g) CudaDriver =
  drv_ok :: bool
  cuInit :: "('g \<Rightarrow> CUresult \<times> 'g) option"
  cuDeviceGetCount :: "('g \<Rightarrow> (CUresult \<times> int) \<times> 'g) option"
  cuModuleLoadDataEx :: "(bytes \<Rightarrow> 'g \<Rightarrow> (CUresult \<times> CUmodule) \<times> 'g) option"
  cuModuleGetFunction :: "(CUmodule \<Rightarrow> string \<Rightarrow> 'g \<Rightarrow> (CUresult \<times> CUfunction) \<times> 'g) option"
  cuMemAlloc :: "(u64 \<Rightarrow> 'g \<Rightarrow> (CUresult \<times> CUdeviceptr) \<times> 'g) option"
  cuMemFree :: "(CUdeviceptr \<Rightarrow> 'g \<Rightarrow> CUresult \<times> 'g) option"
  cuMemcpyHtoD :: "(CUdeviceptr \<Rightarrow> 'f list \<Rightarrow> u64 \<Rightarrow> 'g \<Rightarrow> CUresult \<times> 'g) option"
  cuMemcpyDtoH :: "('f list \<Rightarrow> CUdeviceptr \<Rightarrow> u64 \<Rightarrow> 'g \<Rightarrow> (CUresult \<times> 'f list) \<times> 'g) option"
  cuLaunchKernel :: "(CUfunction \<Rightarrow> u32 \<Rightarrow> u32 \<Rightarrow> CUdeviceptr \<times> CUdeviceptr \<times> CUdeviceptr \<times> u32 \<Rightarrow> 'g \<Rightarrow>
    CUresult \<times> 'g) option"
  cuCtxSynchronize :: "('g \<Rightarrow> CUresult \<times> 'g) option"
  cuModuleUnload :: "(CUmodule \<Rightarrow> 'g \<Rightarrow> CUresult \<times> 'g) option"
  cuDeviceGet :: "(int \<Rightarrow> 'g \<Rightarrow> (CUresult \<times> CUdevice) \<times> 'g) option"
  cuCtxCreate :: "(CUdevice \<Rightarrow> 'g \<Rightarrow> (CUresult \<times> CUcontext) \<times> 'g) option"
  cuCtxSetCurrent :: "(CUcontext \<Rightarrow> 'g \<Rightarrow> CUresult \<times> 'g) option"

definition CudaDriver_new :: "('f, 'g) CudaDriver" where
  "CudaDriver_new = \<lparr>drv_ok = False, cuInit = None, cuDeviceGetCount = None, cuModuleLoadDataEx = None,
     cuModuleGetFunction = None, cuMemAlloc = None, cuMemFree = None, cuMemcpyHtoD = None, cuMemcpyDtoH = None,
     cuLaunchKernel = None, cuCtxSynchronize = None, cuModuleUnload = None, cuDeviceGet = None,
     cuCtxCreate = None, cuCtxSetCurrent = None\<rparr>"

text \<open>The library is the table of the symbols found in it; it is absent when it cannot be loaded.\<close>

definition driver :: "bool \<Rightarrow> ('f, 'g) CudaDriver option \<Rightarrow> ('f, 'g) CudaDriver" where
  "driver windows library =
     (if \<not> windows then CudaDriver_new
      else case library of
             None \<Rightarrow> CudaDriver_new
           | Some l \<Rightarrow> l\<lparr>drv_ok := cuInit l \<noteq> None \<and> cuModuleLoadDataEx l \<noteq> None \<and>
               cuModuleGetFunction l \<noteq> None \<and> cuMemAlloc l \<noteq> None \<and> cuLaunchKernel l \<noteq> None\<rparr>)"

text \<open>The globals of the file: the context, and the function-local statics once they are initialized.\<close>

record 'g CudaState =
  gpu :: 'g
  g_cuda_ctx :: CUcontext
  ready_status :: "int option"
  availability :: "bool option"

text \<open>A call through a function pointer.\<close>

definition invoke :: "('g \<Rightarrow> 'r \<times> 'g) option \<Rightarrow> 'g CudaState \<Rightarrow> ('r \<times> 'g CudaState) option" where
  "invoke p st = (case p of None \<Rightarrow> None | Some f \<Rightarrow> (case f (gpu st) of (r, g) \<Rightarrow> Some (r, st\<lparr>gpu := g\<rparr>)))"

abbreviation ap :: "('a \<Rightarrow> 'b) option \<Rightarrow> 'a \<Rightarrow> 'b option" where
  "ap p x \<equiv> map_option (\<lambda>f. f x) p"

definition bind_context :: "('f, 'g) CudaDriver \<Rightarrow> 'g CudaState \<Rightarrow> 'g CudaState option" where
  "bind_context d st =
     (if drv_ok d \<and> g_cuda_ctx st \<noteq> 0
      then map_option snd (invoke (ap (cuCtxSetCurrent d) (g_cuda_ctx st)) st) else Some st)"

definition cuda_init :: "('f, 'g) CudaDriver \<Rightarrow> 'g CudaState \<Rightarrow> (int \<times> 'g CudaState) option" where
  "cuda_init d st =
     (if \<not> drv_ok d then Some (-1, st)
      else do {
        (r, st) \<leftarrow> invoke (cuInit d) st;
        if r \<noteq> 0 then Some (r, st)
        else if cuCtxCreate d = None then Some (-2, st)
        else do {
          ((r, dev), st) \<leftarrow> invoke (ap (cuDeviceGet d) 0) st;
          if r \<noteq> 0 then Some (r, st)
          else do {
            ((r, ctx), st) \<leftarrow> invoke (ap (cuCtxCreate d) dev) st;
            if r \<noteq> 0 then Some (r, st)
            else invoke (ap (cuCtxSetCurrent d) ctx) (st\<lparr>g_cuda_ctx := ctx\<rparr>)
          }
        }
      })"

definition cuda_ready :: "('f, 'g) CudaDriver \<Rightarrow> 'g CudaState \<Rightarrow> (bool \<times> 'g CudaState) option" where
  "cuda_ready d st = do {
     (s, st) \<leftarrow> (case ready_status st of
                   Some s \<Rightarrow> Some (s, st)
                 | None \<Rightarrow> map_option (\<lambda>(s, st). (s, st\<lparr>ready_status := Some s\<rparr>)) (cuda_init d st));
     st \<leftarrow> bind_context d st;
     Some (s = 0, st)
   }"

definition cu_str_result :: "CUresult \<Rightarrow> string \<Rightarrow> string" where
  "cu_str_result err fname =
     (if err = 1 then fname @ '': invalid value''
      else if err = 2 then fname @ '': out of memory''
      else if err = 3 then fname @ '': not initialized''
      else if err = 100 then fname @ '': invalid handle''
      else if err = 500 then fname @ '': invalid context''
      else if err = 700 then fname @ '': launch failed''
      else if err = 719 then fname @ '': launch out of resources''
      else fname @ '': error '' @ show_int err)"

subsection \<open>The runtime compiler\<close>

record 'g NvrtcDriver =
  nv_ok :: bool
  nvrtcCreateProgram :: "(string \<Rightarrow> string \<Rightarrow> 'g \<Rightarrow> (int \<times> nvrtcProgram) \<times> 'g) option"
  nvrtcCompileProgram :: "(nvrtcProgram \<Rightarrow> string list \<Rightarrow> 'g \<Rightarrow> int \<times> 'g) option"
  nvrtcGetCUBINSize :: "(nvrtcProgram \<Rightarrow> 'g \<Rightarrow> (int \<times> nat option) \<times> 'g) option"
  nvrtcGetCUBIN :: "(nvrtcProgram \<Rightarrow> bytes \<Rightarrow> 'g \<Rightarrow> (int \<times> bytes) \<times> 'g) option"
  nvrtcGetProgramLogSize :: "(nvrtcProgram \<Rightarrow> 'g \<Rightarrow> (int \<times> nat option) \<times> 'g) option"
  nvrtcGetProgramLog :: "(nvrtcProgram \<Rightarrow> string \<Rightarrow> 'g \<Rightarrow> (int \<times> string) \<times> 'g) option"
  nvrtcDestroyProgram :: "(nvrtcProgram \<Rightarrow> 'g \<Rightarrow> int \<times> 'g) option"

definition NvrtcDriver_new :: "'g NvrtcDriver" where
  "NvrtcDriver_new = \<lparr>nv_ok = False, nvrtcCreateProgram = None, nvrtcCompileProgram = None, nvrtcGetCUBINSize = None,
     nvrtcGetCUBIN = None, nvrtcGetProgramLogSize = None, nvrtcGetProgramLog = None, nvrtcDestroyProgram = None\<rparr>"

text \<open>A directory that exists has a listing of file names; the environment is a map.\<close>

definition nvrtc_dirs :: "(string \<rightharpoonup> string) \<Rightarrow> string list" where
  "nvrtc_dirs getenv =
     (case getenv ''CUDA_PATH'' of None \<Rightarrow> [] | Some p \<Rightarrow> [p @ [CHR 92] @ ''bin'']) @
     (case getenv ''CUDA_PATH_V13_1'' of None \<Rightarrow> [] | Some p \<Rightarrow> [p @ [CHR 92] @ ''bin'']) @
     [''C:'' @ [CHR 92] @ ''Program Files'' @ [CHR 92] @ ''NVIDIA GPU Computing Toolkit'' @ [CHR 92] @ ''CUDA''
        @ [CHR 92] @ ''v13.1'' @ [CHR 92] @ ''bin'',
      ''C:'' @ [CHR 92] @ ''Program Files'' @ [CHR 92] @ ''NVIDIA GPU Computing Toolkit'' @ [CHR 92] @ ''CUDA''
        @ [CHR 92] @ ''v12.9'' @ [CHR 92] @ ''bin'']"

definition is_nvrtc_dll :: "string \<Rightarrow> bool" where
  "is_nvrtc_dll f \<longleftrightarrow> (take 7 f = ''nvrtc64'' \<or> f = ''nvrtc.dll'') \<and> \<not> str_find ''.alt'' f \<and>
     drop (length f - 4) f = ''.dll''"

fun find_in_dirs :: "(string \<rightharpoonup> string list) \<Rightarrow> string list \<Rightarrow> string" where
  "find_in_dirs ls [] = ''nvrtc64_130_0.dll''"
| "find_in_dirs ls (dir # dirs) =
     (case ls dir of
        None \<Rightarrow> find_in_dirs ls dirs
      | Some fs \<Rightarrow> (case find is_nvrtc_dll fs of
                      Some f \<Rightarrow> dir @ [CHR 92] @ f
                    | None \<Rightarrow> find_in_dirs ls dirs))"

definition find_nvrtc :: "(string \<rightharpoonup> string) \<Rightarrow> (string \<rightharpoonup> string list) \<Rightarrow> string" where
  "find_nvrtc getenv ls = find_in_dirs ls (nvrtc_dirs getenv)"

definition nvrtc ::
  "bool \<Rightarrow> (string \<Rightarrow> 'g NvrtcDriver option) \<Rightarrow> (string \<rightharpoonup> string) \<Rightarrow> (string \<rightharpoonup> string list) \<Rightarrow> 'g NvrtcDriver" where
  "nvrtc windows load_library getenv ls =
     (if \<not> windows then NvrtcDriver_new
      else case load_library (find_nvrtc getenv ls) of
             None \<Rightarrow> NvrtcDriver_new
           | Some l \<Rightarrow> l\<lparr>nv_ok := nvrtcCreateProgram l \<noteq> None \<and> nvrtcCompileProgram l \<noteq> None \<and>
               nvrtcGetCUBINSize l \<noteq> None \<and> nvrtcGetCUBIN l \<noteq> None \<and> nvrtcDestroyProgram l \<noteq> None\<rparr>)"

subsection \<open>Reading the key\<close>

record CudaModule =
  cm_module :: CUmodule
  cm_func :: CUfunction
  cm_cubin :: bytes
  cm_block_x :: u32
  cm_kernel_name :: string

definition key_n :: "KernelCompatibilityKey \<Rightarrow> u64" where
  "key_n key = (case shape key of [] \<Rightarrow> 1024 | d # _ \<Rightarrow> if 0 < sint d then d else 1024)"

definition derive_op :: "KernelCompatibilityKey \<Rightarrow> Op" where
  "derive_op key =
     (if str_find ''mul'' (operation key) then VecMul
      else if str_find ''reduce'' (operation key) \<or> str_find ''sum'' (operation key) then ReductionSum
      else VecAdd)"

definition kernel_fname :: "KernelCompatibilityKey \<Rightarrow> string" where
  "kernel_fname key = (if operation key = [] then ''vec_add'' else operation key)"

definition key_block :: "KernelCompatibilityKey \<Rightarrow> u32" where
  "key_block key = (if block_x key \<noteq> 0 then block_x key else 256)"

subsection \<open>Builder\<close>

definition cuda_name :: string where
  "cuda_name = ''cuda''"

definition cuda_can_build :: "KernelCompatibilityKey \<Rightarrow> bool" where
  "cuda_can_build key \<longleftrightarrow> runtime_backend key = cuda_name \<or> (vendor key = DeviceVendor_NVIDIA \<and> runtime_backend key = [])"

definition cuda_result :: "BuildRequest \<Rightarrow> string \<Rightarrow> bytes \<Rightarrow> BuildResult" where
  "cuda_result req arch_name cubin =
     (let n = word_of_nat (length cubin); r = BuildResult_new; cd = bres_compilation r
      in r\<lparr>artifact_format_name := ''cubin'', bres_bytes := cubin,
           bres_sizes := (bres_sizes r)\<lparr>artifact_bytes := n, host_bytes := n, storage_bytes := n,
             device_bytes_estimated := True\<rparr>,
           bres_provenance := (bres_provenance r)\<lparr>producer := cuda_name, build_command := ''nvrtc '' @ arch_name,
             built_at_ns := 0\<rparr>,
           bres_compilation := cd\<lparr>cd_compiler := (cd_compiler cd)\<lparr>ci_name := ''nvrtc'',
               ci_version_major := compiler_version_major (br_key req),
               ci_version_minor := compiler_version_minor (br_key req)\<rparr>,
             cd_target := (cd_target cd)\<lparr>da_arch_name := arch (br_key req),
               da_compute_capability := capability (br_key req)\<rparr>\<rparr>,
           bres_kernel_count := 1\<rparr>)"

text \<open>An out parameter that a call did not write keeps its value 0.\<close>

definition size_or_0 :: "nat option \<Rightarrow> nat" where
  "size_or_0 n = (case n of None \<Rightarrow> 0 | Some n \<Rightarrow> n)"

definition compile_log :: "'g NvrtcDriver \<Rightarrow> nvrtcProgram \<Rightarrow> 'g CudaState \<Rightarrow> (string \<times> 'g CudaState) option" where
  "compile_log nv prog st = do {
     ((_, sz), st) \<leftarrow> invoke (ap (nvrtcGetProgramLogSize nv) prog) st;
     let log = replicate (size_or_0 sz) (CHR 0x00);
     if size_or_0 sz \<noteq> 0
     then map_option (\<lambda>((_, log), st). (log, st)) (invoke (ap (ap (nvrtcGetProgramLog nv) prog) log) st)
     else Some (log, st)
   }"

definition fetch_cubin :: "'g NvrtcDriver \<Rightarrow> nvrtcProgram \<Rightarrow> 'g CudaState \<Rightarrow> ((nat \<times> bytes) \<times> 'g CudaState) option" where
  "fetch_cubin nv prog st = do {
     ((_, sz), st) \<leftarrow> invoke (ap (nvrtcGetCUBINSize nv) prog) st;
     let cubin = replicate (size_or_0 sz) 0;
     if size_or_0 sz \<noteq> 0
     then map_option (\<lambda>((_, cubin), st). ((size_or_0 sz, cubin), st)) (invoke (ap (ap (nvrtcGetCUBIN nv) prog) cubin) st)
     else Some ((size_or_0 sz, cubin), st)
   }"

definition cuda_build ::
  "('f, 'g) CudaDriver \<Rightarrow> 'g NvrtcDriver \<Rightarrow> BuildRequest \<Rightarrow> 'g CudaState \<Rightarrow> (BuildResult result \<times> 'g CudaState) option" where
  "cuda_build d nv req st = do {
     (ready, st) \<leftarrow> cuda_ready d st;
     if \<not> ready then Some (fail EC_NotSupported ''CUDA driver not available'', st)
     else if br_source req = [] then Some (fail EC_InvalidArgument ''CUDA build requires kernel source'', st)
     else if \<not> nv_ok nv then Some (fail EC_NotSupported ''NVRTC not available for runtime compilation'', st)
     else do {
       let arch_name = (if arch (br_key req) = [] then ''sm_120'' else arch (br_key req));
       ((rc, prog), st) \<leftarrow> invoke (ap (ap (nvrtcCreateProgram nv) (c_str (br_source req)))
                                      (c_str (kernel_fname (br_key req)))) st;
       if rc \<noteq> 0 then Some (fail EC_BuildFailed (''nvrtcCreateProgram rc='' @ show_int rc), st)
       else do {
         (rc, st) \<leftarrow> invoke (ap (ap (nvrtcCompileProgram nv) prog)
                               [c_str (''--gpu-architecture='' @ arch_name), ''--std=c++14'']) st;
         if rc \<noteq> 0 then do {
           (log, st) \<leftarrow> compile_log nv prog st;
           (_, st) \<leftarrow> invoke (ap (nvrtcDestroyProgram nv) prog) st;
           Some (fail EC_BuildFailed (''nvrtcCompileProgram failed ('' @ show_int rc @ ''): '' @ log), st)
         } else do {
           ((sz, cubin), st) \<leftarrow> fetch_cubin nv prog st;
           (_, st) \<leftarrow> invoke (ap (nvrtcDestroyProgram nv) prog) st;
           Some (if sz = 0 then fail EC_BuildFailed ''empty cubin from nvrtc''
                 else Inr (cuda_result req arch_name cubin), st)
         }
       }
     }
   }"


subsection \<open>Running a kernel\<close>

text \<open>The grid: \<open>n + block - 1\<close> wraps at 64 bits, and the number of blocks is cut to 32.\<close>

definition grid_size :: "u64 \<Rightarrow> u32 \<Rightarrow> u32" where
  "grid_size n block = ucast ((n + ucast block - 1) div ucast block)"

definition cuda_free :: "('f, 'g) CudaDriver \<Rightarrow> CUdeviceptr \<Rightarrow> 'g CudaState \<Rightarrow> 'g CudaState option" where
  "cuda_free d p st = map_option snd (invoke (ap (cuMemFree d) p) st)"

definition cuda_unload_module :: "('f, 'g) CudaDriver \<Rightarrow> CUmodule \<Rightarrow> 'g CudaState \<Rightarrow> 'g CudaState option" where
  "cuda_unload_module d m st = map_option snd (invoke (ap (cuModuleUnload d) m) st)"

text \<open>
  The validator and the loader allocate two inputs and an output, and free what they have when one
  allocation fails; the error names the buffer.
\<close>

definition cuda_alloc3 ::
  "('f, 'g) CudaDriver \<Rightarrow> u64 \<Rightarrow> 'g CudaState \<Rightarrow>
    ((string \<times> CUresult + CUdeviceptr \<times> CUdeviceptr \<times> CUdeviceptr) \<times> 'g CudaState) option" where
  "cuda_alloc3 d byten st = do {
     ((r, da), st) \<leftarrow> invoke (ap (cuMemAlloc d) byten) st;
     if r \<noteq> 0 then Some (Inl (''alloc a'', r), st)
     else do {
       ((r, db), st) \<leftarrow> invoke (ap (cuMemAlloc d) byten) st;
       if r \<noteq> 0 then do { st \<leftarrow> cuda_free d da st; Some (Inl (''alloc b'', r), st) }
       else do {
         ((r, dout), st) \<leftarrow> invoke (ap (cuMemAlloc d) byten) st;
         if r \<noteq> 0
         then do { st \<leftarrow> cuda_free d da st; st \<leftarrow> cuda_free d db st; Some (Inl (''alloc out'', r), st) }
         else Some (Inr (da, db, dout), st)
       }
     }
   }"

definition cuda_free3 ::
  "('f, 'g) CudaDriver \<Rightarrow> CUdeviceptr \<Rightarrow> CUdeviceptr \<Rightarrow> CUdeviceptr \<Rightarrow> 'g CudaState \<Rightarrow> 'g CudaState option" where
  "cuda_free3 d da db dout st = do {
     st \<leftarrow> cuda_free d da st; st \<leftarrow> cuda_free d db st; cuda_free d dout st
   }"

text \<open>
  Copy in, launch, wait, copy out. Only the result of the launch is looked at; the buffers are freed
  on both paths, and on success the new contents of the output are returned.
\<close>

definition cuda_launch ::
  "('f, 'g) CudaDriver \<Rightarrow> CUfunction \<Rightarrow> u32 \<Rightarrow> u64 \<Rightarrow> 'f list \<Rightarrow> 'f list \<Rightarrow> 'f list \<Rightarrow>
    CUdeviceptr \<times> CUdeviceptr \<times> CUdeviceptr \<Rightarrow> 'g CudaState \<Rightarrow> ((CUresult + 'f list) \<times> 'g CudaState) option" where
  "cuda_launch d fn block n a b out = (\<lambda>(da, db, dout) st. do {
     (_, st) \<leftarrow> invoke (ap (ap (ap (cuMemcpyHtoD d) da) a) (n * 4)) st;
     (_, st) \<leftarrow> invoke (ap (ap (ap (cuMemcpyHtoD d) db) b) (n * 4)) st;
     (r, st) \<leftarrow> invoke (ap (ap (ap (ap (cuLaunchKernel d) fn) (grid_size n block)) block) (dout, da, db, ucast n)) st;
     if r \<noteq> 0 then do { st \<leftarrow> cuda_free3 d da db dout st; Some (Inl r, st) }
     else do {
       (_, st) \<leftarrow> invoke (cuCtxSynchronize d) st;
       ((_, out), st) \<leftarrow> invoke (ap (ap (ap (cuMemcpyDtoH d) out) dout) (n * 4)) st;
       st \<leftarrow> cuda_free3 d da db dout st;
       Some (Inr out, st)
     }
   })"

subsection \<open>Validator\<close>

text \<open>
  What the validator uses of single precision: the arithmetic of the reference,
  \<^verbatim>\<open>static_cast<float>(static_cast<int>(r % 2000) - 1000) / 100.0f\<close> and
  \<^verbatim>\<open>std::fabs(x - y) > 1e-3f\<close>.
\<close>

record 'f GpuFloatOps = "'f FloatOps" +
  f_sample2 :: "u64 \<Rightarrow> 'f"
  f_far :: "'f \<Rightarrow> 'f \<Rightarrow> bool"

definition test_a :: "('f, 'x) GpuFloatOps_scheme \<Rightarrow> (nat \<Rightarrow> u64) \<Rightarrow> nat \<Rightarrow> 'f list" where
  "test_a F rng n = map (\<lambda>i. f_sample2 F (rng (2 * i))) [0..<n]"

definition test_b :: "('f, 'x) GpuFloatOps_scheme \<Rightarrow> (nat \<Rightarrow> u64) \<Rightarrow> nat \<Rightarrow> 'f list" where
  "test_b F rng n = map (\<lambda>i. f_sample2 F (rng (2 * i + 1))) [0..<n]"

definition ref_step :: "('f, 'x) GpuFloatOps_scheme \<Rightarrow> Op \<Rightarrow> 'f list \<Rightarrow> 'f list \<Rightarrow> nat \<Rightarrow> 'f list \<Rightarrow> 'f list" where
  "ref_step F oper a b i ref =
     (if oper = VecMul then ref[i := f_mul F (a ! i) (b ! i)]
      else if oper = ReductionSum then ref[i := if i = 0 then a ! i else f_add F (ref ! (i - 1)) (a ! i)]
      else ref[i := f_add F (a ! i) (b ! i)])"

definition cuda_reference :: "('f, 'x) GpuFloatOps_scheme \<Rightarrow> Op \<Rightarrow> 'f list \<Rightarrow> 'f list \<Rightarrow> nat \<Rightarrow> 'f list" where
  "cuda_reference F oper a b n = fold (ref_step F oper a b) [0..<n] (replicate n (f_zero F))"

definition cuda_validate ::
  "('f, 'x) GpuFloatOps_scheme \<Rightarrow> (nat \<Rightarrow> u64) \<Rightarrow> ('f, 'g) CudaDriver \<Rightarrow> KernelCompatibilityKey \<Rightarrow> bytes \<Rightarrow>
    DeviceDescriptor \<Rightarrow> 'g CudaState \<Rightarrow> (ValidationDescriptor result \<times> 'g CudaState) option" where
  "cuda_validate F rng d key bytes dev st = do {
     let vd = ValidationDescriptor_new;
     (ready, st) \<leftarrow> cuda_ready d st;
     if \<not> ready then Some (Inr (vd\<lparr>backend_reason := ''CUDA not ready''\<rparr>), st)
     else do {
       let vd = vd\<lparr>integrity_hash_checked := bytes \<noteq> [], format_checked := bytes \<noteq> [], metadata_consistent := True\<rparr>;
       let n = key_n key;
       st \<leftarrow> bind_context d st;
       ((r, m), st) \<leftarrow> invoke (ap (cuModuleLoadDataEx d) bytes) st;
       if r \<noteq> 0
       then Some (Inr (vd\<lparr>backend_reason := ''module load: '' @ cu_str_result r ''cuModuleLoadDataEx''\<rparr>), st)
       else do {
         let vd = vd\<lparr>loadable := True\<rparr>;
         let fname = kernel_fname key;
         ((r, fn), st) \<leftarrow> invoke (ap (ap (cuModuleGetFunction d) m) (c_str fname)) st;
         if r \<noteq> 0 then do {
           st \<leftarrow> cuda_unload_module d m st;
           Some (Inr (vd\<lparr>backend_reason := ''get function: '' @ cu_str_result r ''cuModuleGetFunction''
             @ '' ('' @ fname @ '')''\<rparr>), st)
         } else do {
           let a = test_a F rng (unat n);
           let b = test_b F rng (unat n);
           let ref = cuda_reference F (derive_op key) a b (unat n);
           st \<leftarrow> bind_context d st;
           (bufs, st) \<leftarrow> cuda_alloc3 d (n * 4) st;
           case bufs of
             Inl (which, r) \<Rightarrow> do {
               st \<leftarrow> cuda_unload_module d m st;
               Some (Inr (vd\<lparr>backend_reason := which @ '': '' @ cu_str_result r ''cuMemAlloc''\<rparr>), st)
             }
           | Inr bufs \<Rightarrow> do {
               (res, st) \<leftarrow> cuda_launch d fn (key_block key) n a b (replicate (unat n) (f_zero F)) bufs st;
               st \<leftarrow> cuda_unload_module d m st;
               case res of
                 Inl r \<Rightarrow> Some (Inr (vd\<lparr>backend_reason := ''launch: '' @ cu_str_result r ''cuLaunchKernel''\<rparr>), st)
               | Inr out \<Rightarrow>
                   let match = (\<forall>i \<in> set [0..<unat n]. \<not> f_far F (out ! i) (ref ! i))
                   in Some (Inr (vd\<lparr>execution_smoke := True, reference_compare := match, arch_checked := True,
                        abi_checked := True, backend_reason := if match then ''gpu matches cpu reference''
                          else ''gpu result mismatch vs cpu reference''\<rparr>), st)
             }
         }
       }
     }
   }"

subsection \<open>Loader\<close>

text \<open>A module handle points to a shared object, so \<^verbatim>\<open>unload\<close> returns what the object becomes.\<close>

definition cuda_load ::
  "('f, 'g) CudaDriver \<Rightarrow> KernelCompatibilityKey \<Rightarrow> bytes \<Rightarrow> DeviceDescriptor \<Rightarrow> 'g CudaState \<Rightarrow>
    (CudaModule option result \<times> 'g CudaState) option" where
  "cuda_load d key bytes dev st = do {
     (ready, st) \<leftarrow> cuda_ready d st;
     if \<not> ready then Some (fail EC_NotSupported ''CUDA not available'', st)
     else do {
       st \<leftarrow> bind_context d st;
       let fname = kernel_fname key;
       ((r, m), st) \<leftarrow> invoke (ap (cuModuleLoadDataEx d) bytes) st;
       if r \<noteq> 0 then Some (fail EC_LoadFailed (''load: '' @ cu_str_result r ''cuModuleLoadDataEx''), st)
       else do {
         ((r, fn), st) \<leftarrow> invoke (ap (ap (cuModuleGetFunction d) m) (c_str fname)) st;
         if r \<noteq> 0 then do {
           st \<leftarrow> cuda_unload_module d m st;
           Some (fail EC_LoadFailed (''get fn: '' @ cu_str_result r ''cuModuleGetFunction''), st)
         } else Some (Inr (Some \<lparr>cm_module = m, cm_func = fn, cm_cubin = bytes, cm_block_x = key_block key,
                        cm_kernel_name = fname\<rparr>), st)
       }
     }
   }"

definition cuda_unload ::
  "('f, 'g) CudaDriver \<Rightarrow> CudaModule option \<Rightarrow> 'g CudaState \<Rightarrow> ((unit result \<times> CudaModule option) \<times> 'g CudaState) option" where
  "cuda_unload d handle st =
     (case handle of
        None \<Rightarrow> Some ((ok, None), st)
      | Some m \<Rightarrow>
          if cm_module m \<noteq> 0
          then do {
            st \<leftarrow> cuda_unload_module d (cm_module m) st;
            Some ((ok, Some (m\<lparr>cm_module := 0, cm_func := 0\<rparr>)), st)
          } else Some ((ok, Some m), st))"

text \<open>The argument block holds four pointers: the output, two inputs and the number of elements, an \<^verbatim>\<open>int\<close>.\<close>

definition cuda_execute ::
  "('f, 'g) CudaDriver \<Rightarrow> CudaModule option \<Rightarrow> 'f list \<times> 'f list \<times> 'f list \<times> u32 \<Rightarrow> nat \<Rightarrow> 'g CudaState \<Rightarrow>
    ('f list result \<times> 'g CudaState) option" where
  "cuda_execute d handle args arg_bytes st =
     (case handle of
        None \<Rightarrow> Some (fail EC_InvalidArgument ''null handle'', st)
      | Some m \<Rightarrow>
          if cm_module m = 0 \<or> cm_func m = 0 then Some (fail EC_InvalidArgument ''module not loaded'', st)
          else if arg_bytes < 4 * 8 then Some (fail EC_InvalidArgument ''args blob too small'', st)
          else do {
            let (out, a, b, np) = args;
            let n = scast np;
            st \<leftarrow> bind_context d st;
            (bufs, st) \<leftarrow> cuda_alloc3 d (n * 4) st;
            case bufs of
              Inl (which, r) \<Rightarrow> Some (fail EC_LoadFailed which, st)
            | Inr bufs \<Rightarrow> do {
                (res, st) \<leftarrow> cuda_launch d (cm_func m) (cm_block_x m) n a b out bufs st;
                case res of
                  Inl r \<Rightarrow> Some (fail EC_LoadFailed (''launch: '' @ cu_str_result r ''cuLaunchKernel''), st)
                | Inr out \<Rightarrow> Some (Inr out, st)
              }
          })"

definition cuda_resident_footprint :: "CudaModule option \<Rightarrow> u64 \<times> bool" where
  "cuda_resident_footprint handle =
     (case handle of None \<Rightarrow> (0, True) | Some m \<Rightarrow> (word_of_nat (length (cm_cubin m) * 4 + 4096), True))"

subsection \<open>The backend\<close>

record ('f, 'g) CudaBackend =
  cb_name :: string
  cb_can_build :: "KernelCompatibilityKey \<Rightarrow> bool"
  cb_build :: "BuildRequest \<Rightarrow> 'g CudaState \<Rightarrow> (BuildResult result \<times> 'g CudaState) option"
  cb_validate :: "KernelCompatibilityKey \<Rightarrow> bytes \<Rightarrow> DeviceDescriptor \<Rightarrow> 'g CudaState \<Rightarrow>
    (ValidationDescriptor result \<times> 'g CudaState) option"
  cb_load :: "KernelCompatibilityKey \<Rightarrow> bytes \<Rightarrow> DeviceDescriptor \<Rightarrow> 'g CudaState \<Rightarrow>
    (CudaModule option result \<times> 'g CudaState) option"
  cb_unload :: "CudaModule option \<Rightarrow> 'g CudaState \<Rightarrow> ((unit result \<times> CudaModule option) \<times> 'g CudaState) option"
  cb_execute :: "CudaModule option \<Rightarrow> 'f list \<times> 'f list \<times> 'f list \<times> u32 \<Rightarrow> nat \<Rightarrow> 'g CudaState \<Rightarrow>
    ('f list result \<times> 'g CudaState) option"
  cb_footprint :: "CudaModule option \<Rightarrow> u64 \<times> bool"

definition make_cuda_backend_on ::
  "('f, 'x) GpuFloatOps_scheme \<Rightarrow> (nat \<Rightarrow> u64) \<Rightarrow> ('f, 'g) CudaDriver \<Rightarrow> 'g NvrtcDriver \<Rightarrow> 'g CudaState \<Rightarrow>
    (('f, 'g) CudaBackend option \<times> 'g CudaState) option" where
  "make_cuda_backend_on F rng d nv st = do {
     (ready, st) \<leftarrow> cuda_ready d st;
     Some (if \<not> ready then None
           else Some \<lparr>cb_name = cuda_name, cb_can_build = cuda_can_build, cb_build = cuda_build d nv,
                  cb_validate = cuda_validate F rng d, cb_load = cuda_load d, cb_unload = cuda_unload d,
                  cb_execute = cuda_execute d, cb_footprint = cuda_resident_footprint\<rparr>, st)
   }"

definition cuda_backend_available_on :: "('f, 'g) CudaDriver \<Rightarrow> 'g CudaState \<Rightarrow> (bool \<times> 'g CudaState) option" where
  "cuda_backend_available_on d st =
     (case availability st of
        Some s \<Rightarrow> Some (s, st)
      | None \<Rightarrow> map_option (\<lambda>(s, st). (s, st\<lparr>availability := Some s\<rparr>)) (cuda_ready d st))"

end
