(* ===== verification/KC_CudaCorrect.thy ===== *)
theory KC_CudaCorrect
  imports KC_CudaBackend
begin

text \<open>
  What the CUDA backend relies on of the driver and the runtime compiler, and what follows: every
  device buffer, module and program is given back on every path, and a kernel that passes
  validation agrees with the reference. The contracts are stated over the function pointers, so a
  driver that meets one has all of its symbols.
\<close>

subsection \<open>Contracts\<close>

datatype Resource = Buffer CUdeviceptr | Module CUmodule | Program nvrtcProgram

text \<open>A call that creates and destroys nothing, one that creates a resource unless it fails, one that destroys one.\<close>

definition keeps :: "('g \<Rightarrow> Resource set) \<Rightarrow> ('g \<Rightarrow> 'r \<times> 'g) option \<Rightarrow> bool" where
  "keeps hld p \<longleftrightarrow> (\<exists>f. p = Some f \<and> (\<forall>g. hld (snd (f g)) = hld g))"

definition creates :: "('g \<Rightarrow> Resource set) \<Rightarrow> (u64 \<Rightarrow> Resource) \<Rightarrow> ('g \<Rightarrow> (int \<times> u64) \<times> 'g) option \<Rightarrow> bool" where
  "creates hld c p \<longleftrightarrow> (\<exists>f. p = Some f \<and> (\<forall>g r x g'. f g = ((r, x), g') \<longrightarrow>
     (if r = 0 then x \<noteq> 0 \<and> c x \<notin> hld g \<and> hld g' = insert (c x) (hld g) else hld g' = hld g)))"

definition destroys :: "('g \<Rightarrow> Resource set) \<Rightarrow> Resource \<Rightarrow> ('g \<Rightarrow> 'r \<times> 'g) option \<Rightarrow> bool" where
  "destroys hld x p \<longleftrightarrow> (\<exists>f. p = Some f \<and> (\<forall>g. hld (snd (f g)) = hld g - {x}))"

definition sound_driver :: "('f, 'g) CudaDriver \<Rightarrow> ('g \<Rightarrow> Resource set) \<Rightarrow> bool" where
  "sound_driver d hld \<longleftrightarrow>
     keeps hld (cuInit d) \<and> keeps hld (cuCtxSynchronize d) \<and>
     (\<forall>x. keeps hld (ap (cuDeviceGet d) x)) \<and> (\<forall>x. keeps hld (ap (cuCtxCreate d) x)) \<and>
     (\<forall>x. keeps hld (ap (cuCtxSetCurrent d) x)) \<and>
     (\<forall>m f. keeps hld (ap (ap (cuModuleGetFunction d) m) f)) \<and>
     (\<forall>p a n. keeps hld (ap (ap (ap (cuMemcpyHtoD d) p) a) n)) \<and>
     (\<forall>a p n. keeps hld (ap (ap (ap (cuMemcpyDtoH d) a) p) n)) \<and>
     (\<forall>f x y z. keeps hld (ap (ap (ap (ap (cuLaunchKernel d) f) x) y) z)) \<and>
     (\<forall>n. creates hld Buffer (ap (cuMemAlloc d) n)) \<and> (\<forall>p. destroys hld (Buffer p) (ap (cuMemFree d) p)) \<and>
     (\<forall>b. creates hld Module (ap (cuModuleLoadDataEx d) b)) \<and>
     (\<forall>m. destroys hld (Module m) (ap (cuModuleUnload d) m))"

definition sound_compiler :: "'g NvrtcDriver \<Rightarrow> ('g \<Rightarrow> Resource set) \<Rightarrow> bool" where
  "sound_compiler nv hld \<longleftrightarrow>
     (\<forall>s f. creates hld Program (ap (ap (nvrtcCreateProgram nv) s) f)) \<and>
     (\<forall>p. destroys hld (Program p) (ap (nvrtcDestroyProgram nv) p)) \<and>
     (\<forall>p x. keeps hld (ap (ap (nvrtcCompileProgram nv) p) x)) \<and>
     (\<forall>p. keeps hld (ap (nvrtcGetCUBINSize nv) p)) \<and> (\<forall>p x. keeps hld (ap (ap (nvrtcGetCUBIN nv) p) x)) \<and>
     (\<forall>p. keeps hld (ap (nvrtcGetProgramLogSize nv) p)) \<and> (\<forall>p x. keeps hld (ap (ap (nvrtcGetProgramLog nv) p) x))"

subsection \<open>A postcondition calculus\<close>

definition post :: "('a \<Rightarrow> bool) \<Rightarrow> 'a option \<Rightarrow> bool" where
  "post Q m \<longleftrightarrow> (\<exists>x. m = Some x \<and> Q x)"

lemma post_Some: "Q x \<Longrightarrow> post Q (Some x)"
  by (simp add: post_def)

lemma post_map: "post P m \<Longrightarrow> (\<And>x. P x \<Longrightarrow> Q (f x)) \<Longrightarrow> post Q (map_option f m)"
  by (auto simp: post_def)

lemma post_if: "(b \<Longrightarrow> post Q m) \<Longrightarrow> (\<not> b \<Longrightarrow> post Q m') \<Longrightarrow> post Q (if b then m else m')"
  by simp

lemma post_sum:
  "(\<And>x. s = Inl x \<Longrightarrow> post Q (f x)) \<Longrightarrow> (\<And>y. s = Inr y \<Longrightarrow> post Q (g y)) \<Longrightarrow> post Q (case_sum f g s)"
  by (cases s) simp_all

lemma post_prod: "(\<And>x y. p = (x, y) \<Longrightarrow> post Q (f x y)) \<Longrightarrow> post Q (case_prod f p)"
  by (cases p) simp

lemma post_prod_app: "(\<And>x y. p = (x, y) \<Longrightarrow> post Q (f x y z)) \<Longrightarrow> post Q (case_prod f p z)"
  by (cases p) simp

lemma post_mono: "post P m \<Longrightarrow> (\<And>x. P x \<Longrightarrow> Q x) \<Longrightarrow> post Q m"
  by (auto simp: post_def)

lemma post_bind: "post P m \<Longrightarrow> (\<And>x. P x \<Longrightarrow> post Q (k x)) \<Longrightarrow> post Q (m \<bind> k)"
  by (auto simp: post_def)

lemma post_bind2: "post P m \<Longrightarrow> (\<And>x y. P (x, y) \<Longrightarrow> post Q (k x y)) \<Longrightarrow> post Q (m \<bind> case_prod k)"
  by (auto simp: post_def)

lemmas post_rules = post_Some post_if post_sum post_prod post_prod_app

subsection \<open>Resources\<close>

text \<open>A command that leaves the resources as they are.\<close>

abbreviation same :: "('g \<Rightarrow> Resource set) \<Rightarrow> 'g CudaState \<Rightarrow> 'g CudaState \<Rightarrow> bool" where
  "same hld st st' \<equiv> hld (gpu st') = hld (gpu st)"

lemma post_invoke: "post P (invoke p st) \<longleftrightarrow> (\<exists>f. p = Some f \<and> P (fst (f (gpu st)), st\<lparr>gpu := snd (f (gpu st))\<rparr>))"
  by (auto simp: post_def invoke_def split: option.splits prod.splits)

lemma post_keeps: "keeps hld p \<Longrightarrow> post (\<lambda>x. same hld st (snd x)) (invoke p st)"
  by (auto simp: keeps_def post_invoke)

lemma post_destroys: "destroys hld x p \<Longrightarrow> post (\<lambda>y. hld (gpu (snd y)) = hld (gpu st) - {x}) (invoke p st)"
  by (auto simp: destroys_def post_invoke)

lemma post_creates:
  "creates hld c p \<Longrightarrow> post (\<lambda>((r, x), st').
     if r = 0 then x \<noteq> 0 \<and> c x \<notin> hld (gpu st) \<and> hld (gpu st') = insert (c x) (hld (gpu st)) else same hld st st') (invoke p st)"
  by (auto simp: creates_def post_invoke split: prod.split) (metis prod.collapse)+

lemma sound_driverD:
  assumes "sound_driver d hld"
  shows "keeps hld (cuInit d)" "keeps hld (cuCtxSynchronize d)" "keeps hld (ap (cuDeviceGet d) i)"
    "keeps hld (ap (cuCtxCreate d) i)" "keeps hld (ap (cuCtxSetCurrent d) c)"
    "keeps hld (ap (ap (cuModuleGetFunction d) m) s)" "keeps hld (ap (ap (ap (cuMemcpyHtoD d) p) a) n)"
    "keeps hld (ap (ap (ap (cuMemcpyDtoH d) a) p) n)" "keeps hld (ap (ap (ap (ap (cuLaunchKernel d) f) x) y) z)"
    "creates hld Buffer (ap (cuMemAlloc d) n)" "creates hld Module (ap (cuModuleLoadDataEx d) b)"
    "destroys hld (Buffer p) (ap (cuMemFree d) p)" "destroys hld (Module m) (ap (cuModuleUnload d) m)"
  using assms unfolding sound_driver_def by (blast+)

lemmas post_driver = sound_driverD(1-9) [THEN post_keeps] sound_driverD(10-11) [THEN post_creates]
  sound_driverD(12-13) [THEN post_destroys]

lemma sound_compilerD:
  assumes "sound_compiler nv hld"
  shows "keeps hld (ap (ap (nvrtcCompileProgram nv) p) x)" "keeps hld (ap (nvrtcGetCUBINSize nv) p)"
    "keeps hld (ap (ap (nvrtcGetCUBIN nv) p) b)" "keeps hld (ap (nvrtcGetProgramLogSize nv) p)"
    "keeps hld (ap (ap (nvrtcGetProgramLog nv) p) s)" "creates hld Program (ap (ap (nvrtcCreateProgram nv) s) t)"
    "destroys hld (Program p) (ap (nvrtcDestroyProgram nv) p)"
  using assms unfolding sound_compiler_def by simp_all

lemmas post_compiler = sound_compilerD(1-5) [THEN post_keeps] sound_compilerD(6) [THEN post_creates]
  sound_compilerD(7) [THEN post_destroys]

lemma post_bind_context:
  assumes "sound_driver d hld"
  shows "post (same hld st) (bind_context d st)"
  unfolding bind_context_def by (intro post_rules post_map [OF post_driver(5) [OF assms]]) auto

lemma post_cuda_init:
  assumes "sound_driver d hld"
  shows "post (\<lambda>x. same hld st (snd x)) (cuda_init d st)"
  unfolding cuda_init_def
  by (intro post_rules post_driver [OF assms, THEN post_bind2] post_driver(5) [OF assms, THEN post_mono]) auto

lemma post_cuda_ready:
  assumes "sound_driver d hld"
  shows "post (\<lambda>x. same hld st (snd x)) (cuda_ready d st)"
proof -
  have "post (\<lambda>x. same hld st (snd x)) (case ready_status st of Some s \<Rightarrow> Some (s, st)
      | None \<Rightarrow> map_option (\<lambda>(s, st). (s, st\<lparr>ready_status := Some s\<rparr>)) (cuda_init d st))"
    by (cases "ready_status st") (simp_all add: post_Some post_map [OF post_cuda_init [OF assms]] case_prod_unfold)
  then show ?thesis unfolding cuda_ready_def
    by (rule post_bind2) (intro post_rules post_bind_context [OF assms, THEN post_bind], auto)
qed

lemma post_unload_module:
  assumes "sound_driver d hld"
  shows "post (\<lambda>st'. hld (gpu st') = hld (gpu st) - {Module m}) (cuda_unload_module d m st)"
  unfolding cuda_unload_module_def by (rule post_map [OF post_driver(13) [OF assms]])

lemma post_free:
  assumes "sound_driver d hld"
  shows "post (\<lambda>st'. hld (gpu st') = hld (gpu st) - {Buffer p}) (cuda_free d p st)"
  unfolding cuda_free_def by (rule post_map [OF post_driver(12) [OF assms]])

fun buffers :: "CUdeviceptr \<times> CUdeviceptr \<times> CUdeviceptr \<Rightarrow> Resource set" where
  "buffers (da, db, dout) = {Buffer da, Buffer db, Buffer dout}"

fun distinct3 :: "'a \<times> 'a \<times> 'a \<Rightarrow> bool" where
  "distinct3 (x, y, z) \<longleftrightarrow> x \<noteq> y \<and> x \<noteq> z \<and> y \<noteq> z"

lemma post_free3:
  assumes "sound_driver d hld"
  shows "post (\<lambda>st'. hld (gpu st') = hld (gpu st) - buffers (da, db, dout)) (cuda_free3 d da db dout st)"
  unfolding cuda_free3_def
  by (intro post_free [OF assms, THEN post_bind] post_free [OF assms, THEN post_mono]) auto

lemma post_alloc3:
  assumes "sound_driver d hld"
  shows "post (\<lambda>(bufs, st'). case bufs of Inl e \<Rightarrow> same hld st st'
      | Inr bufs \<Rightarrow> distinct3 bufs \<and> hld (gpu st) \<inter> buffers bufs = {} \<and> hld (gpu st') = hld (gpu st) \<union> buffers bufs) (cuda_alloc3 d byten st)"
  unfolding cuda_alloc3_def
  by (intro post_rules post_driver [OF assms, THEN post_bind2] post_free [OF assms, THEN post_bind]) auto

lemma post_launch:
  assumes "sound_driver d hld"
  shows "post (\<lambda>x. hld (gpu (snd x)) = hld (gpu st) - buffers bufs) (cuda_launch d fn block n a b out bufs st)"
  unfolding cuda_launch_def
  by (intro post_rules post_driver [OF assms, THEN post_bind2] post_free3 [OF assms, THEN post_bind]) auto


lemma cuda_validate_balanced:
  assumes "sound_driver d hld"
  shows "post (\<lambda>(res, st'). (\<exists>vd. res = Inr vd) \<and> same hld st st') (cuda_validate F rng d key b dev st)"
  unfolding cuda_validate_def Let_def
  by (intro post_rules post_cuda_ready [OF assms, THEN post_bind2] post_bind_context [OF assms, THEN post_bind]
      post_driver [OF assms, THEN post_bind2] post_unload_module [OF assms, THEN post_bind]
      post_alloc3 [OF assms, THEN post_bind2] post_launch [OF assms, THEN post_bind2]) auto

lemma cuda_execute_balanced:
  assumes "sound_driver d hld"
  shows "post (\<lambda>(res, st'). same hld st st') (cuda_execute d handle args arg_bytes st)"
proof (cases handle)
  case (Some m)
  show ?thesis unfolding cuda_execute_def Let_def Some option.case
    by (intro post_rules post_bind_context [OF assms, THEN post_bind] post_alloc3 [OF assms, THEN post_bind2]
        post_launch [OF assms, THEN post_bind2]) auto
qed (simp add: cuda_execute_def post_def)

lemma cuda_load_balanced:
  assumes "sound_driver d hld"
  shows "post (\<lambda>(res, st'). (\<exists>e. res = Inl e) \<and> same hld st st' \<or>
    (\<exists>m. res = Inr (Some m) \<and> cm_module m \<noteq> 0 \<and> cm_block_x m \<noteq> 0 \<and> Module (cm_module m) \<notin> hld (gpu st) \<and>
      hld (gpu st') = insert (Module (cm_module m)) (hld (gpu st)))) (cuda_load d key b dev st)"
  unfolding cuda_load_def Let_def
  by (intro post_rules post_cuda_ready [OF assms, THEN post_bind2] post_bind_context [OF assms, THEN post_bind]
      post_driver [OF assms, THEN post_bind2] post_unload_module [OF assms, THEN post_bind]) (auto simp: key_block_def)

lemma cuda_unload_balanced:
  assumes "sound_driver d hld" and "cm_module m \<noteq> 0"
  shows "post (\<lambda>((res, h), st'). res = ok \<and> h = Some (m\<lparr>cm_module := 0, cm_func := 0\<rparr>) \<and>
    hld (gpu st') = hld (gpu st) - {Module (cm_module m)}) (cuda_unload d (Some m) st)"
  unfolding cuda_unload_def option.case
  by (intro post_rules post_unload_module [OF assms(1), THEN post_bind]) (use assms(2) in auto)

lemma post_compile_log:
  assumes "sound_compiler nv hld"
  shows "post (\<lambda>x. same hld st (snd x)) (compile_log nv prog st)"
  unfolding compile_log_def Let_def
  by (intro post_rules post_compiler [OF assms, THEN post_bind2] post_compiler(5) [OF assms, THEN post_map]) auto

lemma post_fetch_cubin:
  assumes "sound_compiler nv hld"
  shows "post (\<lambda>x. same hld st (snd x)) (fetch_cubin nv prog st)"
  unfolding fetch_cubin_def Let_def
  by (intro post_rules post_compiler [OF assms, THEN post_bind2] post_compiler(3) [OF assms, THEN post_map]) auto

lemma cuda_build_balanced:
  assumes "sound_driver d hld" "sound_compiler nv hld"
  shows "post (\<lambda>(res, st'). same hld st st') (cuda_build d nv req st)"
  unfolding cuda_build_def Let_def
  by (intro post_rules post_cuda_ready [OF assms(1), THEN post_bind2] post_compiler [OF assms(2), THEN post_bind2]
      post_compile_log [OF assms(2), THEN post_bind2] post_fetch_cubin [OF assms(2), THEN post_bind2]) auto

subsection \<open>Device memory\<close>

text \<open>
  Copies from and to live buffers of the right size succeed; a launch that succeeds leaves in the
  output what the kernel computes from its inputs with the given number of threads.
\<close>

definition device_memory ::
  "('f, 'g) CudaDriver \<Rightarrow> ('g \<Rightarrow> Resource set) \<Rightarrow> ('g \<Rightarrow> CUdeviceptr \<Rightarrow> 'f list) \<Rightarrow>
    (CUfunction \<Rightarrow> nat \<Rightarrow> 'f list \<Rightarrow> 'f list \<Rightarrow> int \<Rightarrow> 'f list) \<Rightarrow> bool" where
  "device_memory d hld mem kern \<longleftrightarrow>
     (\<forall>f p xs n g. cuMemcpyHtoD d = Some f \<and> Buffer p \<in> hld g \<and> unat n = 4 * length xs \<longrightarrow>
        mem (snd (f p xs n g)) = (mem g)(p := xs)) \<and>
     (\<forall>f fn x y da db dout ni g. cuLaunchKernel d = Some f \<and> buffers (da, db, dout) \<subseteq> hld g \<and>
        fst (f fn x y (dout, da, db, ni) g) = 0 \<longrightarrow>
        mem (snd (f fn x y (dout, da, db, ni) g)) dout = kern fn (unat x * unat y) (mem g da) (mem g db) (sint ni)) \<and>
     (\<forall>f g. cuCtxSynchronize d = Some f \<longrightarrow> mem (snd (f g)) = mem g) \<and>
     (\<forall>f xs p n g. cuMemcpyDtoH d = Some f \<and> Buffer p \<in> hld g \<and> unat n = 4 * length (mem g p) \<and>
        length xs = length (mem g p) \<longrightarrow> snd (fst (f xs p n g)) = mem g p) \<and>
     (\<forall>fn t a b k. length (kern fn t a b k) = length a)"

lemma post_htod:
  assumes "sound_driver d hld" "device_memory d hld mem kern" "Buffer p \<in> hld (gpu st)" "unat n = 4 * length xs"
  shows "post (\<lambda>x. same hld st (snd x) \<and> mem (gpu (snd x)) = (mem (gpu st))(p := xs))
    (invoke (ap (ap (ap (cuMemcpyHtoD d) p) xs) n) st)"
  using sound_driverD(7) [OF assms(1), where p = p and a = xs and n = n] assms(2-4) by (auto simp: keeps_def post_invoke device_memory_def)

lemma post_launch_kernel:
  assumes "sound_driver d hld" "device_memory d hld mem kern" "buffers (da, db, dout) \<subseteq> hld (gpu st)"
  shows "post (\<lambda>x. same hld st (snd x) \<and> (fst x = 0 \<longrightarrow> mem (gpu (snd x)) dout =
      kern fn (unat x1 * unat y1) (mem (gpu st) da) (mem (gpu st) db) (sint ni)))
    (invoke (ap (ap (ap (ap (cuLaunchKernel d) fn) x1) y1) (dout, da, db, ni)) st)"
  using sound_driverD(9) [OF assms(1), where f = fn and x = x1 and y = y1 and z = "(dout, da, db, ni)"] assms(2,3)
  by (auto simp: keeps_def post_invoke device_memory_def)

lemma post_synchronize:
  assumes "sound_driver d hld" "device_memory d hld mem kern"
  shows "post (\<lambda>x. same hld st (snd x) \<and> mem (gpu (snd x)) = mem (gpu st)) (invoke (cuCtxSynchronize d) st)"
  using sound_driverD(2) [OF assms(1)] assms(2) by (auto simp: keeps_def post_invoke device_memory_def)

lemma post_dtoh:
  assumes "sound_driver d hld" "device_memory d hld mem kern" "Buffer p \<in> hld (gpu st)"
    "unat n = 4 * length (mem (gpu st) p)" "length xs = length (mem (gpu st) p)"
  shows "post (\<lambda>x. snd (fst x) = mem (gpu st) p) (invoke (ap (ap (ap (cuMemcpyDtoH d) xs) p) n) st)"
  using sound_driverD(8) [OF assms(1), where p = p and a = xs and n = n] assms(2-5) by (auto simp: keeps_def post_invoke device_memory_def)

lemma kern_length: "device_memory d hld mem kern \<Longrightarrow> length (kern fn t a b k) = length a"
  by (simp add: device_memory_def)

lemma post_launch_output:
  assumes s: "sound_driver d hld" and m: "device_memory d hld mem kern"
    and b: "buffers bufs \<subseteq> hld (gpu st)" "distinct3 bufs"
    and n: "unat (n * 4) = 4 * unat n" "length a = unat n" "length b = unat n" "length out = unat n"
  shows "post (\<lambda>x. \<forall>out'. fst x = Inr out' \<longrightarrow>
      out' = kern fn (unat (grid_size n block) * unat block) a b (sint (ucast n :: u32))) (cuda_launch d fn block n a b out bufs st)"
proof -
  obtain da db dout where e: "bufs = (da, db, dout)" by (cases bufs) auto
  show ?thesis unfolding cuda_launch_def e prod.case
    by (intro post_rules post_htod [OF s m, THEN post_bind2] post_launch_kernel [OF s m, THEN post_bind2]
        post_synchronize [OF s m, THEN post_bind2] post_dtoh [OF s m, THEN post_bind2] post_free3 [OF s, THEN post_bind])
      (use b n in \<open>auto simp: e kern_length [OF m]\<close>)
qed

subsection \<open>Launch dimensions\<close>

lemma div_ceil:
  fixes n b :: nat
  assumes "0 < n" "0 < b"
  shows "n \<le> ((n + b - 1) div b) * b \<and> ((n + b - 1) div b - 1) * b < n"
proof -
  obtain k where k: "n = Suc k" using assms(1) by (cases n) auto
  define p where "p = k div b * b"
  have "((n + b - 1) div b) * b = p + b" "((n + b - 1) div b - 1) * b = p" using assms(2) by (simp_all add: k p_def)
  moreover have "p + k mod b = k" by (simp add: p_def)
  moreover have "k mod b < b" using assms(2) by simp
  ultimately show ?thesis by (simp add: k)
qed

lemma unat_ucast_u32: "unat (ucast (b :: u32) :: u64) = unat b"
  by (simp add: unsigned_ucast_eq take_bit_nat_eq_self_iff) (rule order_less_trans [OF unsigned_less], simp)

lemma unat_round_up:
  assumes "0 < unat block" "unat n + unat block \<le> 2 ^ 64"
  shows "unat ((n :: u64) + ucast (block :: u32) - 1) = unat n + unat block - 1"
proof -
  have "unat (ucast block - 1 :: u64) = unat block - 1"
    using assms(1) by (subst unat_minus_one) (auto simp: unat_ucast_u32 simp flip: unat_eq_0)
  then have "unat (n + (ucast block - 1)) = unat n + (unat block - 1)"
    using assms by (simp add: unat_word_ariths)
  then show ?thesis using assms(1) by (simp add: add_diff_eq)
qed

lemma grid_size_nat:
  assumes "0 < unat n" "0 < unat block" "unat n + unat block \<le> 2 ^ 64" "unat n \<le> unat block * (2 ^ 32 - 1)"
  shows "unat (grid_size n block) = (unat n + unat block - 1) div unat block"
proof -
  define q where "q = (unat n + unat block - 1) div unat block"
  have "(q - 1) * unat block < unat n" using div_ceil [OF assms(1,2)] by (simp add: q_def)
  also have "\<dots> \<le> (2 ^ 32 - 1) * unat block" using assms(4) by (simp add: mult.commute)
  finally have "q < 2 ^ 32" using assms(2) by simp
  moreover have "unat ((n + ucast block - 1) div ucast block) = q"
    using unat_round_up [OF assms(2,3)] by (simp add: unat_div q_def unat_ucast_u32)
  ultimately show ?thesis
    unfolding grid_size_def q_def [symmetric] by (simp add: unsigned_ucast_eq take_bit_nat_eq_self)
qed

subsection \<open>The verdict\<close>

lemma ref_step_eq: "ref_step F x a b = op_step F x a (Some b)"
  by (cases x) (simp_all add: fun_eq_iff ref_step_def op_step_def)

lemma cuda_reference_nth: "i < n \<Longrightarrow> cuda_reference F x a b n ! i = op_value_at F x a (Some b) i"
  using op_kernel_nth [of n "replicate n (f_zero F)" i F x a "Some b"]
  by (simp add: cuda_reference_def op_kernel_def ref_step_eq)

lemma length_test [simp]: "length (test_a F rng n) = n" "length (test_b F rng n) = n"
  by (simp_all add: test_a_def test_b_def)

text \<open>A kernel agrees with the operation on the test inputs.\<close>

definition agrees :: "('f, 'x) GpuFloatOps_scheme \<Rightarrow> (nat \<Rightarrow> u64) \<Rightarrow> Op \<Rightarrow> nat \<Rightarrow> 'f list \<Rightarrow> bool" where
  "agrees F rng x n out \<longleftrightarrow> (\<forall>i < n. \<not> f_far F (out ! i) (op_value_at F x (test_a F rng n) (Some (test_b F rng n)) i))"

text \<open>The output of a kernel that the driver finds in a module under the name of the key.\<close>

definition kernel_output ::
  "('f, 'x) GpuFloatOps_scheme \<Rightarrow> (nat \<Rightarrow> u64) \<Rightarrow> (CUfunction \<Rightarrow> nat \<Rightarrow> 'f list \<Rightarrow> 'f list \<Rightarrow> int \<Rightarrow> 'f list) \<Rightarrow>
    KernelCompatibilityKey \<Rightarrow> CUfunction \<Rightarrow> 'f list" where
  "kernel_output F rng kern key fn =
     kern fn (unat (grid_size (key_n key) (key_block key)) * unat (key_block key)) (test_a F rng (unat (key_n key)))
       (test_b F rng (unat (key_n key))) (sint (ucast (key_n key) :: u32))"

definition resolves :: "('f, 'g) CudaDriver \<Rightarrow> string \<Rightarrow> CUfunction \<Rightarrow> bool" where
  "resolves d s fn \<longleftrightarrow> (\<exists>f m g. cuModuleGetFunction d = Some f \<and> fst (f m s g) = (0, fn))"

lemma post_get_function:
  assumes "sound_driver d hld"
  shows "post (\<lambda>x. same hld st (snd x) \<and> (fst (fst x) = 0 \<longrightarrow> resolves d s (snd (fst x))))
    (invoke (ap (ap (cuModuleGetFunction d) m) s) st)"
  using sound_driverD(6) [OF assms, where m = m and s = s]
  by (auto simp: keeps_def post_invoke resolves_def) (metis prod.collapse)

lemma cuda_validate_verdict:
  assumes s: "sound_driver d hld" and m: "device_memory d hld mem kern" and n: "unat (key_n key) < 2 ^ 62"
  shows "post (\<lambda>x. \<exists>vd. fst x = Inr vd \<and> (all_passed vd \<longrightarrow> execution_smoke vd) \<and>
      (execution_smoke vd \<longrightarrow> (\<exists>fn. resolves d (c_str (kernel_fname key)) fn \<and>
        (all_passed vd \<longleftrightarrow> b \<noteq> [] \<and> agrees F rng (derive_op key) (unat (key_n key)) (kernel_output F rng kern key fn)))))
    (cuda_validate F rng d key b dev st)"
proof -
  have n4: "unat (key_n key * 4) = 4 * unat (key_n key)" using n by (simp add: unat_word_ariths)
  show ?thesis
    unfolding cuda_validate_def Let_def
    by (intro post_rules post_cuda_ready [OF s, THEN post_bind2] post_bind_context [OF s, THEN post_bind]
        post_driver(11) [OF s, THEN post_bind2] post_get_function [OF s, THEN post_bind2]
        post_unload_module [OF s, THEN post_bind] post_alloc3 [OF s, THEN post_bind2]
        post_launch_output [OF s m, THEN post_bind2])
      (use n4 in \<open>auto simp: all_passed_def ValidationDescriptor_new_def agrees_def kernel_output_def cuda_reference_nth\<close>)
qed

subsection \<open>A simulated device\<close>

text \<open>A device that meets the contracts: buffers, modules and programs in lists, kernels given as a function.\<close>

record 'f SimGpu =
  sg_mem :: "(CUdeviceptr \<times> 'f list) list"
  sg_mods :: "CUmodule list"
  sg_progs :: "nvrtcProgram list"

definition free_handle :: "u64 list \<Rightarrow> u64 option" where
  "free_handle xs = find (\<lambda>p. p \<noteq> 0 \<and> p \<notin> set xs) (map word_of_nat [1..<length xs + 2])"

definition sim_get :: "'f SimGpu \<Rightarrow> CUdeviceptr \<Rightarrow> 'f list" where
  "sim_get g p = (case map_of (sg_mem g) p of None \<Rightarrow> [] | Some xs \<Rightarrow> xs)"

definition sim_set :: "CUdeviceptr \<Rightarrow> 'f list \<Rightarrow> 'f SimGpu \<Rightarrow> 'f SimGpu" where
  "sim_set p xs g = g\<lparr>sg_mem := map (\<lambda>(q, ys). (q, if q = p then xs else ys)) (sg_mem g)\<rparr>"

definition sim_held :: "'f SimGpu \<Rightarrow> Resource set" where
  "sim_held g = Buffer ` fst ` set (sg_mem g) \<union> Module ` set (sg_mods g) \<union> Program ` set (sg_progs g)"

type_synonym 'f kernels = "CUfunction \<Rightarrow> nat \<Rightarrow> 'f list \<Rightarrow> 'f list \<Rightarrow> int \<Rightarrow> 'f list"

definition sim_library :: "'f kernels \<Rightarrow> ('f, 'f SimGpu) CudaDriver" where
  "sim_library kern = \<lparr>drv_ok = False,
     cuInit = Some (\<lambda>g. (0, g)),
     cuDeviceGetCount = Some (\<lambda>g. ((0, 1), g)),
     cuModuleLoadDataEx = Some (\<lambda>b g. case free_handle (sg_mods g) of None \<Rightarrow> ((2, 0), g)
       | Some m \<Rightarrow> ((0, m), g\<lparr>sg_mods := m # sg_mods g\<rparr>)),
     cuModuleGetFunction = Some (\<lambda>m s g. ((0, 1), g)),
     cuMemAlloc = Some (\<lambda>n g. case free_handle (map fst (sg_mem g)) of None \<Rightarrow> ((2, 0), g)
       | Some p \<Rightarrow> ((0, p), g\<lparr>sg_mem := (p, []) # sg_mem g\<rparr>)),
     cuMemFree = Some (\<lambda>p g. (0, g\<lparr>sg_mem := filter (\<lambda>x. fst x \<noteq> p) (sg_mem g)\<rparr>)),
     cuMemcpyHtoD = Some (\<lambda>p xs n g. (0, sim_set p xs g)),
     cuMemcpyDtoH = Some (\<lambda>xs p n g. ((0, sim_get g p), g)),
     cuLaunchKernel = Some (\<lambda>fn x y (dout, da, db, ni) g.
       (0, sim_set dout (kern fn (unat x * unat y) (sim_get g da) (sim_get g db) (sint ni)) g)),
     cuCtxSynchronize = Some (\<lambda>g. (0, g)),
     cuModuleUnload = Some (\<lambda>m g. (0, g\<lparr>sg_mods := filter (\<lambda>x. x \<noteq> m) (sg_mods g)\<rparr>)),
     cuDeviceGet = Some (\<lambda>i g. ((0, i), g)),
     cuCtxCreate = Some (\<lambda>dev g. ((0, 1), g)),
     cuCtxSetCurrent = Some (\<lambda>c g. (0, g))\<rparr>"

definition sim_compiler :: "'f SimGpu NvrtcDriver" where
  "sim_compiler = \<lparr>nv_ok = True,
     nvrtcCreateProgram = Some (\<lambda>s f g. case free_handle (sg_progs g) of None \<Rightarrow> ((1, 0), g)
       | Some p \<Rightarrow> ((0, p), g\<lparr>sg_progs := p # sg_progs g\<rparr>)),
     nvrtcCompileProgram = Some (\<lambda>p x g. (0, g)),
     nvrtcGetCUBINSize = Some (\<lambda>p g. ((0, Some 3), g)),
     nvrtcGetCUBIN = Some (\<lambda>p b g. ((0, [1, 2, 3]), g)),
     nvrtcGetProgramLogSize = Some (\<lambda>p g. ((0, None), g)),
     nvrtcGetProgramLog = Some (\<lambda>p b g. ((0, b), g)),
     nvrtcDestroyProgram = Some (\<lambda>p g. (0, g\<lparr>sg_progs := filter (\<lambda>x. x \<noteq> p) (sg_progs g)\<rparr>))\<rparr>"

abbreviation sim_driver :: "'f kernels \<Rightarrow> ('f, 'f SimGpu) CudaDriver" where
  "sim_driver kern \<equiv> driver True (Some (sim_library kern))"

definition sim_start :: "'f SimGpu CudaState" where
  "sim_start = \<lparr>gpu = \<lparr>sg_mem = [], sg_mods = [], sg_progs = []\<rparr>, g_cuda_ctx = 0, ready_status = None, availability = None\<rparr>"

lemma free_handle_Some: "free_handle xs = Some p \<Longrightarrow> p \<noteq> 0 \<and> p \<notin> set xs"
  by (auto simp: free_handle_def find_Some_iff)

lemma free_handle_small: "free_handle [] = Some 1" "free_handle [1] = Some 2" "free_handle [2, 1] = Some 3"
  by code_simp+

lemma free_handle_fst: "free_handle (map fst xs) = Some p \<Longrightarrow> (p, y) \<notin> set xs"
  by (force dest!: free_handle_Some)

lemma sim_held_set [simp]: "sim_held (sim_set p xs g) = sim_held g"
  by (force simp: sim_held_def sim_set_def)

lemma mem_sim_held:
  "Buffer p \<in> sim_held g \<longleftrightarrow> p \<in> fst ` set (sg_mem g)" "Module m \<in> sim_held g \<longleftrightarrow> m \<in> set (sg_mods g)"
  "Program r \<in> sim_held g \<longleftrightarrow> r \<in> set (sg_progs g)"
  by (auto simp: sim_held_def)

lemma sim_get_set: "sim_get (sim_set p xs g) q = (if q = p \<and> Buffer p \<in> sim_held g then xs else sim_get g q)"
proof -
  have "map_of (map (\<lambda>(q, ys). (q, if q = p then xs else ys)) ms) q =
      (if q = p \<and> p \<in> fst ` set ms then Some xs else map_of ms q)" for ms :: "(CUdeviceptr \<times> 'a list) list"
    by (cases "q = p"; induction ms; simp add: case_prod_unfold)
  then show ?thesis by (simp add: sim_get_def sim_set_def mem_sim_held)
qed

lemma sim_get_upd: "Buffer p \<in> sim_held g \<Longrightarrow> sim_get (sim_set p xs g) = (sim_get g)(p := xs)"
  by (rule ext) (simp add: sim_get_set)

lemma sim_held_mem:
  "sim_held (g\<lparr>sg_mem := (p, []) # sg_mem g\<rparr>) = insert (Buffer p) (sim_held g)"
  "sim_held (g\<lparr>sg_mem := filter (\<lambda>x. fst x \<noteq> p) (sg_mem g)\<rparr>) = sim_held g - {Buffer p}"
  "sim_held (g\<lparr>sg_mods := m # sg_mods g\<rparr>) = insert (Module m) (sim_held g)"
  "sim_held (g\<lparr>sg_mods := filter (\<lambda>x. x \<noteq> m) (sg_mods g)\<rparr>) = sim_held g - {Module m}"
  "sim_held (g\<lparr>sg_progs := r # sg_progs g\<rparr>) = insert (Program r) (sim_held g)"
  "sim_held (g\<lparr>sg_progs := filter (\<lambda>x. x \<noteq> r) (sg_progs g)\<rparr>) = sim_held g - {Program r}"
  by (auto simp: sim_held_def)

lemma sim_sound: "sound_driver (sim_driver kern) sim_held"
  unfolding sound_driver_def
  by (auto simp: driver_def sim_library_def keeps_def creates_def destroys_def sim_held_mem mem_sim_held
      dest: free_handle_Some free_handle_fst split: option.splits)

lemma sim_compiler_sound: "sound_compiler sim_compiler sim_held"
  unfolding sound_compiler_def
  by (auto simp: sim_compiler_def keeps_def creates_def destroys_def sim_held_mem mem_sim_held
      dest: free_handle_Some free_handle_fst split: option.splits)

lemma sim_memory:
  "(\<And>fn t a b k. length (kern fn t a b k) = length a) \<Longrightarrow> device_memory (sim_driver kern) sim_held sim_get kern"
  unfolding device_memory_def by (auto simp: driver_def sim_library_def sim_get_upd)

subsection \<open>Properties\<close>



text \<open>
  The validator takes a kernel that computes nothing but NaN for a correct one: a value whose
  distance to every other compares as not greater than the tolerance never counts as a mismatch, so an artifact whose
  kernel fills its output with such values passes whenever the launch goes through.
\<close>

theorem cuda_nan_passes:
  assumes "sound_driver d hld" and "device_memory d hld mem kern" and "unat (key_n key) < 2 ^ 62"
    and "\<forall>fn t x y k. kern fn t x y k = replicate (length x) nan" and "\<forall>y. \<not> f_far F nan y" and "b \<noteq> []"
  shows "\<exists>vd st'. cuda_validate F rng d key b dev st = Some (Inr vd, st') \<and> all_passed vd = execution_smoke vd"
proof -
  have "agrees F rng x (unat (key_n key)) (kernel_output F rng kern key fn)" for fn x
    using assms(4,5) by (simp add: agrees_def kernel_output_def)
  then show ?thesis
    using cuda_validate_verdict [OF assms(1-3), of b F rng dev st] assms(6) unfolding post_def by (metis prod.collapse)
qed

text \<open>
  C39. The grid covers the data with less than one block to spare: with \<open>n\<close> elements, a non-empty block
  and no more blocks than fit 32 bits, the number of threads launched is at least \<open>n\<close>, and one block
  less would not do.
\<close>

theorem grid_covers:
  assumes "0 < unat n" "0 < unat block" "unat n + unat block \<le> 2 ^ 64" "unat n \<le> unat block * (2 ^ 32 - 1)"
  shows "unat n \<le> unat (grid_size n block) * unat block \<and> (unat (grid_size n block) - 1) * unat block < unat n"
  using div_ceil [OF assms(1,2)] by (simp add: grid_size_nat [OF assms])

text \<open>The two backends read the same operation name differently when it names two operations.\<close>

lemma derive_op_disagrees:
  "derive_op (add_key\<lparr>operation := ''mul_add''\<rparr>) = VecMul \<and> ck_op (parse_key (add_key\<lparr>operation := ''mul_add''\<rparr>)) = VecAdd"
  by code_simp

text \<open>The search for the compiler library ends with a file of one of the directories, or with the default name.\<close>

lemma find_nvrtc_cases:
  "find_nvrtc getenv ls = ''nvrtc64_130_0.dll'' \<or>
   (\<exists>dir \<in> set (nvrtc_dirs getenv). \<exists>fs f. ls dir = Some fs \<and> f \<in> set fs \<and> is_nvrtc_dll f \<and>
      find_nvrtc getenv ls = dir @ [CHR 92] @ f)"
proof -
  have "find_in_dirs ls dirs = ''nvrtc64_130_0.dll'' \<or>
    (\<exists>dir \<in> set dirs. \<exists>fs f. ls dir = Some fs \<and> f \<in> set fs \<and> is_nvrtc_dll f \<and> find_in_dirs ls dirs = dir @ [CHR 92] @ f)"
    for dirs
    by (induction dirs) (auto split: option.splits dest: nth_mem simp: find_Some_iff)
  then show ?thesis by (simp add: find_nvrtc_def)
qed

subsection \<open>Witnesses\<close>

definition rat_gpu :: "rat option GpuFloatOps" where
  "rat_gpu = \<lparr>f_zero = Some 0, f_add = (\<lambda>x y. case (x, y) of (Some a, Some b) \<Rightarrow> Some (a + b) | _ \<Rightarrow> None),
     f_mul = (\<lambda>x y. case (x, y) of (Some a, Some b) \<Rightarrow> Some (a * b) | _ \<Rightarrow> None), f_ne = (\<lambda>x y. x = None \<or> x \<noteq> y),
     f_sample = (\<lambda>r. Some (of_int (uint r mod 1000) / 100)),
     f_sample2 = (\<lambda>r. Some (of_int (uint r mod 2000 - 1000) / 100)),
     f_far = (\<lambda>x y. case (x, y) of (Some a, Some b) \<Rightarrow> abs (a - b) > 1 / 1000 | _ \<Rightarrow> False)\<rparr>"

definition add_kernel :: "rat option kernels" where
  "add_kernel fn t a b k = map (\<lambda>i. f_add rat_gpu (a ! i) (b ! i)) [0..<length a]"

definition nan_kernel :: "rat option kernels" where
  "nan_kernel fn t a b k = replicate (length a) None"

text \<open>The check for a complete driver misses symbols that are called: without \<^verbatim>\<open>cuDeviceGet\<close> it counts as usable, and the first use calls a null pointer.\<close>

lemma incomplete_driver_ok:
  "let d = driver True (Some ((sim_library add_kernel)\<lparr>cuDeviceGet := None\<rparr>))
   in drv_ok d \<and> cuda_backend_available_on d sim_start = None"
  by (simp add: driver_def sim_library_def cuda_backend_available_on_def cuda_ready_def cuda_init_def invoke_def sim_start_def)

text \<open>Execution does not look at the result of the copy back: when it fails, the caller is told that all is well and finds its buffer unchanged.\<close>

lemma copy_failure_reported_ok:
  assumes "sg_mem (gpu st) = []" and "cm_module m \<noteq> 0" "cm_func m \<noteq> 0"
  shows "\<exists>st'. cuda_execute ((sim_driver kern)\<lparr>cuMemcpyDtoH := Some (\<lambda>xs p n g. ((700, xs), g))\<rparr>) (Some m) (out, a, b, np) 32 st
    = Some (Inr out, st')"
  using assms
  by (simp add: cuda_execute_def bind_context_def cuda_alloc3_def cuda_launch_def cuda_free3_def cuda_free_def
      driver_def sim_library_def invoke_def free_handle_small sim_set_def Let_def)


definition gpu_key :: KernelCompatibilityKey where
  "gpu_key = add_key\<lparr>block_x := 2\<rparr>"

lemma sim_ready: "post (\<lambda>x. fst x \<and> gpu (snd x) = gpu sim_start) (cuda_ready (sim_driver kern) sim_start)"
  by (simp add: post_def cuda_ready_def cuda_init_def driver_def sim_library_def bind_context_def invoke_def sim_start_def)

lemma sim_alloc3:
  "sg_mem (gpu st) = [] \<Longrightarrow> post (\<lambda>x. fst x = Inr (1, 2, 3)) (cuda_alloc3 (sim_driver kern) n st)"
  by (simp add: post_def cuda_alloc3_def driver_def sim_library_def invoke_def free_handle_small)

lemma sim_launch: "post (\<lambda>x. \<exists>out'. fst x = Inr out') (cuda_launch (sim_driver kern) fn block n a b out bufs st)"
  by (cases bufs) (simp add: post_def cuda_launch_def cuda_free3_def cuda_free_def driver_def sim_library_def invoke_def)

lemma sim_calls:
  "post (\<lambda>st'. gpu st' = gpu st) (bind_context (sim_driver kern) st)"
  "sg_mods (gpu st) = [] \<Longrightarrow> post (\<lambda>x. fst (fst x) = 0 \<and> sg_mem (gpu (snd x)) = sg_mem (gpu st))
     (invoke (ap (cuModuleLoadDataEx (sim_driver kern)) b) st)"
  "post (\<lambda>x. fst (fst x) = 0 \<and> gpu (snd x) = gpu st) (invoke (ap (ap (cuModuleGetFunction (sim_driver kern)) m) s) st)"
  "post (\<lambda>x. True) (cuda_unload_module (sim_driver kern) m st)"
  by (simp_all add: post_def cuda_unload_module_def bind_context_def driver_def sim_library_def invoke_def free_handle_small)

lemma sim_runs:
  "post (\<lambda>x. \<exists>vd. fst x = Inr vd \<and> execution_smoke vd) (cuda_validate F rng (sim_driver kern) key b dev sim_start)"
  unfolding cuda_validate_def Let_def
  by (intro post_rules sim_ready [THEN post_bind2] sim_calls(1,4) [THEN post_bind] sim_calls(2,3) [THEN post_bind2]
      sim_alloc3 [THEN post_bind2] sim_launch [THEN post_bind2]) (auto simp: sim_start_def)

lemma key_n_gpu: "key_n gpu_key = 2" "unat (key_n gpu_key) < 2 ^ 62"
  by (simp_all add: key_n_def gpu_key_def add_key_def)


theorem cuda_nan_passes_witness:
  "\<exists>vd st'. cuda_validate rat_gpu (\<lambda>i. 0) (sim_driver nan_kernel) gpu_key [1] DeviceDescriptor_new sim_start = Some (Inr vd, st') \<and>
    all_passed vd"
proof -
  have m: "device_memory (sim_driver nan_kernel) sim_held sim_get nan_kernel"
    by (rule sim_memory) (simp add: nan_kernel_def)
  have "\<forall>y. \<not> f_far rat_gpu None y" by (simp add: rat_gpu_def)
  from cuda_nan_passes [OF sim_sound m key_n_gpu(2) _ this, of "[1]" "\<lambda>i. 0" DeviceDescriptor_new sim_start]
    sim_runs [of rat_gpu "\<lambda>i. 0" nan_kernel gpu_key "[1]" DeviceDescriptor_new]
  show ?thesis by (auto simp: post_def nan_kernel_def)
qed

theorem grid_covers_witness: "unat (grid_size 1000 256) * 256 \<ge> 1000"
  using grid_covers [of 1000 256] by simp

end
