(* ===== verification/KC_Clock.thy ===== *)
theory KC_Clock
  imports KC_Prelude "HOL-Library.Signed_Division"
begin

text \<open>
  The clock (\<^verbatim>\<open>clock.hpp\<close>, \<^verbatim>\<open>clock.cpp\<close>) and the log (\<^verbatim>\<open>log.hpp\<close>). What the two clocks of the standard
  library return is a count of ticks whose length is a fraction of a second that the platform chooses;
  \<^verbatim>\<open>duration_cast\<close> converts it in signed arithmetic and rounds towards zero. The members of the
  log other than the template are declared but not defined in the repository.
\<close>

record Ticks =
  period_num :: int
  period_den :: int
  tick_count :: int

text \<open>\<^verbatim>\<open>duration_cast\<close> to a unit of which a second has \<open>u\<close>.\<close>

definition duration_cast :: "int \<Rightarrow> Ticks \<Rightarrow> int" where
  "duration_cast u d = (tick_count d * (period_num d * u)) sdiv period_den d"

definition SystemClock_now_ns :: "Ticks \<Rightarrow> u64" where
  "SystemClock_now_ns steady = word_of_int (duration_cast (10 ^ 9) steady)"

definition SystemClock_wall_ms :: "Ticks \<Rightarrow> u64" where
  "SystemClock_wall_ms system = word_of_int (duration_cast (10 ^ 3) system)"

datatype Level = LV_Trace | LV_Debug | LV_Info | LV_Warn | LV_Error

text \<open>The template \<^verbatim>\<open>log\<close>: the arguments, already printed, are joined and written.\<close>

definition log_args :: "(Level \<Rightarrow> string \<Rightarrow> 'w) \<Rightarrow> Level \<Rightarrow> string list \<Rightarrow> 'w" where
  "log_args log_write l args = log_write l (concat args)"

lemma duration_cast_nonneg:
  "0 \<le> tick_count d \<Longrightarrow> 0 < period_num d \<Longrightarrow> 0 < period_den d \<Longrightarrow> 0 < u \<Longrightarrow>
    duration_cast u d = tick_count d * (period_num d * u) div period_den d"
  by (cases "tick_count d = 0") (simp_all add: duration_cast_def signed_divide_int_def sgn_mult)

lemma duration_cast_mono:
  assumes "0 \<le> tick_count d" "tick_count d \<le> tick_count e" "period_num e = period_num d" "period_den e = period_den d"
    and "0 < period_num d" "0 < period_den d" "0 < u"
  shows "0 \<le> duration_cast u d \<and> duration_cast u d \<le> duration_cast u e"
proof -
  have "tick_count d * (period_num d * u) \<le> tick_count e * (period_num d * u)"
    using assms by (intro mult_right_mono) simp_all
  then show ?thesis using assms by (simp add: duration_cast_nonneg zdiv_mono1 div_int_pos_iff)
qed

text \<open>
  The clock never goes backwards as long as the steady clock does not and fewer than \<open>2 ^ 64\<close>
  nanoseconds have passed since its epoch.
\<close>

theorem clock_monotone:
  assumes "0 \<le> tick_count d" "tick_count d \<le> tick_count e" "period_num e = period_num d" "period_den e = period_den d"
    and "0 < period_num d" "0 < period_den d" and "duration_cast (10 ^ 9) e < 2 ^ 64"
  shows "SystemClock_now_ns d \<le> SystemClock_now_ns e"
proof -
  have "0 \<le> duration_cast (10 ^ 9) d \<and> duration_cast (10 ^ 9) d \<le> duration_cast (10 ^ 9) e"
    using assms by (intro duration_cast_mono) simp_all
  then show ?thesis
    using assms(7) by (simp add: SystemClock_now_ns_def word_le_def uint_word_of_int mod_pos_pos_trivial)
qed

text \<open>A steady clock before its epoch, which the standard allows, reads as a huge time.\<close>

theorem clock_before_epoch:
  "SystemClock_now_ns \<lparr>period_num = 1, period_den = 10 ^ 9, tick_count = -1\<rparr> = - 1"
  by (simp add: SystemClock_now_ns_def duration_cast_def signed_divide_int_def)

end
