(* ===== verification/Spec2Isabelle.thy ===== *)
theory Spec2Isabelle
  imports KC_Races KC_Threads KC_Cluster KC_CudaCorrect KC_Clock
begin

text \<open>
  Kernel Cache keeps compiled accelerator kernels: a client asks for a kernel by a compatibility
  key, the cache returns a lease on a stored artifact that is provably compatible, or builds,
  validates, publishes and optionally persists a new one. This development models the C++
  sources under \<^verbatim>\<open>src/\<close> as functions and step relations and proves what makes them correct.
  Definitions keep the names of the source.

  \<^bold>\<open>How the parts fit together.\<close> A \<^verbatim>\<open>KernelCompatibilityKey\<close> is finalized into canonical bytes and their
  SHA-256 digest; the digest addresses the key index. \<^verbatim>\<open>KernelCache::Impl\<close> holds the records (\<^verbatim>\<open>by_id\<close>),
  two indices over them, the fences of running builds, counters, events and backends. A lookup
  gathers candidates, asks the compatibility engine and picks the best one; acquire adds a lease;
  a miss may start a build, which one caller owns and the others wait for. Records move through
  the lifecycle table; eviction, invalidation, validation and recovery all act on records through
  that table. Backends build, validate, load and execute: one for the CPU, one for CUDA devices. The
  command line \<^verbatim>\<open>kc\<close> runs one operation on a cache of its own. A coordinator process answers the
  lookups of clients and hands builds to worker processes, over framed messages that carry the epoch
  and the worker's boot as authority.

  \<^bold>\<open>Theories, bottom up.\<close>
  \<^item> \<^verbatim>\<open>KC_Prelude\<close>: words, bytes, big-endian order, the rule collections.
  \<^item> \<^verbatim>\<open>KC_Result\<close> (\<^verbatim>\<open>result.hpp\<close>, \<^verbatim>\<open>names.cpp\<close>): error codes and \<^verbatim>\<open>Result\<close> as a sum.
  \<^item> \<^verbatim>\<open>KC_Identifiers\<close> (\<^verbatim>\<open>identifiers.hpp/.cpp\<close>): 128-bit identities, their text and wire forms, both
    round trips.
  \<^item> \<^verbatim>\<open>KC_Sha256\<close> (\<^verbatim>\<open>sha256.cpp\<close>): the streaming object; it computes the one-shot digest however the
    input is cut into updates.
  \<^item> \<^verbatim>\<open>KC_Descriptors\<close>, \<^verbatim>\<open>KC_Canonical\<close>, \<^verbatim>\<open>KC_Key\<close> (\<^verbatim>\<open>descriptors.hpp/.cpp\<close>, \<^verbatim>\<open>canonical.cpp\<close>, \<^verbatim>\<open>key.cpp\<close>):
    the key, its encoding and its decoder; the decoder inverts the encoder, equal encodings mean
    equal keys, and the order in which flags and parameters are given does not matter. \<^verbatim>\<open>KC_KeyDecode\<close>:
    every key that the decoder accepts, from any bytes, is well formed.
  \<^item> \<^verbatim>\<open>KC_Compatibility\<close> (\<^verbatim>\<open>compatibility.cpp\<close>): the decision chain, characterised dimension by dimension.
  \<^item> \<^verbatim>\<open>KC_Lifecycle\<close> (\<^verbatim>\<open>lifecycle.cpp\<close>, \<^verbatim>\<open>state_machine.cpp\<close>): the transition table as a step relation with
    safety and reachability of the graph.
  \<^item> \<^verbatim>\<open>KC_Stats\<close>, \<^verbatim>\<open>KC_Explain\<close> (\<^verbatim>\<open>stats.cpp\<close>, \<^verbatim>\<open>explain.cpp\<close>): counters, bounded event history, JSON text.
  \<^item> \<^verbatim>\<open>KC_Artifact\<close>, \<^verbatim>\<open>KC_Record\<close> (\<^verbatim>\<open>artifact.hpp\<close>, \<^verbatim>\<open>backend.hpp\<close>, \<^verbatim>\<open>lookup.hpp\<close>, \<^verbatim>\<open>internal.hpp\<close>,
    \<^verbatim>\<open>persistence.hpp\<close>): the data, and every update of one record as an instance of the locale \<^verbatim>\<open>record_update\<close>.
  \<^item> \<^verbatim>\<open>KC_Index\<close>, \<^verbatim>\<open>KC_Lookup\<close>, \<^verbatim>\<open>KC_Residency\<close>, \<^verbatim>\<open>KC_Build\<close>, \<^verbatim>\<open>KC_Lease\<close>, \<^verbatim>\<open>KC_Manage\<close> (\<^verbatim>\<open>impl.hpp\<close>, \<^verbatim>\<open>cache.cpp\<close>,
    \<^verbatim>\<open>index.cpp\<close>, \<^verbatim>\<open>artifact_store.cpp\<close>, \<^verbatim>\<open>residency.cpp\<close>, \<^verbatim>\<open>build.cpp\<close>, \<^verbatim>\<open>leases.cpp\<close>, \<^verbatim>\<open>recovery.cpp\<close>): the
    operations of the cache, each with its effect on the index, the records and the counters.
  \<^item> \<^verbatim>\<open>KC_Base64\<close>, \<^verbatim>\<open>KC_Metadata\<close>, \<^verbatim>\<open>KC_FileStore\<close> (\<^verbatim>\<open>persistence.cpp\<close>): the file store down to the contents
    of files: base64 against its reference, the metadata text and its reader, and the operations as
    sequences of changes of the disk. The locale \<^verbatim>\<open>artifact_store\<close> is the contract of a store; the
    interpretation on the file store gives its refinement of a finite map. Crashes at every point
    and short writes are covered.
  \<^item> \<^verbatim>\<open>KC_CpuBackend\<close> (\<^verbatim>\<open>cpu_backend.cpp\<close>, \<^verbatim>\<open>validation.cpp\<close>): builder, validator and loader of the built-in
    backend over an abstract float arithmetic.
  \<^item> \<^verbatim>\<open>KC_CudaBackend\<close>, \<^verbatim>\<open>KC_CudaCorrect\<close> (\<^verbatim>\<open>cuda_backend.cpp\<close>): the CUDA backend over a driver and a compiler
    that are records of optional functions, as the source resolves them at run time. The locales
    \<^verbatim>\<open>sound_driver\<close>, \<^verbatim>\<open>sound_compiler\<close> and \<^verbatim>\<open>device_memory\<close> are what the backend relies on; a simulated device
    satisfies them. A calculus of postconditions over the option monad carries the proofs that every
    path gives back its buffers, modules and programs, and what a passed validation means.
  \<^item> \<^verbatim>\<open>KC_Restart\<close>: a kernel built, stored and found again by a new process.
  \<^item> \<^verbatim>\<open>KC_System\<close>: all public operations with the lease objects of the clients as one transition
    system; \<^verbatim>\<open>KC_SingleFlight\<close>: any number of threads inside \<^verbatim>\<open>build_impl\<close>, interleaved where the
    source holds no lock.
  \<^item> \<^verbatim>\<open>KC_Segments\<close>: every operation cut into changes of one record, insertions and counter updates of
    named kinds, so that an invariant of the cache is proved once per kind. \<^verbatim>\<open>KC_Modules\<close>: what follows
    for the lookup counters and for the device modules, whose loads and unloads the state records in
    \<^verbatim>\<open>module_calls\<close>. \<^verbatim>\<open>KC_Spec\<close>: an abstract machine of offers and handles, and the simulation (locale
    \<^verbatim>\<open>simulation\<close>) that makes every call of the cache one of its steps.
  \<^item> \<^verbatim>\<open>KC_Races\<close>: threads that acquire, evict and release, one critical section at a time, with every other
    operation in between; lease counters stay exact, dead artifacts are not leased and an eviction of
    an artifact that was not leased before excludes leases in any interleaving, and two schedules
    show what the sections do not exclude.
  \<^item> \<^verbatim>\<open>KC_Clock\<close> (\<^verbatim>\<open>clock.cpp\<close>, \<^verbatim>\<open>log.hpp\<close>): the conversions of the clock readings.
  \<^item> \<^verbatim>\<open>KC_Distributed\<close>, \<^verbatim>\<open>KC_Transport\<close>, \<^verbatim>\<open>KC_Coordinator\<close> (\<^verbatim>\<open>distributed.cpp\<close>, \<^verbatim>\<open>dist_tcp.hpp\<close>,
    \<^verbatim>\<open>coordinator.cpp\<close>, \<^verbatim>\<open>worker.cpp\<close>): frames, payload codecs (interpretations of the locale \<^verbatim>\<open>codec\<close>),
    reading from a segmented stream, and what each process does with a message. \<^verbatim>\<open>KC_Socket\<close> (\<^verbatim>\<open>dist_tcp.hpp\<close>):
    opening sockets and sending over a system that accepts any part of the bytes; frames arrive whole
    or not at all. \<^verbatim>\<open>KC_Sessions\<close>: the processes from \<^verbatim>\<open>main\<close> to exit; both message loops end because every
    frame takes at least eight bytes from the stream, and a worker's builds always return because its
    cache is private and has no store. \<^verbatim>\<open>KC_Threads\<close>: the connection threads of the coordinator as a step
    relation; an invariant over all interleavings shows when the epochs agree, and schedules played
    by a function show two races.
  \<^item> \<^verbatim>\<open>KC_Cli\<close> (\<^verbatim>\<open>cli/kc.cpp\<close>), \<^verbatim>\<open>KC_Client\<close> (\<^verbatim>\<open>client.cpp\<close>): the command line with every command, its output
    and exit code, and the client together with the coordinator it talks to.
  \<^item> \<^verbatim>\<open>KC_Cluster\<close>: coordinator and worker together build a kernel that nobody has and serve it from then on.
  \<^item> \<^verbatim>\<open>KC_Samples\<close>, \<^verbatim>\<open>KC_Demo\<close>: concrete environments and runs for the witnesses.
  \<^item> This theory: the properties of the composed cache.

  \<^bold>\<open>Parameters.\<close> The clock, the random source, the persistence store and the text form of a \<^verbatim>\<open>double\<close> are
  fields of an environment record that every operation receives; a backend is a record of functions. So are the
  CUDA driver, NVRTC, the socket calls, the process environment, the formats of floating-point
  numbers and single-precision arithmetic. The properties hold for all of them unless a hypothesis
  says otherwise.

  \<^bold>\<open>Loops and bounds.\<close> The eviction loop is a \<^verbatim>\<open>partial_function\<close> on options and is proved to return on
  consistent states; a call that deadlocks is \<^const>\<open>None\<close>. Padding of SHA-256 runs with a fuel of 65,
  one more than the bytes of a block, and is proved to reach its end. Counters are 64-bit words and
  wrap; theorems that need no wrap say so. Codec theorems carry the limits of the 32-bit length
  fields. Floating-point scores are rational numbers; the properties use only their order.

  \<^bold>\<open>Not modelled.\<close> The log functions other than the template are declared and never defined. What coordinator and worker print on \<^verbatim>\<open>stderr\<close> is left out. The threads
  of the coordinator step from one shared access to the next with whole frames and whole lookups; the
  unsynchronised tables of built and pending keys, a data race in C++, are updated in one step. In
  \<^verbatim>\<open>KC_Races\<close> a lookup is one section, since its result depends only on the snapshot it takes under the
  lock, and a miss ends the thread: concurrent builds are the subject of \<^verbatim>\<open>KC_SingleFlight\<close>.
  Declarations of headers, tests, benchmarks and examples are not part of the model.
\<close>

section \<open>The cache as a whole\<close>

text \<open>
  C1. In every state the cache can reach, whatever the clients call and whatever backends, clock and
  store do, the repository's own consistency checker finds nothing: every index entry names a live
  record filed under its own key and operation, exactly once, and every record is indexed.
\<close>

theorem index_always_consistent:
  assumes "reachable env c"
  shows "check_index_consistency (by_id (cache c)) (by_key (cache c)) (by_operation (cache c)) = (True, [])"
  using index_inv_consistent [OF reachable_index_inv [OF assms]] .

theorem index_always_consistent_witness:
  "find_rec sample_id (cache demo) = Some demo_record \<and>
    check_index_consistency (by_id (cache demo)) (by_key (cache demo)) (by_operation (cache demo)) = (True, [])"
  using index_always_consistent [OF demo_reachable] by (simp add: demo_find)

text \<open>
  C3. Lease accounting is exact: in every reachable state the lease counter of every record is the
  number of live lease objects on it (as long as fewer than \<open>2 ^ 64\<close> leases were ever granted).
\<close>

theorem lease_count_exact:
  assumes "reachable env c" and "length (leases c) < 2 ^ 64" and "find_rec i (cache c) = Some r"
  shows "unat (lease_count r) = live c i"
proof -
  have "live c i < 2 ^ 64" using assms(2) live_le [of c i] by simp
  moreover have "lease_count r = word_of_nat (live c i)"
    using reachable_lease_inv [OF assms(1,2)] assms(3) by (auto simp: lease_inv_def leases_of_def dest!: spec [of _ i])
  ultimately show ?thesis by (simp add: unat_of_nat)
qed

theorem lease_count_exact_witness:
  "\<exists>c r. reachable sample_env c \<and> find_rec sample_id (cache c) = Some r \<and> unat (lease_count r) = 1 \<and> live c sample_id = 1"
proof -
  obtain c st t where c: "sys_step sample_env demo c" "leases c = [Some st]" "ls_rec st = sample_id" "\<not> released st"
    "find_rec sample_id (cache c) = Some (grant_update t False demo_record)"
    using demo_leased by blast
  have r: "reachable sample_env c" using demo_reachable c(1) by (rule reachable.step)
  from lease_count_exact [OF r _ c(5)] c show ?thesis
    by (auto simp: live_def lease_valid_def lease_artifact_id_def intro!: exI [of _ c] r)
qed

text \<open>
  An artifact that has become unusable (invalidated, corrupt, retired or evicted) is never handed
  out again: whatever operations follow, no acquire ever returns a lease on it.
\<close>

theorem dead_artifact_never_leased:
  assumes "reachable env c" and "find_rec i (cache c) = Some r" and "\<not> usable r" and "(sys_step env)\<^sup>*\<^sup>* c c'"
  shows "\<forall>q l s. acquire_impl env q (cache c') = Some (Inr l, s) \<longrightarrow> lease_artifact_id l \<noteq> i"
  using acquire_usable unusable_stays [OF assms] by fastforce

theorem dead_artifact_never_leased_witness:
  "\<exists>c. sys_step sample_env demo c \<and>
    (\<forall>q l s. acquire_impl sample_env q (cache c) = Some (Inr l, s) \<longrightarrow> lease_artifact_id l \<noteq> sample_id)"
proof -
  obtain c r where c: "sys_step sample_env demo c" "find_rec sample_id (cache c) = Some r" "\<not> usable r"
    using demo_invalidated by blast
  have "reachable sample_env c" using demo_reachable c(1) by (rule reachable.step)
  from dead_artifact_never_leased [OF this c(2,3) rtranclp.rtrancl_refl] c(1) show ?thesis by blast
qed



text \<open>
  C24. Draining works: when the last live lease on an invalidated or corrupt artifact is released, its
  record ends in the state \<^verbatim>\<open>Retired\<close> with no leases left.
\<close>

theorem last_release_retires:
  assumes "reachable env c" and "length (leases c) < 2 ^ 64" and "n < length (leases c)"
    and "leases c ! n = Some st" and "\<not> released st" and "find_rec (ls_rec st) (cache c) = Some r"
    and "live c (ls_rec st) = 1" and "invalidated r \<or> corrupt r"
  shows "\<exists>c' r'. exec env (OpRelease n) c = Some c' \<and> find_rec (ls_rec st) (cache c') = Some r' \<and>
    rec_state r' = AS_Retired \<and> lease_count r' = 0"
proof -
  have "lease_count r = word_of_nat (live c (ls_rec st))"
    using reachable_lease_inv [OF assms(1,2)] assms(6)
    by (auto simp: lease_inv_def leases_of_def dest!: spec [of _ "ls_rec st"])
  then have "lease_count r = 1" using assms(7) by simp
  with release_retires [of r] index_inv_find [OF reachable_index_inv [OF assms(1)] assms(6)] assms
  show ?thesis by (auto simp: lease_release_def on_lease_release_def Let_def)
qed

theorem last_release_retires_witness:
  "\<exists>c c' r'. reachable sample_env c \<and> exec sample_env (OpRelease 0) c = Some c' \<and>
    find_rec sample_id (cache c') = Some r' \<and> rec_state r' = AS_Retired"
proof -
  obtain c st r where c: "reachable sample_env c" "leases c = [Some st]" "ls_rec st = sample_id" "\<not> released st"
    "find_rec sample_id (cache c) = Some r" "invalidated r"
    using demo_leased_invalidated by blast
  then show ?thesis
    using last_release_retires [OF c(1), of 0 st r]
    by (auto simp: live_def lease_valid_def lease_artifact_id_def)
qed

section \<open>Lookup, acquire and put\<close>



text \<open>
  An acquire that may not build hands out a lease only on an artifact that was acceptable for the
  request when it was made, and the lease carries that artifact's generation.
\<close>

theorem acquire_without_build:
  assumes "index_inv s" and "structure_ok (req_key q)" and "\<not> allow_miss_build q"
    and "acquire_impl env q s = Some (Inr l, s')"
  shows "\<exists>r. find_rec (lease_artifact_id l) s = Some r \<and> acceptable q r \<and> lease_generation l = rec_generation r"
proof -
  let ?rq = "q\<lparr>req_key := finalized (req_key q)\<rparr>"
  obtain dec s1 where l: "lookup_impl env ?rq s = (dec, s1)" by fastforce
  then obtain lr where lr: "dec = Inr lr" "is_hit lr"
    and p: "promote_and_grant env (the (lr_artifact lr)) ?rq s1 = Some (Inr l, s')"
    using assms(3,4) by (auto simp: acquire_impl_def Let_def split: sum.splits if_splits option.splits)
  from lookup_cases [OF assms(1) _ l] assms(2) lr obtain r where
    r: "r \<in> candidate_records (finalized (req_key q)) s" "acceptable q r" "lr_artifact lr = Some (rec_id r)"
    by auto
  then have f: "find_rec (rec_id r) s = Some r" by (simp add: candidate_records_def)
  then have f1: "find_rec (rec_id r) s1 = Some r"
    using lookup_frame [OF l] same_records_find by metis
  from promote_and_grant_lease [OF p] obtain s2 r2 st where
    g: "evolves s1 s2" "find_rec (rec_id r) s2 = Some r2" "l = Some st" "ls_rec st = rec_id r" "gen_value st = rec_generation r2"
    using r(3) by auto
  have "index_inv s1" using assms(1) lookup_frame [OF l] same_records_inv by metis
  with g(1,2) f1 have "rec_generation r2 = rec_generation r"
    using evolves_find [of s1 s2 "rec_id r" r r2] by (simp add: record_evolves_def)
  with f r(2) g show ?thesis by (auto simp: lease_artifact_id_def lease_generation_def)
qed

theorem acquire_without_build_witness:
  "\<exists>l s. acquire_impl sample_env demo_request (cache demo) = Some (Inr l, s) \<and>
    lease_artifact_id l = sample_id \<and> lease_generation l = 1"
proof -
  obtain s st where a: "acquire_impl sample_env demo_request (cache demo) = Some (Inr (Some st), s)" "ls_rec st = sample_id"
    using demo_acquire by blast
  from acquire_without_build [OF demo_index_inv _ _ a(1)] a show ?thesis
    by (auto simp: sample_keys_ok lease_artifact_id_def demo_find)
qed



section \<open>Building\<close>


text \<open>
  C26. A build for which no other is in flight, with a complete backend that builds and validates and
  a store that accepts the artifact (or none), returns the artifact.
\<close>

theorem build_completes:
  assumes "reliable_backend (finalized (req_key q)) s"
    and "map_of (in_flight s) (key_digest (finalized (req_key q))) = None"
    and "\<forall>p. persistence_open s \<and> persistence s = Some p \<longrightarrow> (\<forall>sa. \<exists>p'. ps_put (store env) p sa = (ok, p'))"
  shows "\<exists>d s'. build_impl env q s = Some ((Inr d, True), s')"
  using assms by (rule build_returns)

lemma sample_no_store: "\<not> persistence_open sample_cache" "in_flight sample_cache = []" "next_generation sample_cache = 0"
  by (simp_all add: sample_cache_def Impl_new_def)

theorem build_completes_witness:
  "\<exists>d s'. build_impl sample_env sample_request sample_cache = Some ((Inr d, True), s')"
  by (rule build_completes [OF reliable_sample]) (simp_all add: sample_no_store)


text \<open>
  C27. A failed build leaves no trace but its generation number: records and indexes are unchanged
  and its fence is gone, so the next request for the key can build again.
\<close>

theorem failed_build_leaves_no_trace:
  assumes "build_impl env q s = Some ((Inl e, True), s')"
  shows "same_records s s' \<and> map_of (in_flight s') (key_digest (finalized (req_key q))) = None \<and>
    next_generation s' = next_generation s + 1"
proof -
  let ?rq = "default_namespace s (q\<lparr>req_key := finalized (req_key q)\<rparr>)"
  from assms show ?thesis
  proof (rule build_owner)
    fix f s1 att gen oc s2
    assume c: "build_claim env ?rq s = ((True, f), s1)"
      and b: "run_build env ?rq gen att s1 = (oc, s2)"
      and fin: "build_finish env att oc (build_retire (finalized (req_key q)) f (build_publish f oc s2)) = Some (Inl e, s')"
    let ?p = "build_publish f oc s2"
    have "map_of (in_flight ?p) (key_digest (finalized (req_key q))) = Some f"
      using claim_owner [OF c] run_build_frame [OF b] by (simp add: build_publish_def Let_def same_outer_def)
    then have "map_of (in_flight (build_retire (finalized (req_key q)) f ?p)) (key_digest (finalized (req_key q))) = None"
      by (rule retire_claim)
    moreover have "next_generation (build_retire (finalized (req_key q)) f ?p) = next_generation s + 1"
      using claim_owner [OF c] run_build_frame [OF b] by (simp add: build_publish_def build_retire_def Let_def same_outer_def)
    moreover have "same_records s (build_retire (finalized (req_key q)) f ?p)"
      using claim_frame [OF c] run_build_frame [OF b] publish_frame [of s2 f oc] retire_frame [of ?p]
      by (simp add: same_records_def)
    ultimately show ?thesis using finish_failure [OF fin] by (simp add: same_records_def same_outer_def)
  qed
qed

theorem failed_build_leaves_no_trace_witness:
  "\<exists>e s'. build_impl sample_env sample_request (Impl_new sample_config) = Some ((Inl e, True), s') \<and>
    same_records (Impl_new sample_config) s'"
proof -
  have "complete_backend (find_backend k (Impl_new sample_config)) = None" for k
    by (simp add: complete_backend_def find_backend_def Impl_new_def)
  then obtain e s' where b: "build_impl sample_env sample_request (Impl_new sample_config) = Some ((Inl e, True), s')"
    by (simp add: build_impl_def build_claim_def run_build_def build_finish_def now_ns_def rand_def Let_def
        Impl_new_def complete_backend_def find_backend_def)
  from failed_build_leaves_no_trace [OF b] b show ?thesis by blast
qed

text \<open>
  A store that refuses the artifact hangs the builder: the failure branch takes the statistics
  mutex and then records an event, which takes the same mutex again, so the call never returns.
\<close>

theorem persist_failure_hangs:
  assumes "persistence_open s" and "persistence s = Some p" and "\<forall>sa. \<exists>e p'. ps_put (store env) p sa = (Inl e, p')"
    and "in_flight s = []" and "\<forall>i. find_rec i s = None" and "reliable_backend (finalized (req_key q)) s"
  shows "build_impl env q s = None"
proof -
  let ?rq = "default_namespace s (q\<lparr>req_key := finalized (req_key q)\<rparr>)"
  obtain f s1 where c: "build_claim env ?rq s = ((True, f), s1)"
    using claims_free [of s ?rq env] assms(4) by auto
  let ?att = "attempt (fences s1 ! f)" and ?gen = "build_generation (fences s1 ! f)"
  obtain oc s2 where b: "run_build env ?rq ?gen ?att s1 = (oc, s2)" by fastforce
  let ?t = "build_retire (finalized (req_key q)) f (build_publish f oc s2)"
  have ok: "succeeded oc"
    using run_build_succeeds [of ?rq s1 env ?gen ?att] reliable_frame [of s1 s] claim_frame [OF c] assms(6) b by simp
  have t: "persistence_open ?t" "persistence ?t = Some p" "find_rec i ?t = None" for i
    using claim_frame [OF c] run_build_frame [OF b] publish_frame [of s2 f oc] assms(1,2,5)
    by (auto simp: build_retire_def build_publish_def Let_def same_outer_def same_records_def find_rec_def)
  have "build_finish env ?att oc ?t = None"
    using t ok assms(3)
    by (auto simp: build_finish_def build_insert_def build_persist_def now_ns_def Let_def
        split: option.splits prod.splits sum.splits) (metis Inl_Inr_False fst_conv)
  then show ?thesis by (simp add: build_impl_def Let_def c b)
qed

definition broken_cache :: "unit Impl" where
  "broken_cache = (Impl_new sample_config)\<lparr>backends := [(''text'', text_backend)], persistence := Some (),
     persistence_open := True\<rparr>"

theorem persist_failure_hangs_witness: "build_impl broken_env sample_request broken_cache = None"
proof (rule persist_failure_hangs [where p = "()"])
  have "find_backend k broken_cache = Some text_backend" for k
    by (simp add: find_backend_def broken_cache_def text_backend_def)
  then show "reliable_backend (finalized (req_key sample_request)) broken_cache"
    by (auto simp: reliable_backend_def complete_backend_sample) (auto simp: text_backend_def)
qed (simp_all add: broken_cache_def broken_env_def Impl_new_def find_rec_def)

section \<open>Residency and recovery\<close>

text \<open>
  C10. The eviction loop always returns; it keeps the cache consistent, does not touch any leased or
  pinned record, and stops only when the counted bytes are within the budget or nothing evictable
  is left.
\<close>

theorem eviction_loop_correct:
  assumes "index_inv s"
  shows "\<exists>s'. evict_to_fit env tier s = Some s' \<and> index_inv s' \<and> spares_held s s' \<and>
    (applies tier s' \<longrightarrow> used_bytes tier s' \<le> budget_for tier s' \<or> (\<forall>(i, r) \<in> set (by_id s'). \<not> evictable tier r))"
  using evict_to_fit_returns [OF assms, of env tier] assms by (auto simp: fits_def evolves_def)

theorem eviction_loop_correct_witness:
  "\<exists>s'. evict_to_fit sample_env RT_DeviceResident (cache demo) = Some s' \<and> index_inv s'"
  using eviction_loop_correct [OF demo_index_inv] by blast

text \<open>
  Eviction spares artifacts in use: a leased or pinned artifact is refused with
  \<^verbatim>\<open>EvictionForbidden\<close> and nothing changes, forced or not; any other one loses its module and its
  footprint, drops to the storage tier it is backed by, and no other record changes.
\<close>

theorem evict_only_idle:
  assumes "find_rec i s = Some r"
  shows "(if held r then (\<exists>m. evict_impl env i force s = (fail EC_EvictionForbidden m, s))
    else \<exists>s' r'. evict_impl env i force s = (ok, s') \<and> find_rec i s' = Some r' \<and>
      native_handle r' = None \<and> device_footprint r' = 0 \<and>
      rec_tier r' = (if persistent r then RT_PersistentStorage else RT_MetadataOnly) \<and>
      (\<forall>j. j \<noteq> i \<longrightarrow> find_rec j s' = find_rec j s))"
  using assms
  by (auto simp: evict_impl_def held_def Let_def evict_end_update_def evict_begin_update_def demoted_tier_def
      try_state_def)

theorem evict_only_idle_witness:
  "\<exists>s' r'. evict_impl sample_env sample_id True (cache demo) = (ok, s') \<and> find_rec sample_id s' = Some r' \<and>
    rec_tier r' = (if persistent demo_record then RT_PersistentStorage else RT_MetadataOnly)"
  using evict_only_idle [of sample_id "cache demo" demo_record sample_env True] by (auto simp: demo_find)

text \<open>
  Eviction of an artifact that was never leased is final: its state leaves the eligible ones and
  no operation leads back, so it stays unusable in every later state.
\<close>

theorem evicted_never_reused:
  assumes "reachable env c" and "find_rec i (cache c) = Some r" and "\<not> held r" and "rec_state r \<noteq> AS_InUse"
    and "exec env (OpEvict i force) c = Some c1" and "(sys_step env)\<^sup>*\<^sup>* c1 c'"
  shows "\<exists>r'. find_rec i (cache c') = Some r' \<and> \<not> usable r'"
proof -
  have "rec_ok r" using index_inv_find [OF reachable_index_inv [OF assms(1)] assms(2)] by simp
  moreover have "cache c1 = snd (evict_impl env i force (cache c))" using assms(5) by auto
  ultimately have "find_rec i (cache c1) = Some (evicted r)" "\<not> usable (evicted r)"
    using evict_success [OF assms(2,3)] evicted_dead [OF _ assms(4)] by auto
  moreover have "reachable env c1" using assms(1,5) by (blast intro: reachable.step sys_step.call)
  ultimately show ?thesis
    using steps_evolve [OF assms(6)] reachable_index_inv [of env c1]
    by (fastforce simp: evolves_def record_evolves_def)
qed

theorem evicted_never_reused_witness:
  "\<exists>c1 r'. exec sample_env (OpEvict sample_id False) demo = Some c1 \<and> find_rec sample_id (cache c1) = Some r' \<and>
    \<not> usable r'"
proof -
  obtain c1 where c1: "exec sample_env (OpEvict sample_id False) demo = Some c1" by simp
  from evicted_never_reused [OF demo_reachable _ _ _ c1 rtranclp.rtrancl_refl, of demo_record] c1
  show ?thesis by (auto simp: demo_find)
qed

text \<open>
  A pin requested with a lease outlives it: releasing the lease does not take the pin back, so
  the artifact can no longer be evicted although nobody holds it.
\<close>

theorem pin_outlives_lease:
  assumes "grant_lease env i q s = (Inr l, s1)" and "req_pin q" and "find_rec i s = Some r" and "pin_count r \<noteq> - 1"
    and "lease_release l s1 = (l', s2)"
  shows "(\<exists>r2. find_rec i s2 = Some r2 \<and> pin_count r2 = pin_count r + 1) \<and>
    (\<exists>m. evict_impl env i force s2 = (fail EC_EvictionForbidden m, s2))"
proof -
  have "pin_count r + 1 > 0" using assms(4) by (simp add: word_gt_0 add_eq_0_iff2)
  moreover from grant_cases [OF assms(1)] assms(2,3,5)
  obtain r2 where "find_rec i s2 = Some r2" "pin_count r2 = pin_count r + 1"
    by (auto simp: lease_release_def on_lease_release_def grant_update_def Let_def)
  ultimately show ?thesis by (simp add: evict_impl_def)
qed

theorem pin_outlives_lease_witness:
  "\<exists>l s1 l' s2 m. grant_lease sample_env sample_id (demo_request\<lparr>req_pin := True\<rparr>) (cache demo) = (Inr l, s1) \<and>
    lease_release l s1 = (l', s2) \<and> evict_impl sample_env sample_id True s2 = (fail EC_EvictionForbidden m, s2)"
proof -
  obtain l s1 where g: "grant_lease sample_env sample_id (demo_request\<lparr>req_pin := True\<rparr>) (cache demo) = (Inr l, s1)"
    by (simp add: grant_lease_def demo_find lease_eligible_usable now_ns_def Let_def)
  obtain l' s2 where r: "lease_release l s1 = (l', s2)" by fastforce
  from pin_outlives_lease [OF g _ _ _ r, of demo_record True] g r show ?thesis by (auto simp: demo_find)
qed



end
